(* ===== verification/Prelude.thy ===== *)
theory Prelude
  imports Complex_Main "HOL-Library.AList" "HOL-Library.Multiset"
begin

text \<open>
  What the component theories share: the result type of fallible operations, the
  \<open>named_theorems\<close> collections their simplification sets live in, and generic facts on
  lists and association lists. A Go map is an association list with distinct keys
  (\<open>amap_ok\<close>): Go leaves the iteration order open, so every operation that depends on
  it takes the choice as an argument.
\<close>

section \<open>Fact collections\<close>

named_theorems gostr \<open>facts on the modelled Go string operations\<close>
named_theorems lists \<open>facts on lists shared by the components\<close>
named_theorems go_eval \<open>the definitions \<open>simp\<close> unfolds to run the model on a concrete input\<close>
named_theorems amap \<open>facts on association lists used as Go maps\<close>

lemma replicate_numeral_rec [go_eval]:
  "replicate (numeral k) x = x # replicate (pred_numeral k) x"
  by (simp add: numeral_eq_Suc)

section \<open>Results\<close>

type_synonym ('e, 'a) result = "'e + 'a"

text \<open>A Go function that returns \<open>(value, error)\<close> is a sum; \<open>Inl\<close> is the error.\<close>

definition is_err :: "('e, 'a) result \<Rightarrow> bool" where
  "is_err r = (case r of Inl _ \<Rightarrow> True | Inr _ \<Rightarrow> False)"

lemma is_err_simps [simp]: "is_err (Inl e)" "\<not> is_err (Inr a)"
  by (simp_all add: is_err_def)

text \<open>The first error of a list of checks, in order; \<open>None\<close> when all pass.\<close>

fun first_error :: "('a \<Rightarrow> 'e option) \<Rightarrow> 'a list \<Rightarrow> 'e option" where
  "first_error f [] = None"
| "first_error f (x # xs) = (case f x of Some e \<Rightarrow> Some e | None \<Rightarrow> first_error f xs)"

lemma first_error_None [lists]: "first_error f xs = None \<longleftrightarrow> (\<forall>x\<in>set xs. f x = None)"
  by (induction xs) (auto split: option.splits)

lemma first_error_Some [lists]:
  "first_error f xs = Some e \<Longrightarrow> \<exists>x\<in>set xs. f x = Some e"
  by (induction xs) (auto split: option.splits)

section \<open>Go maps as association lists\<close>

type_synonym ('k, 'v) gomap = "('k \<times> 'v) list"

definition amap_ok :: "('k, 'v) gomap \<Rightarrow> bool" where
  "amap_ok m = distinct (map fst m)"

lemma amap_ok_Nil [simp]: "amap_ok []"
  by (simp add: amap_ok_def)

lemma amap_ok_update [amap, simp]: "amap_ok m \<Longrightarrow> amap_ok (AList.update k v m)"
  by (simp add: amap_ok_def distinct_update)

lemma amap_ok_delete [amap, simp]: "amap_ok m \<Longrightarrow> amap_ok (AList.delete k m)"
  by (simp add: amap_ok_def distinct_delete)

lemma set_update_subset: "set (AList.update k v m) \<subseteq> insert (k, v) (set m)"
  by (induction m) auto

lemma map_of_update_apply [amap, simp]:
  "map_of (AList.update k v m) k' = (if k' = k then Some v else map_of m k')"
  by (simp add: update_conv')

lemma map_of_delete_apply [amap, simp]:
  "map_of (AList.delete k m) k' = (if k' = k then None else map_of m k')"
  by (simp add: delete_conv')

lemma length_update_le [amap]: "length (AList.update k v m) \<le> Suc (length m)"
  by (induction m) auto

lemma length_update_mem [amap]:
  "k \<in> fst ` set m \<Longrightarrow> length (AList.update k v m) = length m"
  by (induction m) auto

lemma length_delete_mem [amap]:
  "k \<in> fst ` set m \<Longrightarrow> length (AList.delete k m) < length m"
proof (induction m)
  case (Cons a m)
  have "length (AList.delete k m) \<le> length m" by (rule length_delete_le)
  with Cons show ?case by (cases a) (auto simp: le_imp_less_Suc)
qed simp

section \<open>Lists\<close>

lemma foldl_append_map [lists]: "foldl (\<lambda>acc x. acc @ [f x]) ys xs = ys @ map f xs"
  by (induction xs arbitrary: ys) auto

lemma foldl_append_filter [lists]:
  "foldl (\<lambda>acc x. if P x then acc @ [x] else acc) ys xs = ys @ filter P xs"
  by (induction xs arbitrary: ys) auto

text \<open>The last \<open>n\<close> elements: what a ring buffer of capacity \<open>n\<close> keeps.\<close>

definition last_n :: "nat \<Rightarrow> 'a list \<Rightarrow> 'a list" where
  "last_n n xs = drop (length xs - n) xs"

lemma length_last_n [simp]: "length (last_n n xs) = min n (length xs)"
  by (simp add: last_n_def)

lemma last_n_all [simp]: "length xs \<le> n \<Longrightarrow> last_n n xs = xs"
  by (simp add: last_n_def)

lemma set_last_n: "set (last_n n xs) \<subseteq> set xs"
  by (simp add: last_n_def set_drop_subset)

lemma last_n_snoc:
  assumes "0 < n"
  shows "last_n n (xs @ [x]) = last_n (n - 1) xs @ [x]"
  using assms by (auto simp: last_n_def Suc_diff_le)

lemma last_n_append_last_n:
  "last_n n (last_n n xs @ ys) = last_n n (xs @ ys)"
  by (cases "length xs \<le> n") (auto simp: last_n_def add.commute)

end
