(* ===== verification/Go_Strings.thy ===== *)
theory Go_Strings
  imports Prelude "HOL-Library.Char_ord" "HOL-Library.List_Lexorder"
begin

text \<open>
  The part of Go's \<open>strings\<close>, \<open>unicode/utf8\<close> and \<open>strconv\<close> packages the program uses.
  A Go string is a byte sequence, here a \<open>char list\<close> whose characters are bytes; the
  comparison of strings is bytewise (\<open>List_Lexorder\<close> over \<open>Char_ord\<close>). Runes are the
  code points UTF-8 decoding gives, the replacement character for each malformed byte.
  The Unicode tables beyond ASCII (lower case, simple folding) and the third-party
  the two \<open>idna\<close> conversions are the fields of \<open>text_env\<close>, a parameter of everything that uses them.
\<close>

section \<open>Bytes and runes\<close>

definition byte :: "char \<Rightarrow> nat" where
  "byte c = of_char c"

lemma byte_bound [simp]: "byte c < 256"
  by (simp add: byte_def)

lemma byte_char_of [simp]: "n < 256 \<Longrightarrow> byte (char_of n) = n"
  by (simp add: byte_def)

lemma char_of_byte [simp]: "char_of (byte c) = c"
  by (simp add: byte_def)

lemma char_of_bits:
  "char_of (n :: nat) = Char (odd n) (odd (n div 2)) (odd (n div 4)) (odd (n div 8))
     (odd (n div 16)) (odd (n div 32)) (odd (n div 64)) (odd (n div 128))"
  by (simp add: char_of_def bit_iff_odd)

lemma byte_inj [simp]: "byte c = byte d \<longleftrightarrow> c = d"
  by (simp add: byte_def)

definition is_ascii :: "string \<Rightarrow> bool" where
  "is_ascii s = list_all (\<lambda>c. byte c < 128) s"

lemma is_ascii_simps [simp]:
  "is_ascii []" "is_ascii (c # s) \<longleftrightarrow> byte c < 128 \<and> is_ascii s"
  "is_ascii (s @ t) \<longleftrightarrow> is_ascii s \<and> is_ascii t"
  by (simp_all add: is_ascii_def)

definition rune_error :: nat where "rune_error = 0xFFFD"

definition between :: "nat \<Rightarrow> nat \<Rightarrow> char \<Rightarrow> bool" where
  "between lo hi c = (lo \<le> byte c \<and> byte c \<le> hi)"

text \<open>\<open>utf8.DecodeRuneInString\<close>: the rune at the start of the string and its width.\<close>

fun decode_rune :: "string \<Rightarrow> nat \<times> nat" where
  "decode_rune [] = (rune_error, 0)"
| "decode_rune (c0 # s) =
    (let b0 = byte c0; bad = (rune_error, 1) in
     if b0 < 0x80 then (b0, 1)
     else if 0xC2 \<le> b0 \<and> b0 \<le> 0xDF then
       (case s of
          c1 # _ \<Rightarrow> if between 0x80 0xBF c1
                    then ((b0 - 0xC0) * 64 + (byte c1 - 0x80), 2) else bad
        | _ \<Rightarrow> bad)
     else if 0xE0 \<le> b0 \<and> b0 \<le> 0xEF then
       (case s of
          c1 # c2 # _ \<Rightarrow>
            if between (if b0 = 0xE0 then 0xA0 else 0x80) (if b0 = 0xED then 0x9F else 0xBF) c1
               \<and> between 0x80 0xBF c2
            then ((b0 - 0xE0) * 4096 + (byte c1 - 0x80) * 64 + (byte c2 - 0x80), 3) else bad
        | _ \<Rightarrow> bad)
     else if 0xF0 \<le> b0 \<and> b0 \<le> 0xF4 then
       (case s of
          c1 # c2 # c3 # _ \<Rightarrow>
            if between (if b0 = 0xF0 then 0x90 else 0x80) (if b0 = 0xF4 then 0x8F else 0xBF) c1
               \<and> between 0x80 0xBF c2 \<and> between 0x80 0xBF c3
            then ((b0 - 0xF0) * 262144 + (byte c1 - 0x80) * 4096
                  + (byte c2 - 0x80) * 64 + (byte c3 - 0x80), 4) else bad
        | _ \<Rightarrow> bad)
     else bad)"

text \<open>The string cut into runes, each with the bytes it was decoded from.\<close>

fun chunks :: "string \<Rightarrow> (nat \<times> string) list" where
  "chunks [] = []"
| "chunks (c # s) =
    (let (r, n) = decode_rune (c # s)
     in (r, c # take (n - 1) s) # chunks (drop (n - 1) s))"

definition runes :: "string \<Rightarrow> nat list" where
  "runes s = map fst (chunks s)"

lemma decode_rune_ascii [simp]: "byte c < 128 \<Longrightarrow> decode_rune (c # s) = (byte c, 1)"
  by simp

lemma chunks_ascii_Cons [simp]:
  "byte c < 128 \<Longrightarrow> chunks (c # s) = (byte c, [c]) # chunks s"
  by simp

declare decode_rune.simps(2) [simp del]
declare chunks.simps(2) [simp del]

lemma chunks_bytes: "concat (map snd (chunks s)) = s"
  by (induction s rule: chunks.induct) (auto simp: chunks.simps(2) split: prod.splits)

lemma chunks_ascii: "is_ascii s \<Longrightarrow> chunks s = map (\<lambda>c. (byte c, [c])) s"
  by (induction s) auto

lemma runes_ascii: "is_ascii s \<Longrightarrow> runes s = map byte s"
  by (simp add: runes_def chunks_ascii)

text \<open>\<open>utf8.EncodeRune\<close>: surrogates and values above \<open>0x10FFFF\<close> become the replacement.\<close>

definition encode_rune :: "nat \<Rightarrow> string" where
  "encode_rune r0 =
    (let r = (if r0 > 0x10FFFF \<or> (0xD800 \<le> r0 \<and> r0 \<le> 0xDFFF) then rune_error else r0) in
     map char_of
       (if r < 0x80 then [r]
        else if r < 0x800 then [0xC0 + r div 64, 0x80 + r mod 64]
        else if r < 0x10000
          then [0xE0 + r div 4096, 0x80 + r div 64 mod 64, 0x80 + r mod 64]
        else [0xF0 + r div 262144, 0x80 + r div 4096 mod 64,
              0x80 + r div 64 mod 64, 0x80 + r mod 64]))"

lemma encode_rune_ascii: "r < 128 \<Longrightarrow> encode_rune r = [char_of r]"
  by (simp add: encode_rune_def)

section \<open>The text environment\<close>

record text_env =
  idna_to_ascii :: "string \<Rightarrow> string option" \<comment> \<open>golang.org/x/net/idna, third party\<close>
  idna_lookup :: "string \<Rightarrow> string option"   \<comment> \<open>its profile for lookups, which the transport uses\<close>
  lower_rune :: "nat \<Rightarrow> nat"  \<comment> \<open>unicode.ToLower beyond ASCII\<close>
  fold_rune :: "nat \<Rightarrow> nat"   \<comment> \<open>a representative of the SimpleFold orbit, beyond ASCII\<close>

section \<open>Case\<close>

definition lower_byte :: "nat \<Rightarrow> nat" where
  "lower_byte n = (if 65 \<le> n \<and> n \<le> 90 then n + 32 else n)"

definition lower_char :: "char \<Rightarrow> char" where
  "lower_char c = char_of (lower_byte (byte c))"

lemma byte_lower_char [simp]: "byte (lower_char c) = lower_byte (byte c)"
proof -
  have "lower_byte (byte c) < 256"
    using byte_bound [of c] by (auto simp: lower_byte_def simp del: byte_bound)
  then show ?thesis by (simp add: lower_char_def)
qed

lemma lower_byte_idem [simp]: "lower_byte (lower_byte n) = lower_byte n"
  by (simp add: lower_byte_def)

lemma lower_byte_ascii [simp]: "lower_byte n < 128 \<longleftrightarrow> n < 128"
  by (auto simp: lower_byte_def)

lemma lower_char_idem [simp]: "lower_char (lower_char c) = lower_char c"
  using byte_inj byte_lower_char lower_byte_idem by metis

lemma is_ascii_map_lower [simp]: "is_ascii (map lower_char s) \<longleftrightarrow> is_ascii s"
  by (induction s) auto

definition to_lower :: "text_env \<Rightarrow> string \<Rightarrow> string" where
  "to_lower E s =
    (if is_ascii s then map lower_char s
     else concat (map (\<lambda>r. encode_rune (if r < 128 then lower_byte r else lower_rune E r))
                      (runes s)))"

lemma to_lower_ascii: "is_ascii s \<Longrightarrow> to_lower E s = map lower_char s"
  by (simp add: to_lower_def)

definition is_lower_ascii :: "string \<Rightarrow> bool" where
  "is_lower_ascii s = list_all (\<lambda>c. byte c < 128 \<and> \<not> (65 \<le> byte c \<and> byte c \<le> 90)) s"

lemma is_lower_ascii_ascii: "is_lower_ascii s \<Longrightarrow> is_ascii s"
  by (auto simp: is_lower_ascii_def is_ascii_def list_all_iff)

lemma lower_char_id: "\<not> (65 \<le> byte c \<and> byte c \<le> 90) \<Longrightarrow> lower_char c = c"
  by (auto simp: lower_char_def lower_byte_def)

lemma to_lower_id: "is_lower_ascii s \<Longrightarrow> to_lower E s = s"
  by (simp add: to_lower_ascii is_lower_ascii_ascii)
     (induction s; simp add: is_lower_ascii_def lower_char_id)

text \<open>\<open>strings.EqualFold\<close>: equal rune by rune up to simple case folding.\<close>

definition fold_key :: "text_env \<Rightarrow> nat \<Rightarrow> nat" where
  "fold_key E r = (if r < 128 then lower_byte r else fold_rune E r)"

definition equal_fold :: "text_env \<Rightarrow> string \<Rightarrow> string \<Rightarrow> bool" where
  "equal_fold E s t = (map (fold_key E) (runes s) = map (fold_key E) (runes t))"

lemma equal_fold_refl [simp]: "equal_fold E s s"
  by (simp add: equal_fold_def)

lemma equal_fold_sym: "equal_fold E s t = equal_fold E t s"
  by (auto simp: equal_fold_def)

lemma equal_fold_trans: "equal_fold E s t \<Longrightarrow> equal_fold E t u \<Longrightarrow> equal_fold E s u"
  by (simp add: equal_fold_def)

lemma equal_fold_ascii:
  assumes "is_ascii s" "is_ascii t"
  shows "equal_fold E s t \<longleftrightarrow> map lower_char s = map lower_char t"
proof -
  have *: "map (fold_key E) (runes u) = map byte (map lower_char u)" if "is_ascii u" for u
    using that by (induction u) (auto simp: runes_ascii fold_key_def runes_def)
  have "map byte (map lower_char s) = map byte (map lower_char t)
      \<longleftrightarrow> map lower_char s = map lower_char t"
    by (rule inj_map_eq_map) (auto intro: injI)
  then show ?thesis
    unfolding equal_fold_def using assms by (simp only: *)
qed

lemma equal_fold_lower:
  assumes "is_lower_ascii s" "is_lower_ascii t"
  shows "equal_fold E s t \<longleftrightarrow> s = t"
  using assms to_lower_id [of s E] to_lower_id [of t E]
  by (simp add: equal_fold_ascii is_lower_ascii_ascii to_lower_ascii)

section \<open>Prefixes, suffixes, search\<close>

fun has_prefix :: "string \<Rightarrow> string \<Rightarrow> bool" where
  "has_prefix s [] = True"
| "has_prefix [] (p # ps) = False"
| "has_prefix (c # s) (p # ps) = (c = p \<and> has_prefix s ps)"

lemma has_prefix_iff [gostr]: "has_prefix s p \<longleftrightarrow> (\<exists>t. s = p @ t)"
  by (induction s p rule: has_prefix.induct) auto

lemma has_prefix_length: "has_prefix s p \<Longrightarrow> length p \<le> length s \<and> take (length p) s = p"
  by (auto simp: has_prefix_iff)

lemma has_prefix_append [simp]: "has_prefix (p @ s) p"
  by (auto simp: has_prefix_iff)

definition has_suffix :: "string \<Rightarrow> string \<Rightarrow> bool" where
  "has_suffix s p = has_prefix (rev s) (rev p)"

lemma has_suffix_iff [gostr]: "has_suffix s p \<longleftrightarrow> (\<exists>t. s = t @ p)"
proof -
  have "has_suffix s p \<longleftrightarrow> (\<exists>t. rev s = rev p @ rev t)"
    unfolding has_suffix_def has_prefix_iff by (metis rev_rev_ident)
  then show ?thesis by (metis rev_append rev_rev_ident)
qed

definition trim_prefix :: "string \<Rightarrow> string \<Rightarrow> string" where
  "trim_prefix s p = (if has_prefix s p then drop (length p) s else s)"

definition trim_suffix :: "string \<Rightarrow> string \<Rightarrow> string" where
  "trim_suffix s p = (if has_suffix s p then take (length s - length p) s else s)"

lemma trim_suffix_id: "\<not> has_suffix s p \<Longrightarrow> trim_suffix s p = s"
  by (simp add: trim_suffix_def)

lemma trim_suffix_append [simp]: "trim_suffix (s @ p) p = s"
  by (simp add: trim_suffix_def has_suffix_iff)

text \<open>\<open>strings.Index\<close>: \<open>None\<close> stands for \<open>-1\<close>.\<close>

fun index_of :: "string \<Rightarrow> string \<Rightarrow> nat option" where
  "index_of [] p = (if p = [] then Some 0 else None)"
| "index_of (c # s) p =
    (if has_prefix (c # s) p then Some 0 else map_option Suc (index_of s p))"

definition contains :: "string \<Rightarrow> string \<Rightarrow> bool" where
  "contains s p = (index_of s p \<noteq> None)"

lemma index_of_Some:
  "index_of s p = Some i \<Longrightarrow> i + length p \<le> length s \<and> take (length p) (drop i s) = p"
  by (induction s arbitrary: i) (auto dest: has_prefix_length split: if_splits)

lemma contains_iff [gostr]: "contains s p \<longleftrightarrow> (\<exists>u v. s = u @ p @ v)"
proof (induction s)
  case Nil
  then show ?case by (auto simp: contains_def)
next
  case (Cons c s)
  have "contains (c # s) p \<longleftrightarrow> has_prefix (c # s) p \<or> contains s p"
    by (simp add: contains_def)
  also have "\<dots> \<longleftrightarrow> (\<exists>u v. c # s = u @ p @ v)"
    unfolding Cons.IH has_prefix_iff
    by (metis append_Cons append_Nil neq_Nil_conv list.inject)
  finally show ?case .
qed

lemma contains_char_iff [gostr]: "contains s [c] \<longleftrightarrow> c \<in> set s"
  by (auto simp: contains_iff in_set_conv_decomp)

text \<open>\<open>strings.LastIndexByte\<close> and \<open>strings.IndexByte\<close>.\<close>

fun index_byte :: "string \<Rightarrow> char \<Rightarrow> nat option" where
  "index_byte [] c = None"
| "index_byte (x # s) c = (if x = c then Some 0 else map_option Suc (index_byte s c))"

fun last_index_byte :: "string \<Rightarrow> char \<Rightarrow> nat option" where
  "last_index_byte [] c = None"
| "last_index_byte (x # s) c =
    (case last_index_byte s c of
       Some i \<Rightarrow> Some (Suc i)
     | None \<Rightarrow> if x = c then Some 0 else None)"

lemma index_byte_None [gostr]: "index_byte s c = None \<longleftrightarrow> c \<notin> set s"
  by (induction s) auto

lemma last_index_byte_None [gostr]: "last_index_byte s c = None \<longleftrightarrow> c \<notin> set s"
  by (induction s) (auto split: option.splits)

lemma index_byte_Some:
  "index_byte s c = Some i \<Longrightarrow> i < length s \<and> s ! i = c \<and> c \<notin> set (take i s)"
  by (induction s arbitrary: i) (auto split: if_splits)

lemma last_index_byte_Some:
  "last_index_byte s c = Some i \<Longrightarrow> i < length s \<and> s ! i = c \<and> c \<notin> set (drop (Suc i) s)"
  by (induction s arbitrary: i) (auto simp: last_index_byte_None split: option.splits if_splits)

lemma index_byte_append: "c \<notin> set u \<Longrightarrow> index_byte (u @ c # v) c = Some (length u)"
  by (induction u) auto

lemma last_index_byte_append: "c \<notin> set v \<Longrightarrow> last_index_byte (u @ c # v) c = Some (length u)"
proof (induction u)
  case Nil
  then have "last_index_byte v c = None" by (simp add: last_index_byte_None)
  then show ?case by simp
qed auto

text \<open>\<open>strings.Cut\<close> at a byte: the parts before and after it, and whether it was found.\<close>

definition cut :: "string \<Rightarrow> char \<Rightarrow> string \<times> string \<times> bool" where
  "cut s c = (case index_byte s c of
     None \<Rightarrow> (s, [], False)
   | Some i \<Rightarrow> (take i s, drop (Suc i) s, True))"

section \<open>Splitting and joining\<close>

fun split_on :: "char \<Rightarrow> string \<Rightarrow> string list" where
  "split_on c [] = [[]]"
| "split_on c (x # s) =
    (if x = c then [] # split_on c s
     else (case split_on c s of [] \<Rightarrow> [[x]] | w # ws \<Rightarrow> (x # w) # ws))"

fun join :: "string \<Rightarrow> string list \<Rightarrow> string" where
  "join sep [] = []"
| "join sep [w] = w"
| "join sep (w # v # ws) = w @ sep @ join sep (v # ws)"

lemma split_on_ne [simp]: "split_on c s \<noteq> []"
  by (cases s) (auto split: list.splits)

lemma join_split_on [gostr]: "join [c] (split_on c s) = s"
proof (induction s)
  case (Cons x s)
  obtain w ws where ws: "split_on c s = w # ws" by (cases "split_on c s") auto
  with Cons show ?case by (cases ws) auto
qed simp

lemma split_on_no_sep: "w \<in> set (split_on c s) \<Longrightarrow> c \<notin> set w"
  by (induction s arbitrary: w) (auto split: list.splits if_splits)

lemma split_on_free: "c \<notin> set s \<Longrightarrow> split_on c s = [s]"
  by (induction s) auto

lemma split_on_append: "c \<notin> set w \<Longrightarrow> split_on c (w @ c # s) = w # split_on c s"
  by (induction w) auto

lemma split_on_join [gostr]:
  "ws \<noteq> [] \<Longrightarrow> \<forall>w\<in>set ws. c \<notin> set w \<Longrightarrow> split_on c (join [c] ws) = ws"
  by (induction "[c]" ws rule: join.induct) (auto simp: split_on_free split_on_append)

lemma join_eq_Nil: "join sep ws = [] \<Longrightarrow> sep \<noteq> [] \<Longrightarrow> ws = [] \<or> ws = [[]]"
  by (induction sep ws rule: join.induct) auto

lemma set_join: "set (join sep ws) \<subseteq> set sep \<union> \<Union> (set ` set ws)"
  by (induction sep ws rule: join.induct) auto

section \<open>Trimming\<close>

text \<open>\<open>unicode.IsSpace\<close>: the white space of Latin-1 and the Unicode space separators.\<close>

definition is_space :: "nat \<Rightarrow> bool" where
  "is_space r = (r \<in> {9, 10, 11, 12, 13, 32, 0x85, 0xA0, 0x1680, 0x2028, 0x2029,
                       0x202F, 0x205F, 0x3000} \<or> 0x2000 \<le> r \<and> r \<le> 0x200A)"

definition trim_space :: "string \<Rightarrow> string" where
  "trim_space s =
    (let sp = (\<lambda>(r, _). is_space r);
         front = dropWhile sp (chunks s)
     in concat (map snd (rev (dropWhile sp (rev front)))))"

definition no_outer_space :: "string \<Rightarrow> bool" where
  "no_outer_space s = (s = [] \<or> \<not> is_space (byte (hd s)) \<and> \<not> is_space (byte (last s)))"

lemma dropWhile_chunk:
  "dropWhile (\<lambda>(r, _). is_space r) (map (\<lambda>c. (byte c, [c])) t) =
   map (\<lambda>c. (byte c, [c])) (dropWhile (is_space \<circ> byte) t)"
  by (induction t) auto

lemma concat_chunk: "concat (map snd (map (\<lambda>c. (byte c, [c])) t)) = t"
  by (induction t) auto

lemma trim_space_ascii:
  assumes "is_ascii s"
  shows "trim_space s = rev (dropWhile (is_space \<circ> byte) (rev (dropWhile (is_space \<circ> byte) s)))"
  unfolding trim_space_def Let_def chunks_ascii [OF assms]
  by (simp only: dropWhile_chunk rev_map concat_chunk)

lemma dropWhile_rev_id: "t = [] \<or> \<not> P (last t) \<Longrightarrow> rev (dropWhile P (rev t)) = t"
  by (cases t rule: rev_cases) auto

lemma trim_space_id:
  assumes "is_ascii s" "no_outer_space s"
  shows "trim_space s = s"
proof -
  have "dropWhile (is_space \<circ> byte) s = s"
    using assms(2) by (cases s) (auto simp: no_outer_space_def)
  moreover have "rev (dropWhile (is_space \<circ> byte) (rev s)) = s"
    using assms(2) by (intro dropWhile_rev_id) (auto simp: no_outer_space_def)
  ultimately show ?thesis by (simp add: trim_space_ascii assms(1))
qed

lemma trim_space_Nil [simp]: "trim_space [] = []"
  by (simp add: trim_space_def)

text \<open>\<open>strings.Trim(s, cutset)\<close> for an ASCII cutset, and \<open>strings.TrimRight\<close>.\<close>

definition trim_right :: "string \<Rightarrow> string \<Rightarrow> string" where
  "trim_right s cutset = rev (dropWhile (\<lambda>c. c \<in> set cutset) (rev s))"

definition trim_set :: "string \<Rightarrow> string \<Rightarrow> string" where
  "trim_set s cutset = trim_right (dropWhile (\<lambda>c. c \<in> set cutset) s) cutset"

section \<open>Replacing\<close>

text \<open>\<open>strings.ReplaceAll\<close> for a non-empty old string.\<close>

fun replace_all :: "string \<Rightarrow> string \<Rightarrow> string \<Rightarrow> string" where
  "replace_all [] old new = []"
| "replace_all (c # s) old new =
    (if old \<noteq> [] \<and> has_prefix (c # s) old
     then new @ replace_all (drop (length old - 1) s) old new
     else c # replace_all s old new)"

section \<open>Numbers\<close>

definition is_digit :: "char \<Rightarrow> bool" where
  "is_digit c = between 48 57 c"

definition digits_value :: "string \<Rightarrow> nat" where
  "digits_value s = foldl (\<lambda>n c. n * 10 + (byte c - 48)) 0 s"

definition max_int :: int where "max_int = 9223372036854775807"

definition in_int64 :: "int \<Rightarrow> bool" where
  "in_int64 n = (- max_int - 1 \<le> n \<and> n \<le> max_int)"

text \<open>\<open>strconv.Atoi\<close>: an optional sign and decimal digits, in the range of a 64-bit int.\<close>

definition atoi :: "string \<Rightarrow> int option" where
  "atoi s =
    (let (neg, d) = (case s of
           c # t \<Rightarrow> if c = CHR ''-'' then (True, t)
                    else if c = CHR ''+'' then (False, t) else (False, s)
         | [] \<Rightarrow> (False, []));
         n = (if neg then - int (digits_value d) else int (digits_value d))
     in if d \<noteq> [] \<and> list_all is_digit d \<and> in_int64 n then Some n else None)"

fun nat_digits :: "nat \<Rightarrow> string" where
  "nat_digits n = (if n < 10 then [char_of (48 + n)]
                   else nat_digits (n div 10) @ [char_of (48 + n mod 10)])"

declare nat_digits.simps [simp del]

text \<open>\<open>strconv.Itoa\<close> and the verb \<open>%d\<close>.\<close>

definition itoa :: "int \<Rightarrow> string" where
  "itoa n = (if n < 0 then CHR ''-'' # nat_digits (nat (- n)) else nat_digits (nat n))"

lemma digits_value_append: "digits_value (s @ [c]) = digits_value s * 10 + (byte c - 48)"
  by (simp add: digits_value_def)

lemma nat_digits_digits: "list_all is_digit (nat_digits n)"
proof (induction n rule: nat_digits.induct)
  case (1 n)
  show ?case
  proof (cases "n < 10")
    case True
    then show ?thesis by (subst nat_digits.simps) (simp add: is_digit_def between_def)
  next
    case False
    with 1 have "list_all is_digit (nat_digits (n div 10))" by simp
    moreover have "is_digit (char_of (48 + n mod 10))"
      using mod_less_divisor [of 10 n] by (simp add: is_digit_def between_def)
    ultimately show ?thesis using False by (subst nat_digits.simps) simp
  qed
qed

lemma nat_digits_value [simp]: "digits_value (nat_digits n) = n"
proof (induction n rule: nat_digits.induct)
  case (1 n)
  show ?case
  proof (cases "n < 10")
    case True
    then show ?thesis by (subst nat_digits.simps) (simp add: digits_value_def)
  next
    case False
    have b: "byte (char_of (48 + n mod 10)) = 48 + n mod 10"
      using mod_less_divisor [of 10 n] by simp
    show ?thesis
      using False 1 by (subst nat_digits.simps) (simp add: digits_value_append b)
  qed
qed

lemma nat_digits_ne [simp]: "nat_digits n \<noteq> []"
  by (subst nat_digits.simps) simp

text \<open>Printing and parsing a number are inverse on the 64-bit range.\<close>

lemma nat_digits_head: "hd (nat_digits n) \<noteq> CHR ''-'' \<and> hd (nat_digits n) \<noteq> CHR ''+''"
proof -
  obtain c s where cs: "nat_digits n = c # s" by (cases "nat_digits n") auto
  with nat_digits_digits [of n] have "is_digit c" by simp
  then have "48 \<le> byte c" by (simp add: is_digit_def between_def)
  then show ?thesis unfolding cs by (auto simp: byte_def)
qed

lemma atoi_itoa: "in_int64 n \<Longrightarrow> atoi (itoa n) = Some n"
proof -
  assume r: "in_int64 n"
  obtain c s where cs: "nat_digits (nat n) = c # s" by (cases "nat_digits (nat n)") auto
  with nat_digits_head [of "nat n"] have "c \<noteq> CHR ''-''" "c \<noteq> CHR ''+''" by auto
  with r cs nat_digits_digits [of "nat n"] nat_digits_value [of "nat n"]
    nat_digits_digits [of "nat (- n)"]
  show ?thesis by (auto simp: atoi_def itoa_def)
qed

text \<open>The environment on ASCII text: nothing to convert. Used to run the model.\<close>

definition ascii_env :: text_env where
  "ascii_env = \<lparr> idna_to_ascii = (\<lambda>s. if is_ascii s then Some s else None),
                 idna_lookup = (\<lambda>_. None), lower_rune = (\<lambda>r. r), fold_rune = (\<lambda>r. r) \<rparr>"

lemmas [go_eval] = ascii_env_def byte_def between_def rune_error_def is_ascii_def runes_def lower_byte_def
  lower_char_def to_lower_def fold_key_def equal_fold_def has_suffix_def trim_prefix_def
  trim_suffix_def contains_def cut_def is_space_def trim_space_def trim_right_def trim_set_def
  is_digit_def digits_value_def max_int_def in_int64_def atoi_def nat_digits.simps itoa_def
  chunks.simps(2) decode_rune.simps(2) encode_rune_def char_of_bits Let_def

end
