(* ===== verification/Go_Net.thy ===== *)
theory Go_Net
  imports Go_Strings "HOL-Library.Word"
begin

text \<open>
  The part of Go's \<open>net\<close> and \<open>net/netip\<close> packages the program uses: parsing of
  addresses and prefixes, the containment test of a prefix, and the splitting and joining
  of \<open>host:port\<close>. A \<open>net.IP\<close> is its byte list, of length 4 or 16; the nil address of Go
  is \<open>None\<close>.
\<close>

unbundle bit_operations_syntax

type_synonym ip = "8 word list"

section \<open>The two forms of an address\<close>

definition v4_prefix :: ip where
  "v4_prefix = replicate 10 0 @ [255, 255]"

definition to4 :: "ip \<Rightarrow> ip option" where
  "to4 ip = (if length ip = 4 then Some ip
     else if length ip = 16 \<and> take 12 ip = v4_prefix then Some (drop 12 ip) else None)"

definition to16 :: "ip \<Rightarrow> ip option" where
  "to16 ip = (if length ip = 4 then Some (v4_prefix @ ip)
     else if length ip = 16 then Some ip else None)"

lemma length_v4_prefix [simp]: "length v4_prefix = 12"
  by (simp add: v4_prefix_def)

lemma to4_v4 [simp]: "length ip = 4 \<Longrightarrow> to4 ip = Some ip"
  by (simp add: to4_def)

lemma to4_mapped [simp]: "length ip = 4 \<Longrightarrow> to4 (v4_prefix @ ip) = Some ip"
  by (simp add: to4_def)

lemma to4_length: "to4 ip = Some b \<Longrightarrow> length b = 4"
  by (auto simp: to4_def split: if_splits)

section \<open>Parsing addresses\<close>

definition is_hex :: "char \<Rightarrow> bool" where
  "is_hex c = (between 48 57 c \<or> between 97 102 c \<or> between 65 70 c)"

definition hex_digit :: "char \<Rightarrow> nat" where
  "hex_digit c = (if between 48 57 c then byte c - 48
                  else if between 97 102 c then byte c - 87
                  else if between 65 70 c then byte c - 55 else 0)"

definition hex_value :: "string \<Rightarrow> nat" where
  "hex_value s = foldl (\<lambda>n c. n * 16 + hex_digit c) 0 s"

definition v4_field :: "string \<Rightarrow> bool" where
  "v4_field p = (p \<noteq> [] \<and> list_all is_digit p \<and> (length p = 1 \<or> hd p \<noteq> CHR ''0'')
                 \<and> digits_value p \<le> 255)"

definition parse_v4 :: "string \<Rightarrow> ip option" where
  "parse_v4 s = (let ps = split_on CHR ''.'' s in
     if length ps = 4 \<and> list_all v4_field ps then Some (map (of_nat \<circ> digits_value) ps)
     else None)"

text \<open>
  The loop of \<open>netip.parseIPv6\<close>: the rest of the string, the bytes stored so far and the
  position of the ellipsis. It stops after sixteen bytes at the latest.
\<close>

function v6_loop :: "string \<Rightarrow> ip \<Rightarrow> nat option \<Rightarrow> (string \<times> ip \<times> nat option) option" where
  "v6_loop s bs ell =
    (if 16 \<le> length bs then Some (s, bs, ell)
     else let h = takeWhile is_hex s; rest = dropWhile is_hex s; v = hex_value h;
              bs' = bs @ [of_nat (v div 256), of_nat (v mod 256)]
       in if h = [] \<or> 4 < length h then None
          else (case rest of
             [] \<Rightarrow> Some ([], bs', ell)
           | c # r \<Rightarrow>
              if c = CHR ''.'' then
                (if ell = None \<and> length bs \<noteq> 12 \<or> 16 < length bs + 4 then None
                 else map_option (\<lambda>b. ([], bs @ b, ell)) (parse_v4 s))
              else if c \<noteq> CHR '':'' then None
              else (case r of
                 [] \<Rightarrow> None
               | c2 # r2 \<Rightarrow>
                  if c2 = CHR '':'' then
                    (if ell \<noteq> None then None
                     else if r2 = [] then Some ([], bs', Some (length bs'))
                     else v6_loop r2 bs' (Some (length bs')))
                  else v6_loop r bs' ell)))"
  by pat_completeness auto
termination
  by (relation "measure (\<lambda>(s, bs, ell). 16 - length bs)") auto

declare v6_loop.simps [simp del]

definition v6_finish :: "string \<times> ip \<times> nat option \<Rightarrow> ip option" where
  "v6_finish = (\<lambda>(s, bs, ell).
     if s \<noteq> [] then None
     else if length bs < 16 then
       map_option (\<lambda>e. take e bs @ replicate (16 - length bs) 0 @ drop e bs) ell
     else if length bs = 16 \<and> ell = None then Some bs else None)"

definition parse_v6_bytes :: "string \<Rightarrow> ip option" where
  "parse_v6_bytes s =
    (if has_prefix s ''::'' then
       (if drop 2 s = [] then Some (replicate 16 0)
        else Option.bind (v6_loop (drop 2 s) [] (Some 0)) v6_finish)
     else Option.bind (v6_loop s [] None) v6_finish)"

datatype addr = Addr4 ip | Addr6 ip string

definition parse_v6 :: "string \<Rightarrow> addr option" where
  "parse_v6 s =
    (let (a, zone, found) = cut s (CHR ''%'')
     in if found \<and> zone = [] then None
        else map_option (\<lambda>b. Addr6 b zone) (parse_v6_bytes a))"

text \<open>\<open>netip.ParseAddr\<close> decides the family by the first of the three characters.\<close>

definition parse_addr :: "string \<Rightarrow> addr option" where
  "parse_addr s =
    (case dropWhile (\<lambda>c. c \<noteq> CHR ''.'' \<and> c \<noteq> CHR '':'' \<and> c \<noteq> CHR ''%'') s of
       [] \<Rightarrow> None
     | c # _ \<Rightarrow> if c = CHR ''.'' then map_option Addr4 (parse_v4 s)
                else if c = CHR '':'' then parse_v6 s else None)"

text \<open>\<open>net.ParseIP\<close>: always the 16-byte form; zones are refused.\<close>

definition parse_ip :: "string \<Rightarrow> ip option" where
  "parse_ip s = (case parse_addr s of
     None \<Rightarrow> None
   | Some (Addr4 b) \<Rightarrow> Some (v4_prefix @ b)
   | Some (Addr6 b zone) \<Rightarrow> if zone = [] then Some b else None)"

lemma parse_v4_length: "parse_v4 s = Some b \<Longrightarrow> length b = 4"
  by (auto simp: parse_v4_def Let_def split: if_splits)

lemma v6_finish_length: "v6_finish r = Some b \<Longrightarrow> length b = 16"
  by (auto simp: v6_finish_def split: if_splits prod.splits)

lemma parse_v6_bytes_length: "parse_v6_bytes s = Some b \<Longrightarrow> length b = 16"
  by (auto simp: parse_v6_bytes_def v6_finish_length bind_eq_Some_conv split: if_splits)

lemma parse_ip_length: "parse_ip s = Some b \<Longrightarrow> length b = 16"
  by (auto simp: parse_ip_def parse_addr_def parse_v6_def
      dest: parse_v4_length parse_v6_bytes_length
      split: option.splits addr.splits list.splits if_splits prod.splits)

section \<open>Prefixes\<close>

record ipnet =
  net_ip :: ip
  net_mask :: ip

definition cidr_mask :: "nat \<Rightarrow> nat \<Rightarrow> ip" where
  "cidr_mask ones n =
    map (\<lambda>i. if 8 * i + 8 \<le> ones then 255 else if ones \<le> 8 * i then 0
              else of_nat (256 - 2 ^ (8 * i + 8 - ones))) [0..<n]"

lemma length_cidr_mask [simp]: "length (cidr_mask ones n) = n"
  by (simp add: cidr_mask_def)

definition mask_ip :: "ip \<Rightarrow> ip \<Rightarrow> ip" where
  "mask_ip ip m = map2 (AND) ip m"

text \<open>\<open>dtoi\<close> reads digits up to a bound that stays below any address length.\<close>

definition parse_prefix_len :: "string \<Rightarrow> nat option" where
  "parse_prefix_len s =
    (if s \<noteq> [] \<and> list_all is_digit s \<and> digits_value s < 0xFFFFFF then Some (digits_value s)
     else None)"

definition parse_cidr :: "string \<Rightarrow> ipnet option" where
  "parse_cidr s =
    (let (a, m, found) = cut s (CHR ''/'')
     in if \<not> found then None
        else (case (parse_addr a, parse_prefix_len m) of
           (Some (Addr4 b), Some n) \<Rightarrow>
             if n \<le> 32 then Some \<lparr>net_ip = mask_ip b (cidr_mask n 4), net_mask = cidr_mask n 4\<rparr>
             else None
         | (Some (Addr6 b zone), Some n) \<Rightarrow>
             if zone = [] \<and> n \<le> 128
             then Some \<lparr>net_ip = mask_ip b (cidr_mask n 16), net_mask = cidr_mask n 16\<rparr>
             else None
         | _ \<Rightarrow> None))"

text \<open>\<open>(*IPNet).Contains\<close>, after \<open>networkNumberAndMask\<close>.\<close>

definition number_and_mask :: "ipnet \<Rightarrow> (ip \<times> ip) option" where
  "number_and_mask n =
    (let ip = (case to4 (net_ip n) of Some b \<Rightarrow> b | None \<Rightarrow> net_ip n); m = net_mask n
     in if length ip \<noteq> 4 \<and> length ip \<noteq> 16 then None
        else if length m = 4 then (if length ip = 4 then Some (ip, m) else None)
        else if length m = 16 then Some (ip, if length ip = 4 then drop 12 m else m)
        else None)"

definition net_contains :: "ipnet \<Rightarrow> ip \<Rightarrow> bool" where
  "net_contains n ip =
    (let ip' = (case to4 ip of Some b \<Rightarrow> b | None \<Rightarrow> ip)
     in case number_and_mask n of
          None \<Rightarrow> ip' = []
        | Some (nn, m) \<Rightarrow> length ip' = length nn \<and> mask_ip nn m = mask_ip ip' m)"

lemma net_contains_mapped [simp]:
  "length ip = 4 \<Longrightarrow> net_contains n (v4_prefix @ ip) = net_contains n ip"
  by (simp add: net_contains_def)

section \<open>Host and port\<close>

datatype addr_err = MissingPort | TooManyColons | MissingBracket
  | UnexpectedOpen | UnexpectedClose

definition split_host_port :: "string \<Rightarrow> (addr_err, string \<times> string) result" where
  "split_host_port hp =
    (case last_index_byte hp (CHR '':'') of
       None \<Rightarrow> Inl MissingPort
     | Some i \<Rightarrow>
        let port = drop (Suc i) hp;
            finish = (\<lambda>host j k.
              if CHR ''['' \<in> set (drop j hp) then Inl UnexpectedOpen
              else if CHR '']'' \<in> set (drop k hp) then Inl UnexpectedClose
              else Inr (host, port))
        in if has_prefix hp ''['' then
             (case index_byte hp (CHR '']'') of
                None \<Rightarrow> Inl MissingBracket
              | Some e \<Rightarrow>
                 if Suc e = length hp then Inl MissingPort
                 else if Suc e = i then finish (take (e - 1) (drop 1 hp)) 1 (Suc e)
                 else if hp ! Suc e = CHR '':'' then Inl TooManyColons
                 else Inl MissingPort)
           else if CHR '':'' \<in> set (take i hp) then Inl TooManyColons
           else finish (take i hp) 0 0)"

definition join_host_port :: "string \<Rightarrow> string \<Rightarrow> string" where
  "join_host_port host port =
    (if CHR '':'' \<in> set host then ''['' @ host @ '']:'' @ port else host @ '':'' @ port)"

lemma split_join_host_port:
  assumes h: "CHR ''['' \<notin> set host" "CHR '']'' \<notin> set host"
    and p: "CHR '':'' \<notin> set port" "CHR ''['' \<notin> set port" "CHR '']'' \<notin> set port"
  shows "split_host_port (join_host_port host port) = Inr (host, port)"
proof (cases "CHR '':'' \<in> set host")
  case False
  have "last_index_byte (host @ CHR '':'' # port) (CHR '':'') = Some (length host)"
    by (rule last_index_byte_append [OF p(1)])
  moreover have "\<not> has_prefix (host @ CHR '':'' # port) ''[''"
    using h(1) by (cases host) auto
  ultimately show ?thesis using False h p by (simp add: join_host_port_def split_host_port_def)
next
  case True
  let ?hp = "''['' @ host @ '']:'' @ port"
  have "last_index_byte ((CHR ''['' # host @ '']'') @ CHR '':'' # port) (CHR '':'') = Some (length host + 2)"
    using last_index_byte_append [OF p(1), of "CHR ''['' # host @ '']''"] by simp
  then have 1: "last_index_byte ?hp (CHR '':'') = Some (length host + 2)" by simp
  have "index_byte ((CHR ''['' # host) @ CHR '']'' # '':'' @ port) (CHR '']'') = Some (Suc (length host))"
    using index_byte_append [of "CHR '']''" "CHR ''['' # host" "'':'' @ port"] h(2) by simp
  then have 2: "index_byte ?hp (CHR '']'') = Some (Suc (length host))" by simp
  show ?thesis using True h p 1 2 by (simp add: join_host_port_def split_host_port_def)
qed

lemmas [go_eval] = v4_prefix_def to4_def to16_def is_hex_def hex_digit_def hex_value_def
  v4_field_def parse_v4_def v6_loop.simps v6_finish_def parse_v6_bytes_def parse_v6_def
  parse_addr_def parse_ip_def cidr_mask_def mask_ip_def parse_prefix_len_def parse_cidr_def
  number_and_mask_def net_contains_def split_host_port_def join_host_port_def upt_rec

end
