(* ===== verification/Go_Url.thy ===== *)
theory Go_Url
  imports Go_Net
begin

text \<open>
  The part of Go's \<open>net/url\<close> the program uses: \<open>url.Parse\<close>, the accessors
  \<open>Hostname\<close>, \<open>Port\<close>, \<open>EscapedPath\<close> and \<open>RequestURI\<close>, and the printer \<open>String\<close>.
  The rules are those of the toolchain \<open>go.mod\<close> names (1.26): brackets only around a
  valid IPv6 address at the start of the host, and no second colon in the host of an
  http or https URL.
\<close>

datatype url_err = BadEscape string | BadHostChar | ControlByte | MissingScheme
  | ColonInFirstSegment | BadUserinfo | BadPort | BadBrackets | BadIPLiteral

datatype url_mode = EncodePath | EncodeHost | EncodeZone | EncodeUserPassword | EncodeFragment

record url =
  scheme :: string
  opaque :: string
  user :: "(string \<times> string option) option"
  host :: string
  path :: string
  raw_path :: string
  omit_host :: bool
  force_query :: bool
  raw_query :: string
  fragment :: string
  raw_fragment :: string

definition empty_url :: url where
  "empty_url = \<lparr>scheme = [], opaque = [], user = None, host = [], path = [], raw_path = [],
     omit_host = False, force_query = False, raw_query = [], fragment = [], raw_fragment = []\<rparr>"

section \<open>Percent encoding\<close>

definition is_alnum :: "char \<Rightarrow> bool" where
  "is_alnum c = (between 97 122 c \<or> between 65 90 c \<or> between 48 57 c)"

definition host_extra :: string where
  "host_extra = ''!$&()*+,;=:[]<>'' @ [char_of (39::nat), char_of (34::nat)]"

definition should_escape :: "char \<Rightarrow> url_mode \<Rightarrow> bool" where
  "should_escape c m =
    (if is_alnum c then False
     else if (m = EncodeHost \<or> m = EncodeZone) \<and> c \<in> set host_extra then False
     else if c \<in> set ''-_.~'' then False
     else if c \<in> set ''$&+,/:;=?@'' then
       (case m of EncodePath \<Rightarrow> c = CHR ''?''
        | EncodeUserPassword \<Rightarrow> c \<in> set ''@/?:''
        | EncodeFragment \<Rightarrow> False
        | _ \<Rightarrow> True)
     else if m = EncodeFragment \<and> c \<in> set ''!()*'' then False
     else True)"

text \<open>\<open>unescape\<close> checks the whole string first, then decodes it; one pass does both.\<close>

fun unescape :: "url_mode \<Rightarrow> string \<Rightarrow> (url_err, string) result" where
  "unescape m [] = Inr []"
| "unescape m (c # s) =
    (if c = CHR ''%'' then
       (case s of
          h # l # r \<Rightarrow>
            (let v = hex_digit h * 16 + hex_digit l; seq = [c, h, l] in
             if \<not> is_hex h \<or> \<not> is_hex l then Inl (BadEscape seq)
             else if m = EncodeHost \<and> hex_digit h < 8 \<and> seq \<noteq> ''%25'' then Inl (BadEscape seq)
             else if m = EncodeZone \<and> seq \<noteq> ''%25'' \<and> v \<noteq> 32
                     \<and> should_escape (char_of v) EncodeHost then Inl (BadEscape seq)
             else map_sum id ((#) (char_of v)) (unescape m r))
        | _ \<Rightarrow> Inl (BadEscape (c # s)))
     else if (m = EncodeHost \<or> m = EncodeZone) \<and> byte c < 128 \<and> should_escape c m
       then Inl BadHostChar
     else map_sum id ((#) c) (unescape m s))"

declare unescape.simps(2) [simp del]

definition hex_upper :: "nat \<Rightarrow> char" where
  "hex_upper n = (if n < 10 then char_of (48 + n) else char_of (55 + n))"

definition escape :: "url_mode \<Rightarrow> string \<Rightarrow> string" where
  "escape m s = concat (map (\<lambda>c.
     if should_escape c m then [CHR ''%'', hex_upper (byte c div 16), hex_upper (byte c mod 16)]
     else [c]) s)"

section \<open>Parsing\<close>

text \<open>\<open>getScheme\<close>: the scheme and the rest; no scheme is \<open>[]\<close>.\<close>

fun get_scheme_from :: "string \<Rightarrow> string \<Rightarrow> string \<Rightarrow> (url_err, string \<times> string) result" where
  "get_scheme_from raw acc [] = Inr ([], raw)"
| "get_scheme_from raw acc (c # s) =
    (if between 97 122 c \<or> between 65 90 c then get_scheme_from raw (c # acc) s
     else if is_digit c \<or> c \<in> set ''+-.'' then
       (if acc = [] then Inr ([], raw) else get_scheme_from raw (c # acc) s)
     else if c = CHR '':'' then
       (if acc = [] then Inl MissingScheme else Inr (rev acc, s))
     else Inr ([], raw))"

definition get_scheme :: "string \<Rightarrow> (url_err, string \<times> string) result" where
  "get_scheme raw = get_scheme_from raw [] raw"

definition valid_optional_port :: "string \<Rightarrow> bool" where
  "valid_optional_port p = (case p of [] \<Rightarrow> True | c # s \<Rightarrow> c = CHR '':'' \<and> list_all is_digit s)"

definition parse_bracketed :: "string \<Rightarrow> (url_err, string) result" where
  "parse_bracketed h =
    (case last_index_byte h (CHR '']'') of
       None \<Rightarrow> Inl BadBrackets
     | Some e \<Rightarrow>
        (let port = drop (Suc e) h; name = take (e - 1) (drop 1 h);
             un = (case index_of name ''%25'' of
                     Some z \<Rightarrow>
                       (case unescape EncodeHost (take z name) of Inl x \<Rightarrow> Inl x
                        | Inr a \<Rightarrow> map_sum id ((@) a) (unescape EncodeZone (drop z name)))
                   | None \<Rightarrow> unescape EncodeHost name)
         in if \<not> valid_optional_port port then Inl BadPort
            else (case un of Inl x \<Rightarrow> Inl x
              | Inr a \<Rightarrow> (case parse_addr a of
                   Some (Addr6 _ _) \<Rightarrow> Inr (''['' @ a @ '']'' @ port)
                 | _ \<Rightarrow> Inl BadIPLiteral))))"

definition parse_host :: "string \<Rightarrow> string \<Rightarrow> (url_err, string) result" where
  "parse_host sch h =
    (case last_index_byte h (CHR ''['') of
       Some 0 \<Rightarrow> parse_bracketed h
     | Some (Suc _) \<Rightarrow> Inl BadBrackets
     | None \<Rightarrow>
        (let strict = (sch = ''http'' \<or> sch = ''https'');
             colon = (if strict then index_byte h (CHR '':'') else last_index_byte h (CHR '':''))
         in (case colon of
               Some i \<Rightarrow> if valid_optional_port (drop i h) then unescape EncodeHost h
                         else Inl BadPort
             | None \<Rightarrow> unescape EncodeHost h)))"

definition valid_userinfo :: "string \<Rightarrow> bool" where
  "valid_userinfo s = list_all (\<lambda>c. is_alnum c \<or> c \<in> set ''-._:~!$&()*+,;=%@''
                                    \<or> byte c = 39) s"

definition parse_userinfo :: "string \<Rightarrow> (url_err, string \<times> string option) result" where
  "parse_userinfo s =
    (let (u, p, found) = cut s (CHR '':'') in
     if \<not> valid_userinfo s then Inl BadUserinfo
     else if found then
       (case unescape EncodeUserPassword u of Inl e \<Rightarrow> Inl e
        | Inr u' \<Rightarrow> map_sum id (\<lambda>p'. (u', Some p')) (unescape EncodeUserPassword p))
     else map_sum id (\<lambda>u'. (u', None)) (unescape EncodeUserPassword s))"

definition parse_authority ::
    "string \<Rightarrow> string \<Rightarrow> (url_err, (string \<times> string option) option \<times> string) result" where
  "parse_authority sch a =
    (case last_index_byte a (CHR ''@'') of
       None \<Rightarrow> map_sum id (\<lambda>h. (None, h)) (parse_host sch a)
     | Some i \<Rightarrow>
        (case parse_host sch (drop (Suc i) a) of Inl e \<Rightarrow> Inl e
         | Inr h \<Rightarrow> map_sum id (\<lambda>u. (Some u, h)) (parse_userinfo (take i a))))"

definition set_path :: "string \<Rightarrow> url \<Rightarrow> (url_err, url) result" where
  "set_path p u = map_sum id (\<lambda>q. u\<lparr>path := q,
      raw_path := (if escape EncodePath q = p then [] else p)\<rparr>) (unescape EncodePath p)"

text \<open>The part after the scheme and the query: authority and path.\<close>

definition parse_rest :: "url \<Rightarrow> string \<Rightarrow> (url_err, url) result" where
  "parse_rest u rest =
    (if \<not> has_prefix rest ''/'' \<and> scheme u \<noteq> [] then Inr (u\<lparr>opaque := rest\<rparr>)
     else if \<not> has_prefix rest ''/'' \<and> CHR '':'' \<in> set (fst (cut rest (CHR ''/'')))
       then Inl ColonInFirstSegment
     else if has_prefix rest ''//'' \<and> (scheme u \<noteq> [] \<or> \<not> has_prefix rest ''///'') then
       (let auth = takeWhile (\<lambda>c. c \<noteq> CHR ''/'') (drop 2 rest);
            p = dropWhile (\<lambda>c. c \<noteq> CHR ''/'') (drop 2 rest)
        in case parse_authority (scheme u) auth of
             Inl e \<Rightarrow> Inl e
           | Inr (ui, h) \<Rightarrow> set_path p (u\<lparr>user := ui, host := h\<rparr>))
     else set_path rest (u\<lparr>omit_host := scheme u \<noteq> [] \<and> has_prefix rest ''/''\<rparr>))"

definition split_query :: "string \<Rightarrow> string \<times> bool \<times> string" where
  "split_query s =
    (if has_suffix s ''?'' \<and> length (filter (\<lambda>c. c = CHR ''?'') s) = 1
     then (butlast s, True, [])
     else let (a, q, _) = cut s (CHR ''?'') in (a, False, q))"

definition parse_no_fragment :: "string \<Rightarrow> (url_err, url) result" where
  "parse_no_fragment raw =
    (if list_ex (\<lambda>c. byte c < 32 \<or> byte c = 127) raw then Inl ControlByte
     else if raw = ''*'' then Inr (empty_url\<lparr>path := ''*''\<rparr>)
     else (case get_scheme raw of
        Inl e \<Rightarrow> Inl e
      | Inr (sch, rest0) \<Rightarrow>
         (let (rest, force, query) = split_query rest0
          in parse_rest (empty_url\<lparr>scheme := map lower_char sch, force_query := force,
                                   raw_query := query\<rparr>) rest)))"

definition url_parse :: "string \<Rightarrow> (url_err, url) result" where
  "url_parse raw =
    (let (u, frag, _) = cut raw (CHR ''#'')
     in case parse_no_fragment u of
          Inl e \<Rightarrow> Inl e
        | Inr x \<Rightarrow>
            if frag = [] then Inr x
            else map_sum id (\<lambda>f. x\<lparr>fragment := f,
                    raw_fragment := (if escape EncodeFragment f = frag then [] else frag)\<rparr>)
                  (unescape EncodeFragment frag))"

section \<open>Accessors\<close>

definition split_host_port_of :: "string \<Rightarrow> string \<times> string" where
  "split_host_port_of hp =
    (let (h, p) = (case last_index_byte hp (CHR '':'') of
           Some i \<Rightarrow> if valid_optional_port (drop i hp) then (take i hp, drop (Suc i) hp)
                     else (hp, [])
         | None \<Rightarrow> (hp, []))
     in (if has_prefix h ''['' \<and> has_suffix h '']'' then butlast (tl h) else h, p))"

definition hostname :: "url \<Rightarrow> string" where
  "hostname u = fst (split_host_port_of (host u))"

definition url_port :: "url \<Rightarrow> string" where
  "url_port u = snd (split_host_port_of (host u))"

definition valid_encoded :: "url_mode \<Rightarrow> string \<Rightarrow> bool" where
  "valid_encoded m s =
    list_all (\<lambda>c. c \<in> set ''!$&()*+,;=:@[]%'' \<or> byte c = 39 \<or> \<not> should_escape c m) s"

definition escaped_path :: "url \<Rightarrow> string" where
  "escaped_path u =
    (if raw_path u \<noteq> [] \<and> valid_encoded EncodePath (raw_path u)
        \<and> unescape EncodePath (raw_path u) = Inr (path u) then raw_path u
     else if path u = ''*'' then ''*''
     else escape EncodePath (path u))"

definition escaped_fragment :: "url \<Rightarrow> string" where
  "escaped_fragment u =
    (if raw_fragment u \<noteq> [] \<and> valid_encoded EncodeFragment (raw_fragment u)
        \<and> unescape EncodeFragment (raw_fragment u) = Inr (fragment u)
     then raw_fragment u else escape EncodeFragment (fragment u))"

definition query_part :: "url \<Rightarrow> string" where
  "query_part u = (if force_query u \<or> raw_query u \<noteq> [] then CHR ''?'' # raw_query u else [])"

definition userinfo_string :: "string \<times> string option \<Rightarrow> string" where
  "userinfo_string ui = escape EncodeUserPassword (fst ui) @
     (case snd ui of None \<Rightarrow> [] | Some p \<Rightarrow> CHR '':'' # escape EncodeUserPassword p)"

definition url_string :: "url \<Rightarrow> string" where
  "url_string u =
    (let front = (if scheme u \<noteq> [] then scheme u @ '':'' else []);
         authority =
           (if scheme u = [] \<and> host u = [] \<and> user u = None then []
            else if omit_host u \<and> host u = [] \<and> user u = None then []
            else (if host u \<noteq> [] \<or> path u \<noteq> [] \<or> user u \<noteq> None then ''//'' else [])
                 @ (case user u of None \<Rightarrow> [] | Some ui \<Rightarrow> userinfo_string ui @ ''@'')
                 @ escape EncodeHost (host u));
         p = escaped_path u;
         slash = (if p \<noteq> [] \<and> \<not> has_prefix p ''/'' \<and> host u \<noteq> [] then ''/'' else []);
         before = front @ authority @ slash;
         dot = (if before = [] \<and> CHR '':'' \<in> set (fst (cut p (CHR ''/''))) then ''./'' else []);
         body = (if opaque u \<noteq> [] then front @ opaque u else before @ dot @ p)
     in body @ query_part u
        @ (if fragment u \<noteq> [] then CHR ''#'' # escaped_fragment u else []))"

definition request_uri :: "url \<Rightarrow> string" where
  "request_uri u =
    (let r = (if opaque u = [] then (if escaped_path u = [] then ''/'' else escaped_path u)
              else if has_prefix (opaque u) ''//'' then scheme u @ '':'' @ opaque u
              else opaque u)
     in r @ query_part u)"

lemmas [go_eval] = empty_url_def is_alnum_def host_extra_def should_escape_def unescape.simps(2)
  hex_upper_def escape_def get_scheme_def valid_optional_port_def parse_bracketed_def
  parse_host_def valid_userinfo_def parse_userinfo_def parse_authority_def set_path_def
  parse_rest_def split_query_def parse_no_fragment_def url_parse_def split_host_port_of_def
  hostname_def url_port_def valid_encoded_def escaped_path_def escaped_fragment_def
  query_part_def userinfo_string_def url_string_def request_uri_def

end
