(* ===== verification/Normalize.thy ===== *)
theory Normalize
  imports Go_Url "HOL-Library.Char_ord" "HOL-Library.List_Lexorder"
begin

text \<open>
  \<open>internal/normalize/normalize.go\<close>: host, URL, path and query normalisation, and the two
  syntactic host tests. Every function of the package is here under its own name. The
  lemmas show that the query sort sorts by key and keeps the parameters, that
  \<open>cleanPath\<close> leaves no dot segment and is idempotent, that the loop of \<open>Path\<close> ends in a
  path without doubled slashes, and where \<open>Host\<close> is the identity.
\<close>

section \<open>Host\<close>

definition Host :: "text_env \<Rightarrow> string \<Rightarrow> string" where
  "Host E h0 =
    (let h1 = trim_space h0;
         h2 = to_lower E h1;
         h3 = trim_suffix h2 ''.''
     in case idna_to_ascii E h3 of Some a \<Rightarrow> a | None \<Rightarrow> h3)"

text \<open>A host already in the form the package produces.\<close>

definition plain_host :: "text_env \<Rightarrow> string \<Rightarrow> bool" where
  "plain_host E h = (is_lower_ascii h \<and> no_outer_space h \<and> \<not> has_suffix h ''.''
     \<and> (idna_to_ascii E h = Some h \<or> idna_to_ascii E h = None))"

lemma Host_plain: "plain_host E h \<Longrightarrow> Host E h = h"
  by (auto simp: plain_host_def Host_def Let_def trim_space_id is_lower_ascii_ascii to_lower_id
      trim_suffix_id)

lemma Host_dot:
  assumes "plain_host E h" "h \<noteq> []"
  shows "Host E (h @ ''.'') = h"
proof -
  have low: "is_lower_ascii (h @ ''.'')"
    using assms by (simp add: plain_host_def is_lower_ascii_def byte_def)
  have "no_outer_space (h @ ''.'')"
    using assms by (auto simp: plain_host_def no_outer_space_def is_space_def byte_def)
  then have "trim_space (h @ ''.'') = h @ ''.''"
    by (intro trim_space_id is_lower_ascii_ascii low)
  moreover have "to_lower E (h @ ''.'') = h @ ''.''" by (rule to_lower_id [OF low])
  ultimately show ?thesis
    using assms by (auto simp: Host_def Let_def plain_host_def)
qed

text \<open>What the package documents of \<open>idna.ToASCII\<close> and the model relies on.\<close>

definition idna_documented :: "text_env \<Rightarrow> bool" where
  "idna_documented E =
    ((\<forall>s. is_lower_ascii s \<and> \<not> contains s ''xn--'' \<longrightarrow> idna_to_ascii E s = Some s)
     \<and> (\<forall>s t. idna_to_ascii E s = Some t \<longrightarrow> is_ascii t))"

lemma idna_documented_plain:
  "\<lbrakk> idna_documented E; is_lower_ascii h; no_outer_space h; \<not> has_suffix h ''.'';
     \<not> contains h ''xn--'' \<rbrakk> \<Longrightarrow> plain_host E h"
  by (auto simp: idna_documented_def plain_host_def)

section \<open>Path\<close>

lemma replace_all_shrinks:
  "length (replace_all s ''//'' ''/'') \<le> length s
   \<and> (contains s ''//'' \<longrightarrow> length (replace_all s ''//'' ''/'') < length s)"
proof (induction s "''//''" "''/''" rule: replace_all.induct)
  case (2 c s)
  show ?case
  proof (cases "has_prefix (c # s) ''//''")
    case True
    then obtain t where t: "c # s = ''//'' @ t" by (auto simp: has_prefix_iff)
    then have "length (replace_all t ''//'' ''/'') \<le> length t"
      using 2(1) True by auto
    then show ?thesis using t by auto
  next
    case False
    then show ?thesis using 2(2) by (auto simp: contains_def)
  qed
qed (simp add: contains_def)

text \<open>\<open>for strings.Contains(path, "//") { path = strings.ReplaceAll(path, "//", "/") }\<close>\<close>

function collapse :: "string \<Rightarrow> string" where
  "collapse s = (if contains s ''//'' then collapse (replace_all s ''//'' ''/'') else s)"
  by pat_completeness auto
termination
  by (relation "measure length") (use replace_all_shrinks in auto)

declare collapse.simps [simp del]

definition Path :: "string \<Rightarrow> string" where
  "Path p = (if p = [] then ''/''
     else collapse (if has_prefix p ''/'' then p else ''/'' @ p))"

lemma collapse_no_double: "\<not> contains (collapse s) ''//''"
proof (induction s rule: collapse.induct)
  case (1 s)
  then show ?case by (cases "contains s ''//''") (simp_all add: collapse.simps [of s])
qed

lemma collapse_id: "\<not> contains s ''//'' \<Longrightarrow> collapse s = s"
  by (simp add: collapse.simps [of s])

lemma replace_all_invariants:
  "filter (\<lambda>c. c \<noteq> CHR ''/'') (replace_all s ''//'' ''/'') = filter (\<lambda>c. c \<noteq> CHR ''/'') s
   \<and> (has_prefix s ''/'' \<longrightarrow> has_prefix (replace_all s ''//'' ''/'') ''/'')"
proof (induction s "''//''" "''/''" rule: replace_all.induct)
  case (2 c s)
  show ?case
  proof (cases "has_prefix (c # s) ''//''")
    case True
    then obtain t where "c # s = ''//'' @ t" by (auto simp: has_prefix_iff)
    then show ?thesis using 2(1) True by auto
  next
    case False
    then show ?thesis using 2(2) by auto
  qed
qed simp

lemma collapse_invariants:
  "filter (\<lambda>c. c \<noteq> CHR ''/'') (collapse s) = filter (\<lambda>c. c \<noteq> CHR ''/'') s
   \<and> (has_prefix s ''/'' \<longrightarrow> has_prefix (collapse s) ''/'')"
proof (induction s rule: collapse.induct)
  case (1 s)
  show ?case
  proof (cases "contains s ''//''")
    case True
    then show ?thesis using 1 replace_all_invariants [of s] by (simp add: collapse.simps [of s])
  next
    case False
    then show ?thesis by (simp add: collapse_id)
  qed
qed

section \<open>cleanPath\<close>

definition clean_step :: "string list \<Rightarrow> string \<Rightarrow> string list" where
  "clean_step cleaned seg =
    (if seg = [] \<or> seg = ''.'' then cleaned
     else if seg = ''..'' then butlast cleaned
     else cleaned @ [seg])"

definition clean_segments :: "string \<Rightarrow> string list" where
  "clean_segments p = foldl clean_step [] (split_on CHR ''/'' p)"

definition cleanPath :: "string \<Rightarrow> string" where
  "cleanPath p = (if p = [] then ''/'' else ''/'' @ join ''/'' (clean_segments p))"

definition proper_segment :: "string \<Rightarrow> bool" where
  "proper_segment seg = (seg \<noteq> [] \<and> seg \<noteq> ''.'' \<and> seg \<noteq> ''..'' \<and> CHR ''/'' \<notin> set seg)"

lemma clean_step_proper:
  assumes "\<forall>w\<in>set ws. proper_segment w" "CHR ''/'' \<notin> set seg"
  shows "\<forall>w\<in>set (clean_step ws seg). proper_segment w"
  using assms by (auto simp: clean_step_def proper_segment_def dest: in_set_butlastD)

lemma foldl_clean_proper:
  "\<forall>w\<in>set ws. proper_segment w \<Longrightarrow> \<forall>seg\<in>set segs. CHR ''/'' \<notin> set seg \<Longrightarrow>
   \<forall>w\<in>set (foldl clean_step ws segs). proper_segment w"
proof (induction segs arbitrary: ws)
  case (Cons seg segs)
  then have "\<forall>w\<in>set (clean_step ws seg). proper_segment w"
    by (intro clean_step_proper) auto
  then show ?case using Cons by simp
qed simp

lemma clean_segments_proper: "\<forall>w\<in>set (clean_segments p). proper_segment w"
  unfolding clean_segments_def
  by (intro foldl_clean_proper) (auto dest: split_on_no_sep)

lemma foldl_clean_id:
  "\<forall>w\<in>set segs. proper_segment w \<Longrightarrow> foldl clean_step ws segs = ws @ segs"
  by (induction segs arbitrary: ws) (auto simp: clean_step_def proper_segment_def)

lemma clean_segments_of_join:
  assumes "\<forall>w\<in>set ws. proper_segment w"
  shows "clean_segments (''/'' @ join ''/'' ws) = ws"
proof (cases "ws = []")
  case True
  then show ?thesis by (simp add: clean_segments_def clean_step_def)
next
  case False
  have "split_on CHR ''/'' (''/'' @ join ''/'' ws) = [] # ws"
    using False assms by (simp add: split_on_join proper_segment_def)
  then show ?thesis
    using foldl_clean_id [OF assms, of "[]"] by (simp add: clean_segments_def clean_step_def)
qed

lemma cleanPath_idem: "cleanPath (cleanPath p) = cleanPath p"
  using clean_segments_of_join [OF clean_segments_proper [of p]]
    clean_segments_of_join [of "[]"]
  by (simp add: cleanPath_def)

section \<open>sortQuery\<close>

definition getKey :: "string \<Rightarrow> string" where
  "getKey pair = (case index_byte pair (CHR ''='') of None \<Rightarrow> pair | Some i \<Rightarrow> take i pair)"

text \<open>The two nested loops; \<open>i\<close> and \<open>j\<close> are the loop variables of the source.\<close>

function sort_inner :: "nat \<Rightarrow> nat \<Rightarrow> string list \<Rightarrow> string list" where
  "sort_inner i j ps =
    (if j < length ps
     then sort_inner i (Suc j)
            (if getKey (ps ! i) > getKey (ps ! j) then ps[i := ps ! j, j := ps ! i] else ps)
     else ps)"
  by pat_completeness auto
termination
  by (relation "measure (\<lambda>(i, j, ps). length ps - j)") auto

declare sort_inner.simps [simp del]

lemma length_sort_inner [simp]: "length (sort_inner i j ps) = length ps"
  by (induction i j ps rule: sort_inner.induct) (subst sort_inner.simps, simp)

function sort_outer :: "nat \<Rightarrow> string list \<Rightarrow> string list" where
  "sort_outer i ps =
    (if i < length ps then sort_outer (Suc i) (sort_inner i (Suc i) ps) else ps)"
  by pat_completeness auto
termination
  by (relation "measure (\<lambda>(i, ps). length ps - i)") auto

declare sort_outer.simps [simp del]

definition sortQuery :: "string \<Rightarrow> string" where
  "sortQuery q = (if q = [] then [] else join ''&'' (sort_outer 0 (split_on CHR ''&'' q)))"

lemma sort_inner_perm [simp]:
  "i < length ps \<Longrightarrow> mset (sort_inner i j ps) = mset ps"
proof (induction i j ps rule: sort_inner.induct)
  case (1 i j ps)
  then show ?case
    by (subst sort_inner.simps) (auto simp: mset_swap list_update_swap)
qed

lemma sort_inner_prefix:
  "k < i \<Longrightarrow> i < j \<Longrightarrow> sort_inner i j ps ! k = ps ! k"
  by (induction i j ps rule: sort_inner.induct) (subst sort_inner.simps, simp)

text \<open>The element at \<open>i\<close> becomes a minimum of the positions from \<open>i\<close> on.\<close>

lemma sort_inner_min:
  assumes "i < j" "\<And>k. i < k \<Longrightarrow> k < j \<Longrightarrow> k < length ps \<Longrightarrow> getKey (ps ! i) \<le> getKey (ps ! k)"
    "i < k" "k < length ps"
  shows "getKey (sort_inner i j ps ! i) \<le> getKey (sort_inner i j ps ! k)"
  using assms
proof (induction i j ps rule: sort_inner.induct)
  case (1 i j ps)
  let ?ps' = "if getKey (ps ! i) > getKey (ps ! j) then ps[i := ps ! j, j := ps ! i] else ps"
  show ?case
  proof (cases "j < length ps")
    case True
    have "getKey (?ps' ! i) \<le> getKey (?ps' ! m)" if "i < m" "m < Suc j" "m < length ?ps'" for m
      using that 1(2) 1(3) [of m] True by (auto simp: nth_list_update less_Suc_eq)
    then show ?thesis
      using 1(1) [OF True] 1(2,4,5) True by (subst (1 2) sort_inner.simps) simp
  next
    case False
    then show ?thesis using 1(3) [of k] 1(4,5) by (subst (1 2) sort_inner.simps) simp
  qed
qed

lemma sort_inner_from:
  "\<lbrakk> i < j; \<And>k. i \<le> k \<Longrightarrow> k < length ps \<Longrightarrow> P (ps ! k); i \<le> m; m < length ps \<rbrakk>
   \<Longrightarrow> P (sort_inner i j ps ! m)"
proof (induction i j ps rule: sort_inner.induct)
  case (1 i j ps)
  show ?case
  proof (cases "j < length ps")
    case True
    let ?ps' = "if getKey (ps ! i) > getKey (ps ! j) then ps[i := ps ! j, j := ps ! i] else ps"
    have "P (?ps' ! k)" if "i \<le> k" "k < length ?ps'" for k
      using that 1(2) 1(3) [of k] 1(3) [of i] 1(3) [of j] True
      by (cases "getKey (ps ! j) < getKey (ps ! i)") (simp_all add: nth_list_update)
    then show ?thesis using 1(1) [OF True] 1(2,4,5) True by (subst sort_inner.simps) simp
  next
    case False
    then show ?thesis using 1(3-5) by (subst sort_inner.simps) simp
  qed
qed

definition prefix_sorted :: "nat \<Rightarrow> string list \<Rightarrow> bool" where
  "prefix_sorted i ps = (\<forall>a b. a < i \<longrightarrow> a < b \<longrightarrow> b < length ps
     \<longrightarrow> getKey (ps ! a) \<le> getKey (ps ! b))"

lemma prefix_sorted_step:
  assumes "prefix_sorted i ps" "i < length ps"
  shows "prefix_sorted (Suc i) (sort_inner i (Suc i) ps)"
  unfolding prefix_sorted_def
proof (intro allI impI)
  fix a b
  let ?r = "sort_inner i (Suc i) ps"
  assume ab: "a < Suc i" "a < b" "b < length ?r"
  show "getKey (?r ! a) \<le> getKey (?r ! b)"
  proof (cases "a = i")
    case True
    then show ?thesis using ab sort_inner_min [of i "Suc i" ps b] by simp
  next
    case False
    then have a: "a < i" using ab by simp
    then have ra: "?r ! a = ps ! a" by (intro sort_inner_prefix) auto
    have "getKey (ps ! a) \<le> getKey (?r ! b)"
    proof (cases "b < i")
      case True
      then show ?thesis using assms ab a by (simp add: sort_inner_prefix prefix_sorted_def)
    next
      case False
      then show ?thesis
        using assms ab a
        by (intro sort_inner_from [where P = "\<lambda>x. getKey (ps ! a) \<le> getKey x"])
          (auto simp: prefix_sorted_def)
    qed
    then show ?thesis using ra by simp
  qed
qed

lemma sort_outer_perm: "mset (sort_outer i ps) = mset ps"
  by (induction i ps rule: sort_outer.induct) (subst sort_outer.simps, simp)

lemma sort_outer_sorted:
  "prefix_sorted i ps \<Longrightarrow> sorted (map getKey (sort_outer i ps))"
proof (induction i ps rule: sort_outer.induct)
  case (1 i ps)
  show ?case
  proof (cases "i < length ps")
    case True
    then show ?thesis using 1 prefix_sorted_step by (subst sort_outer.simps) simp
  next
    case False
    then show ?thesis using 1(2)
      by (subst sort_outer.simps) (auto simp: sorted_iff_nth_mono_less prefix_sorted_def)
  qed
qed

lemma split_sortQuery:
  assumes "q \<noteq> []"
  shows "split_on CHR ''&'' (sortQuery q) = sort_outer 0 (split_on CHR ''&'' q)"
proof -
  let ?s = "sort_outer 0 (split_on CHR ''&'' q)"
  have m: "mset ?s = mset (split_on CHR ''&'' q)" by (rule sort_outer_perm)
  then have "set ?s = set (split_on CHR ''&'' q)" by (metis set_mset_mset)
  moreover have "?s \<noteq> []" using m by (metis mset_zero_iff split_on_ne)
  ultimately show ?thesis
    using assms by (auto simp: sortQuery_def split_on_no_sep split_on_join)
qed

section \<open>URL and URLHost\<close>

text \<open>The stages of the function body, in its order.\<close>

definition lower_parts :: "text_env \<Rightarrow> url \<Rightarrow> url" where
  "lower_parts E u = u\<lparr> scheme := to_lower E (scheme u), host := Host E (host u) \<rparr>"

definition drop_default_port :: "url \<Rightarrow> url" where
  "drop_default_port u =
    (if (scheme u = ''http'' \<and> url_port u = ''80'') \<or> (scheme u = ''https'' \<and> url_port u = ''443'')
     then u\<lparr> host := hostname u \<rparr> else u)"

definition drop_fragment :: "url \<Rightarrow> url" where
  "drop_fragment u = u\<lparr> fragment := [] \<rparr>"

definition sort_params :: "url \<Rightarrow> url" where
  "sort_params u = (if raw_query u \<noteq> [] then u\<lparr> raw_query := sortQuery (raw_query u) \<rparr> else u)"

definition clean_path :: "url \<Rightarrow> url" where
  "clean_path u = u\<lparr> path := cleanPath (path u) \<rparr>"

definition URL :: "text_env \<Rightarrow> string \<Rightarrow> (url_err, string) result" where
  "URL E raw = (case url_parse raw of Inl e \<Rightarrow> Inl e
    | Inr u \<Rightarrow>
      Inr (url_string (clean_path (sort_params (drop_fragment (drop_default_port (lower_parts E u)))))))"

definition URLHost :: "text_env \<Rightarrow> string \<Rightarrow> string" where
  "URLHost E raw = (case url_parse raw of Inl _ \<Rightarrow> [] | Inr u \<Rightarrow> Host E (hostname u))"

section \<open>Syntactic host tests\<close>

text \<open>Above 127 the two Unicode tests of the source do not matter: such a rune passes.\<close>

definition label_rune :: "nat \<Rightarrow> bool" where
  "label_rune r = ((65 \<le> r \<and> r \<le> 90) \<or> (97 \<le> r \<and> r \<le> 122) \<or> (48 \<le> r \<and> r \<le> 57)
     \<or> r = 45 \<or> r > 127)"

definition IsValidHostname :: "string \<Rightarrow> bool" where
  "IsValidHostname h =
    (if h = [] then False else if length h > 253 then False
     else list_all (\<lambda>label.
       \<not> (label = [] \<or> length label > 63)
       \<and> \<not> (has_prefix label ''-'' \<or> has_suffix label ''-'')
       \<and> list_all label_rune (runes label)) (split_on CHR ''.'' h))"

definition IsIPLiteral :: "string \<Rightarrow> bool" where
  "IsIPLiteral s0 =
    (let s = trim_set s0 ''[]'';
         hasColon = contains s '':'';
         hasDot = contains s ''.''
     in if hasDot \<and> \<not> hasColon
        then (let parts = split_on CHR ''.'' s
              in if length parts \<noteq> 4 then False
                 else list_all (\<lambda>p. list_all (\<lambda>r. 48 \<le> r \<and> r \<le> 57) (runes p)) parts)
        else if hasColon
        then list_all (\<lambda>r. (48 \<le> r \<and> r \<le> 57) \<or> (97 \<le> r \<and> r \<le> 102) \<or> (65 \<le> r \<and> r \<le> 70)
               \<or> r = 58 \<or> r = 46) (runes s)
        else False)"

lemmas [go_eval] = Host_def collapse.simps Path_def clean_step_def clean_segments_def cleanPath_def
  getKey_def sort_inner.simps sort_outer.simps sortQuery_def lower_parts_def
  drop_default_port_def drop_fragment_def sort_params_def clean_path_def URL_def URLHost_def label_rune_def
  IsValidHostname_def IsIPLiteral_def

section \<open>Properties\<close>

text \<open>
  query normalisation sorts the parameters by key and keeps every one of them.
\<close>

theorem sortQuery_sorts:
  assumes "q \<noteq> []"
  shows "sorted (map getKey (split_on CHR ''&'' (sortQuery q)))
    \<and> mset (split_on CHR ''&'' (sortQuery q)) = mset (split_on CHR ''&'' q)"
  using split_sortQuery [OF assms] sort_outer_perm [of 0 "split_on CHR ''&'' q"]
    sort_outer_sorted [of 0 "split_on CHR ''&'' q"]
  by (simp add: prefix_sorted_def)

theorem sortQuery_sorts_witness:
  "sortQuery ''b=1&a=2'' = ''a=2&b=1''
   \<and> sorted (map getKey (split_on CHR ''&'' (sortQuery ''b=1&a=2'')))"
  using sortQuery_sorts [of "''b=1&a=2''"] by (simp add: go_eval)

text \<open>
  a cleaned path is a slash and segments that are neither empty nor dot segments, and
  cleaning it again changes nothing.
\<close>

theorem cleanPath_canonical:
  "(\<exists>ws. cleanPath p = ''/'' @ join ''/'' ws \<and> list_all proper_segment ws)
   \<and> cleanPath (cleanPath p) = cleanPath p"
proof -
  have "cleanPath p = ''/'' @ join ''/'' (if p = [] then [] else clean_segments p)"
    by (simp add: cleanPath_def)
  moreover have "list_all proper_segment (if p = [] then [] else clean_segments p)"
    by (simp add: list_all_iff clean_segments_proper)
  ultimately show ?thesis using cleanPath_idem by metis
qed

lemma Path_id: "has_prefix p ''/'' \<Longrightarrow> \<not> contains p ''//'' \<Longrightarrow> Path p = p"
  by (cases p) (simp_all add: Path_def collapse_id)

text \<open>
  the loop that collapses slashes ends, in a rooted path without doubled slashes that
  has the same other characters, and a second pass changes nothing.
\<close>

theorem Path_collapsed:
  "has_prefix (Path p) ''/'' \<and> \<not> contains (Path p) ''//'' \<and> Path (Path p) = Path p
   \<and> filter (\<lambda>c. c \<noteq> CHR ''/'') (Path p) = filter (\<lambda>c. c \<noteq> CHR ''/'') p"
proof -
  have pre: "has_prefix (Path p) ''/''"
    using collapse_invariants has_prefix_append [of "''/''" p] by (auto simp: Path_def)
  moreover have nd: "\<not> contains (Path p) ''//''"
    using collapse_no_double by (auto simp: Path_def contains_iff)
  moreover have "Path (Path p) = Path p"
    using pre nd by (rule Path_id)
  moreover have "filter (\<lambda>c. c \<noteq> CHR ''/'') (Path p) = filter (\<lambda>c. c \<noteq> CHR ''/'') p"
    using collapse_invariants by (auto simp: Path_def)
  ultimately show ?thesis by blast
qed

text \<open>
  a host in normal form is left as it is, and with a trailing dot it normalises to the
  form without.
\<close>

theorem Host_normalises:
  assumes "plain_host E h"
  shows "Host E h = h \<and> (h \<noteq> [] \<longrightarrow> Host E (h @ ''.'') = h)"
  using Host_plain [OF assms] Host_dot [OF assms] by simp

theorem Host_normalises_witness: "Host ascii_env ''a.io'' = ''a.io'' \<and> Host ascii_env ''a.io.'' = ''a.io''"
  using Host_normalises [of ascii_env "''a.io''"]
  by (simp add: plain_host_def go_eval ascii_env_def)

theorem Host_twice_differs:
  "\<exists>h. Host ascii_env (Host ascii_env h) \<noteq> Host ascii_env h"
  by (rule exI [of _ "''a.io..''"]) (simp add: go_eval ascii_env_def)

end
