(* ===== verification/Config.thy ===== *)
theory Config
  imports Go_Net Go_Url
begin

text \<open>
  \<open>internal/config/config.go\<close>: the configuration records with their fields, and the
  validators with the order of their checks. An \<open>error\<close> result is \<open>Some e\<close>; the
  constructors of \<open>rule_err\<close> and \<open>config_err\<close> are the messages of the source with their
  arguments. \<open>yaml.Unmarshal\<close> is third-party code and an argument of \<open>Load\<close>. The lemmas
  characterise the accepted configurations without the loops.
\<close>

section \<open>Records\<close>

record LLMConfig =
  Provider :: string
  LLMModel :: string
  APIKeyEnv :: string
  BaseURL :: string

record KillSwitchConfig =
  KSEnabled :: bool
  KSActivatedBy :: string
  KSActivatedAt :: string

record DefaultsConfig =
  DefRequestsPerSecondPerHost :: int
  DefMaxConcurrency :: int
  DefMaxResponseBytes :: int
  DefAllowedSchemes :: "string list"
  DefAllowedPorts :: "int list"
  DefDryRun :: bool

record AuditConfig =
  AuditEnabled :: bool
  RetainDays :: int
  RedactSecrets :: bool

record DatabaseConfig =
  ConnString :: string
  DBEnabled :: bool
  MaxConns :: int

record GlobalVPNConfig =
  VPNEnabled :: bool
  VPNCountry :: string
  VPNServer :: string
  WGConfigPath :: string
  VPNContainerName :: string
  VPNContainerImage :: string
  VPNKillSwitch :: bool
  PodmanBinary :: string

record ToolsConfig =
  BBOTPath :: string
  NucleiPath :: string
  TemplateDir :: string

record SandboxConfig =
  MaxFileSize :: int
  MaxArchiveDepth :: int
  MaxDecompressRatio :: rat
  TimeoutSeconds :: int

record GlobalConfig =
  GKillSwitch :: KillSwitchConfig
  Defaults :: DefaultsConfig
  GAudit :: AuditConfig
  Database :: DatabaseConfig
  GVPN :: GlobalVPNConfig
  Sandbox :: SandboxConfig
  LLM :: LLMConfig
  Tools :: ToolsConfig
  LogLevel :: string
  LogFormat :: string

record NetworkPolicyConfig =
  VPNPolicy :: string
  StableSourceIPRequired :: bool

record LimitsConfig =
  RequestsPerSecondPerHost :: int
  MaxConcurrency :: int
  MaxResponseBytes :: int
  AllowedSchemes :: "string list"
  AllowedPorts :: "int list"
  MaxRequestsPerJob :: int
  MaxCrawlDepth :: int

record ScopeRule =
  RuleType :: string
  RuleValue :: string
  RuleHost :: string
  IncludeApex :: bool

record ScopeConfig =
  Include :: "ScopeRule list"
  Exclude :: "ScopeRule list"

record RestrictionsConfig =
  AutomatedScanning :: string
  HistoricalURLCollection :: string
  SubdomainEnumeration :: string
  Notes :: string

record ProgramConfig =
  PID :: string
  PName :: string
  AuthorizationRef :: string
  ActiveTestingEnabled :: bool
  PKillSwitch :: KillSwitchConfig
  NetworkPolicy :: NetworkPolicyConfig
  Limits :: LimitsConfig
  PScope :: ScopeConfig
  Restrictions :: RestrictionsConfig
  PStatus :: string

record Config =
  Programs :: "ProgramConfig list"
  Global :: GlobalConfig

section \<open>Errors\<close>

datatype rule_err =
    HostEmpty
  | HostIsIP string
  | HostHasScheme string
  | HostHasPort string
  | HostInvalid string url_err
  | WildcardStart
  | PrefixValueRequired
  | PrefixNoSlash
  | InvalidCIDR string
  | UnknownRuleType string

datatype rule_list = InInclude | InExclude

datatype config_err =
    RpsRange int
  | ConcurrencyRange int
  | ResponseBytesRange int
  | UnsupportedScheme string
  | InvalidPortNumber int
  | BadLogLevel
  | WGPathRequired
  | MaxConnsRange int
  | AuthorizationRequired
  | BadVPNPolicy string
  | CrawlDepthRange int
  | NoIncludeRule
  | RuleError rule_list nat rule_err
  | IDRequired nat
  | DuplicateID nat string
  | InProgram string config_err
  | VPNRequiredButDisabled string
  | VPNProhibitedButEnabled string
  | InGlobal config_err

section \<open>Scope rules\<close>

definition validateHost :: "string \<Rightarrow> rule_err option" where
  "validateHost h =
    (if h = [] then Some HostEmpty
     else if parse_ip h \<noteq> None then Some (HostIsIP h)
     else if contains h ''://'' then Some (HostHasScheme h)
     else if \<not> is_err (split_host_port h) then Some (HostHasPort h)
     else (case url_parse (''//'' @ h) of Inl e \<Rightarrow> Some (HostInvalid h e) | Inr _ \<Rightarrow> None))"

definition validateWildcardHost :: "string \<Rightarrow> rule_err option" where
  "validateWildcardHost h =
    (if \<not> has_prefix h ''*.'' then Some WildcardStart else validateHost (drop 2 h))"

definition validateCIDR :: "string \<Rightarrow> rule_err option" where
  "validateCIDR cidr = (case parse_cidr cidr of None \<Rightarrow> Some (InvalidCIDR cidr) | Some _ \<Rightarrow> None)"

definition validateScopeRule :: "ScopeRule \<Rightarrow> rule_err option" where
  "validateScopeRule r =
    (if RuleType r = ''exact_host'' then validateHost (RuleValue r)
     else if RuleType r = ''wildcard_host'' then validateWildcardHost (RuleValue r)
     else if RuleType r = ''path_prefix'' then
       (if RuleValue r = [] then Some PrefixValueRequired
        else if \<not> has_prefix (RuleValue r) ''/'' then Some PrefixNoSlash
        else validateHost (RuleHost r))
     else if RuleType r = ''cidr'' then validateCIDR (RuleValue r)
     else Some (UnknownRuleType (RuleType r)))"

fun rules_error :: "rule_list \<Rightarrow> nat \<Rightarrow> ScopeRule list \<Rightarrow> config_err option" where
  "rules_error l i [] = None"
| "rules_error l i (r # rs) =
    (case validateScopeRule r of Some e \<Rightarrow> Some (RuleError l i e)
     | None \<Rightarrow> rules_error l (Suc i) rs)"

lemma rules_error_None: "rules_error l i rs = None \<longleftrightarrow> (\<forall>r\<in>set rs. validateScopeRule r = None)"
  by (induction rs arbitrary: i) (auto split: option.splits)

section \<open>The validators\<close>

definition scheme_error :: "string \<Rightarrow> config_err option" where
  "scheme_error s = (if s \<noteq> ''http'' \<and> s \<noteq> ''https'' then Some (UnsupportedScheme s) else None)"

definition port_error :: "int \<Rightarrow> config_err option" where
  "port_error p = (if p < 1 \<or> p > 65535 then Some (InvalidPortNumber p) else None)"

text \<open>\<open>orelse e f\<close>: \<open>if err := e; err != nil { return err }\<close>, then \<open>f\<close>.\<close>

definition orelse :: "'e option \<Rightarrow> 'e option \<Rightarrow> 'e option" where
  "orelse e f = (case e of Some x \<Rightarrow> Some x | None \<Rightarrow> f)"

lemma orelse_None [simp]: "orelse e f = None \<longleftrightarrow> e = None \<and> f = None"
  by (simp add: orelse_def split: option.splits)

definition GlobalConfig_Validate :: "GlobalConfig \<Rightarrow> config_err option" where
  "GlobalConfig_Validate g =
    (let d = Defaults g in
     if DefRequestsPerSecondPerHost d < 1 \<or> DefRequestsPerSecondPerHost d > 50
     then Some (RpsRange (DefRequestsPerSecondPerHost d))
     else if DefMaxConcurrency d < 1 \<or> DefMaxConcurrency d > 20
     then Some (ConcurrencyRange (DefMaxConcurrency d))
     else if DefMaxResponseBytes d < 1024 \<or> DefMaxResponseBytes d > 50*1024*1024
     then Some (ResponseBytesRange (DefMaxResponseBytes d))
     else orelse (first_error scheme_error (DefAllowedSchemes d))
      (orelse (first_error port_error (DefAllowedPorts d))
       (if LogLevel g \<noteq> [] \<and> LogLevel g \<noteq> ''debug'' \<and> LogLevel g \<noteq> ''info''
          \<and> LogLevel g \<noteq> ''warn'' \<and> LogLevel g \<noteq> ''error''
        then Some BadLogLevel
        else if VPNEnabled (GVPN g) \<and> WGConfigPath (GVPN g) = [] then Some WGPathRequired
        else if MaxConns (Database g) < 0 \<or> MaxConns (Database g) > 100
        then Some (MaxConnsRange (MaxConns (Database g)))
        else None)))"

definition ProgramConfig_Validate :: "ProgramConfig \<Rightarrow> config_err option" where
  "ProgramConfig_Validate p =
    (let l = Limits p; vpn = VPNPolicy (NetworkPolicy p) in
     if AuthorizationRef p = [] then Some AuthorizationRequired
     else if vpn \<noteq> ''required'' \<and> vpn \<noteq> ''permitted'' \<and> vpn \<noteq> ''prohibited''
     then Some (BadVPNPolicy vpn)
     else if RequestsPerSecondPerHost l < 1 \<or> RequestsPerSecondPerHost l > 50
     then Some (RpsRange (RequestsPerSecondPerHost l))
     else if MaxConcurrency l < 1 \<or> MaxConcurrency l > 20
     then Some (ConcurrencyRange (MaxConcurrency l))
     else if MaxCrawlDepth l < 0 \<or> MaxCrawlDepth l > 20
     then Some (CrawlDepthRange (MaxCrawlDepth l))
     else orelse (first_error scheme_error (AllowedSchemes l))
      (orelse (first_error port_error (AllowedPorts l))
       (if length (Include (PScope p)) = 0 then Some NoIncludeRule
        else orelse (rules_error InInclude 0 (Include (PScope p)))
               (rules_error InExclude 0 (Exclude (PScope p))))))"

text \<open>The loop over the programs; \<open>seen\<close> holds the ids of the earlier ones.\<close>

fun programs_error ::
  "GlobalVPNConfig \<Rightarrow> nat \<Rightarrow> string list \<Rightarrow> ProgramConfig list \<Rightarrow> config_err option" where
  "programs_error vpn i seen [] = None"
| "programs_error vpn i seen (prog # rest) =
    (if PID prog = [] then Some (IDRequired i)
     else if PID prog \<in> set seen then Some (DuplicateID i (PID prog))
     else (case ProgramConfig_Validate prog of
         Some e \<Rightarrow> Some (InProgram (PID prog) e)
       | None \<Rightarrow>
         if VPNPolicy (NetworkPolicy prog) = ''required'' \<and> \<not> VPNEnabled vpn
         then Some (VPNRequiredButDisabled (PID prog))
         else if VPNPolicy (NetworkPolicy prog) = ''prohibited'' \<and> VPNEnabled vpn
         then Some (VPNProhibitedButEnabled (PID prog))
         else programs_error vpn (Suc i) (PID prog # seen) rest))"

definition Config_Validate :: "Config \<Rightarrow> config_err option" where
  "Config_Validate c =
    (case GlobalConfig_Validate (Global c) of
       Some e \<Rightarrow> Some (InGlobal e)
     | None \<Rightarrow> programs_error (GVPN (Global c)) 0 [] (Programs c))"

definition Load :: "(string \<Rightarrow> ('e, Config) result) \<Rightarrow> string \<Rightarrow> ('e, Config) result" where
  "Load unmarshal data = (case unmarshal data of Inl e \<Rightarrow> Inl e | Inr cfg \<Rightarrow> Inr cfg)"

section \<open>What a valid configuration is\<close>

definition valid_rule :: "ScopeRule \<Rightarrow> bool" where
  "valid_rule r =
    (RuleType r = ''exact_host'' \<and> validateHost (RuleValue r) = None
     \<or> RuleType r = ''wildcard_host'' \<and> has_prefix (RuleValue r) ''*.''
         \<and> validateHost (drop 2 (RuleValue r)) = None
     \<or> RuleType r = ''path_prefix'' \<and> has_prefix (RuleValue r) ''/''
         \<and> validateHost (RuleHost r) = None
     \<or> RuleType r = ''cidr'' \<and> parse_cidr (RuleValue r) \<noteq> None)"

lemma validateScopeRule_iff: "validateScopeRule r = None \<longleftrightarrow> valid_rule r"
  by (auto simp: validateScopeRule_def valid_rule_def validateWildcardHost_def validateCIDR_def
      split: option.splits)

definition http_schemes :: "string list \<Rightarrow> bool" where
  "http_schemes ss = (set ss \<subseteq> {''http'', ''https''})"

definition port_range :: "int list \<Rightarrow> bool" where
  "port_range ps = (set ps \<subseteq> {1..65535})"

lemma schemes_ok: "first_error scheme_error ss = None \<longleftrightarrow> http_schemes ss"
  by (auto simp: first_error_None scheme_error_def http_schemes_def)

lemma ports_ok: "first_error port_error ps = None \<longleftrightarrow> port_range ps"
  by (auto simp: first_error_None port_error_def port_range_def)

definition valid_program :: "ProgramConfig \<Rightarrow> bool" where
  "valid_program p =
    (AuthorizationRef p \<noteq> []
     \<and> VPNPolicy (NetworkPolicy p) \<in> {''required'', ''permitted'', ''prohibited''}
     \<and> RequestsPerSecondPerHost (Limits p) \<in> {1..50}
     \<and> MaxConcurrency (Limits p) \<in> {1..20}
     \<and> MaxCrawlDepth (Limits p) \<in> {0..20}
     \<and> http_schemes (AllowedSchemes (Limits p)) \<and> port_range (AllowedPorts (Limits p))
     \<and> Include (PScope p) \<noteq> []
     \<and> list_all valid_rule (Include (PScope p)) \<and> list_all valid_rule (Exclude (PScope p)))"

definition valid_global :: "GlobalConfig \<Rightarrow> bool" where
  "valid_global g =
    (DefRequestsPerSecondPerHost (Defaults g) \<in> {1..50}
     \<and> DefMaxConcurrency (Defaults g) \<in> {1..20}
     \<and> DefMaxResponseBytes (Defaults g) \<in> {1024..52428800}
     \<and> http_schemes (DefAllowedSchemes (Defaults g)) \<and> port_range (DefAllowedPorts (Defaults g))
     \<and> LogLevel g \<in> {[], ''debug'', ''info'', ''warn'', ''error''}
     \<and> (WGConfigPath (GVPN g) = [] \<longrightarrow> \<not> VPNEnabled (GVPN g))
     \<and> MaxConns (Database g) \<in> {0..100})"

definition vpn_consistent :: "GlobalVPNConfig \<Rightarrow> ProgramConfig \<Rightarrow> bool" where
  "vpn_consistent vpn p =
    ((VPNPolicy (NetworkPolicy p) = ''required'' \<longrightarrow> VPNEnabled vpn)
     \<and> (VPNPolicy (NetworkPolicy p) = ''prohibited'' \<longrightarrow> \<not> VPNEnabled vpn))"

lemma ProgramConfig_Validate_iff: "ProgramConfig_Validate p = None \<longleftrightarrow> valid_program p"
  by (auto simp: ProgramConfig_Validate_def valid_program_def Let_def schemes_ok ports_ok
      rules_error_None validateScopeRule_iff list_all_iff)

lemma GlobalConfig_Validate_iff: "GlobalConfig_Validate g = None \<longleftrightarrow> valid_global g"
  by (auto simp: GlobalConfig_Validate_def valid_global_def Let_def schemes_ok ports_ok)

lemma programs_error_iff:
  "programs_error vpn i seen ps = None \<longleftrightarrow>
     distinct (map PID ps) \<and> set (map PID ps) \<inter> set seen = {} \<and> [] \<notin> set (map PID ps)
     \<and> list_all (\<lambda>p. valid_program p \<and> vpn_consistent vpn p) ps"
proof (induction vpn i seen ps rule: programs_error.induct)
  case (2 vpn i seen prog rest)
  show ?case
  proof (cases "PID prog \<noteq> [] \<and> PID prog \<notin> set seen \<and> valid_program prog
      \<and> vpn_consistent vpn prog")
    case True
    then show ?thesis
      using 2 ProgramConfig_Validate_iff [of prog] by (auto simp: vpn_consistent_def)
  next
    case False
    then show ?thesis
      using ProgramConfig_Validate_iff [of prog]
      by (auto simp: vpn_consistent_def split: option.splits)
  qed
qed simp

lemma Config_Validate_None:
  "Config_Validate c = None \<longleftrightarrow>
     valid_global (Global c) \<and> distinct (map PID (Programs c)) \<and> [] \<notin> set (map PID (Programs c))
     \<and> list_all (\<lambda>p. valid_program p \<and> vpn_consistent (GVPN (Global c)) p) (Programs c)"
  by (auto simp: Config_Validate_def programs_error_iff GlobalConfig_Validate_iff
      simp flip: not_None_eq split: option.splits)

text \<open>A validated exact host is not an address and carries no port.\<close>

lemma validateHost_None:
  "validateHost h = None \<Longrightarrow> h \<noteq> [] \<and> parse_ip h = None \<and> is_err (split_host_port h)"
  by (auto simp: validateHost_def split: if_splits)

lemmas [go_eval] = validateHost_def validateWildcardHost_def validateCIDR_def
  validateScopeRule_def scheme_error_def port_error_def orelse_def GlobalConfig_Validate_def
  ProgramConfig_Validate_def Config_Validate_def

section \<open>Properties\<close>

text \<open>
  C30: a configuration passes validation exactly when the global section is valid, program
  ids are present and unique, and every program is valid and consistent with the VPN
  setting.
\<close>

theorem Config_Validate_accepts:
  "Config_Validate c = None \<longleftrightarrow>
     valid_global (Global c) \<and> distinct (map PID (Programs c)) \<and> [] \<notin> set (map PID (Programs c))
     \<and> list_all (\<lambda>p. valid_program p \<and> vpn_consistent (GVPN (Global c)) p) (Programs c)"
  by (rule Config_Validate_None)

end
