(* ===== verification/Scope.thy ===== *)
theory Scope
  imports Normalize Config
begin

text \<open>
  \<open>internal/scope/scope.go\<close>: the scope engine. \<open>Engine\<close> and \<open>Decision\<close> are the records of
  the source, \<open>reason\<close> the messages with their arguments. The lemmas characterise the three
  decision functions without their loops, describe wildcard matching, and give the blocked
  address ranges in terms of the address bytes. The locale \<open>ip_filter\<close> is the contract of
  the two copies of \<open>isBlockedIP\<close> (here and in the proxy).
\<close>

section \<open>State and results\<close>

record Engine =
  programID :: string
  includeRules :: "ScopeRule list"
  excludeRules :: "ScopeRule list"

datatype reason =
    EmptyHost
  | ExcludedBy string string
  | IncludedBy string string
  | NoHostRule
  | InvalidURL url_err
  | SchemeNotAllowed string
  | InvalidPort string
  | PortNotAllowed int
  | PathExcluded string string
  | URLMatches
  | IPBlocked "ip option"
  | IPMatches string
  | IPNoMatch

record Decision =
  InScope :: bool
  Reason :: reason
  MatchedRule :: string

definition NewEngine :: "string \<Rightarrow> ScopeConfig \<Rightarrow> Engine" where
  "NewEngine pid cfg = \<lparr> programID = pid, includeRules = Include cfg, excludeRules = Exclude cfg \<rparr>"

definition IncludeRules :: "Engine \<Rightarrow> ScopeRule list" where
  "IncludeRules e = includeRules e"

definition ExcludeRules :: "Engine \<Rightarrow> ScopeRule list" where
  "ExcludeRules e = excludeRules e"

section \<open>Matching one rule\<close>

definition matchWildcard :: "text_env \<Rightarrow> string \<Rightarrow> string \<Rightarrow> bool \<Rightarrow> bool" where
  "matchWildcard E pattern0 host0 includeApex =
    (let pattern = Host E pattern0; h = Host E host0
     in if \<not> has_prefix pattern ''*.'' then False
        else if has_suffix h (drop 1 pattern) then True
        else if includeApex then equal_fold E h (drop 2 pattern)
        else False)"

definition matchHostRule :: "text_env \<Rightarrow> ScopeRule \<Rightarrow> string \<Rightarrow> bool" where
  "matchHostRule E rule h =
    (if RuleType rule = ''exact_host'' then equal_fold E h (Host E (RuleValue rule))
     else if RuleType rule = ''wildcard_host''
     then matchWildcard E (RuleValue rule) h (IncludeApex rule)
     else if RuleType rule = ''path_prefix'' then equal_fold E h (Host E (RuleHost rule))
     else False)"

section \<open>Hosts and URLs\<close>

text \<open>The first rule of a list, in order, that a test accepts.\<close>

fun first_rule :: "(ScopeRule \<Rightarrow> bool) \<Rightarrow> ScopeRule list \<Rightarrow> ScopeRule option" where
  "first_rule f [] = None"
| "first_rule f (r # rs) = (if f r then Some r else first_rule f rs)"

lemma first_rule_None [lists]: "first_rule f rs = None \<longleftrightarrow> (\<forall>r\<in>set rs. \<not> f r)"
  by (induction rs) auto

lemma first_rule_Some [lists]: "first_rule f rs = Some r \<Longrightarrow> r \<in> set rs \<and> f r"
  by (induction rs) (auto split: if_splits)

definition IsHostInScope :: "text_env \<Rightarrow> Engine \<Rightarrow> string \<Rightarrow> Decision" where
  "IsHostInScope E e host0 =
    (let h = Host E host0 in
     if h = [] then \<lparr> InScope = False, Reason = EmptyHost, MatchedRule = [] \<rparr>
     else (case first_rule (\<lambda>r. RuleType r \<noteq> ''path_prefix'' \<and> matchHostRule E r h) (excludeRules e) of
       Some r \<Rightarrow> \<lparr> InScope = False, Reason = ExcludedBy (RuleType r) (RuleValue r),
                   MatchedRule = RuleValue r \<rparr>
     | None \<Rightarrow>
       (case first_rule (\<lambda>r. matchHostRule E r h) (includeRules e) of
         Some r \<Rightarrow> \<lparr> InScope = True, Reason = IncludedBy (RuleType r) (RuleValue r),
                     MatchedRule = RuleValue r \<rparr>
       | None \<Rightarrow> \<lparr> InScope = False, Reason = NoHostRule, MatchedRule = [] \<rparr>)))"

text \<open>
  The port of a URL: the default of the scheme, or the digits of the port. \<open>url.Port\<close>
  returns digits only, on which \<open>Sscanf("%d")\<close> reads what \<open>atoi\<close> reads.
\<close>

definition url_port_number :: "url \<Rightarrow> int option" where
  "url_port_number u =
    (if url_port u = [] then Some (if scheme u = ''https'' then 443 else 80)
     else (case atoi (url_port u) of None \<Rightarrow> None
       | Some n \<Rightarrow> if n \<le> 0 \<or> n > 65535 then None else Some n))"

definition IsURLInScope ::
  "text_env \<Rightarrow> Engine \<Rightarrow> string \<Rightarrow> string list \<Rightarrow> int list \<Rightarrow> Decision" where
  "IsURLInScope E e rawURL allowedSchemes allowedPorts =
    (case url_parse rawURL of
       Inl err \<Rightarrow> \<lparr> InScope = False, Reason = InvalidURL err, MatchedRule = [] \<rparr>
     | Inr parsed \<Rightarrow>
       if scheme parsed \<notin> set allowedSchemes
       then \<lparr> InScope = False, Reason = SchemeNotAllowed (scheme parsed), MatchedRule = [] \<rparr>
       else (let hostDec = IsHostInScope E e (hostname parsed) in
         if \<not> InScope hostDec then hostDec
         else (case url_port_number parsed of
           None \<Rightarrow> \<lparr> InScope = False, Reason = InvalidPort (url_port parsed), MatchedRule = [] \<rparr>
         | Some portInt \<Rightarrow>
           if portInt \<notin> set allowedPorts
           then \<lparr> InScope = False, Reason = PortNotAllowed portInt, MatchedRule = [] \<rparr>
           else (case first_rule (\<lambda>r. (RuleType r = ''path_prefix''
                        \<and> matchHostRule E r (hostname parsed))
                        \<and> has_prefix (path parsed) (RuleValue r)) (excludeRules e) of
             Some r \<Rightarrow> \<lparr> InScope = False, Reason = PathExcluded (path parsed) (RuleValue r),
                         MatchedRule = RuleValue r \<rparr>
           | None \<Rightarrow> \<lparr> InScope = True, Reason = URLMatches,
                       MatchedRule = MatchedRule hostDec \<rparr>))))"

section \<open>Addresses\<close>

definition blockedCIDRs :: "string list" where
  "blockedCIDRs =
    [''127.0.0.0/8'', ''::1/128'', ''169.254.0.0/16'', ''fe80::/10'', ''fc00::/7'',
     ''224.0.0.0/4'', ''ff00::/8'', ''100.64.0.0/10'', ''10.0.0.0/8'', ''172.16.0.0/12'',
     ''192.168.0.0/16'', ''0.0.0.0/8'', ''240.0.0.0/4'', ''198.18.0.0/15'', ''192.0.2.0/24'',
     ''198.51.100.0/24'', ''203.0.113.0/24'', ''169.254.169.254/32'']"

definition in_cidr :: "ip \<Rightarrow> string \<Rightarrow> bool" where
  "in_cidr a cidr = (case parse_cidr cidr of None \<Rightarrow> False | Some n \<Rightarrow> net_contains n a)"

text \<open>A nil \<open>net.IP\<close> is \<open>None\<close>; \<open>To16\<close> of an address of another length is the empty list.\<close>

definition isBlockedIP :: "ip option \<Rightarrow> bool" where
  "isBlockedIP ip0 =
    (case ip0 of None \<Rightarrow> True
     | Some orig \<Rightarrow>
       (let a = (case to4 orig of Some b \<Rightarrow> b
                 | None \<Rightarrow> (case to16 orig of Some b \<Rightarrow> b | None \<Rightarrow> []))
        in list_ex (in_cidr a) blockedCIDRs))"

definition ip_in_cidr :: "ip option \<Rightarrow> string \<Rightarrow> bool" where
  "ip_in_cidr a cidr = in_cidr (case a of None \<Rightarrow> [] | Some b \<Rightarrow> b) cidr"

definition IsIPInScope :: "Engine \<Rightarrow> ip option \<Rightarrow> Decision" where
  "IsIPInScope e a =
    (if isBlockedIP a then \<lparr> InScope = False, Reason = IPBlocked a, MatchedRule = [] \<rparr>
     else (case first_rule (\<lambda>r. RuleType r = ''cidr'' \<and> ip_in_cidr a (RuleValue r)) (includeRules e) of
       Some r \<Rightarrow> \<lparr> InScope = True, Reason = IPMatches (RuleValue r), MatchedRule = RuleValue r \<rparr>
     | None \<Rightarrow> \<lparr> InScope = False, Reason = IPNoMatch, MatchedRule = [] \<rparr>))"

section \<open>Masks of one byte\<close>

unbundle bit_operations_syntax

lemma high_bits:
  fixes a b :: "'a::len word"
  shows "a AND NOT (mask n) = b AND NOT (mask n) \<longleftrightarrow> unat a div 2 ^ n = unat b div 2 ^ n"
proof -
  have "a AND NOT (mask n) = b AND NOT (mask n) \<longleftrightarrow> drop_bit n a = drop_bit n b"
    (is "?l = ?r")
  proof
    show "?r \<Longrightarrow> ?l"
    proof (rule bit_eqI)
      fix m assume r: ?r
      then have "bit (drop_bit n a) (m - n) = bit (drop_bit n b) (m - n)" by simp
      then show "bit (a AND NOT (mask n)) m = bit (b AND NOT (mask n)) m"
        by (cases "n \<le> m") (auto simp: bit_simps)
    qed
    show "?l \<Longrightarrow> ?r"
    proof (rule bit_eqI)
      fix m assume l: ?l
      then have "bit (a AND NOT (mask n)) (n + m) = bit (b AND NOT (mask n)) (n + m)" by simp
      then show "bit (drop_bit n a) m = bit (drop_bit n b) m"
        by (auto simp: bit_simps dest: bit_imp_le_length)
    qed
  qed
  also have "\<dots> \<longleftrightarrow> unat (drop_bit n a) = unat (drop_bit n b)" by (rule word_unat_eq_iff)
  also have "\<dots> \<longleftrightarrow> unat a div 2 ^ n = unat b div 2 ^ n" by (simp only: unat_drop_bit_eq) (simp only: drop_bit_eq_div)
  finally show ?thesis .
qed

lemma word8_high:
  fixes a :: "8 word"
  shows "m = - (2 ^ n) \<Longrightarrow> b AND m = b \<Longrightarrow> a AND m = b \<longleftrightarrow> unat a div 2 ^ n = unat b div 2 ^ n"
  using high_bits [of a n b] by (simp add: minus_exp_eq_not_mask)

lemma word8_masks:
  fixes a :: "8 word"
  shows "a AND 192 = 128 \<longleftrightarrow> 128 \<le> a \<and> a \<le> 191"
    "a AND 192 = 64 \<longleftrightarrow> 64 \<le> a \<and> a \<le> 127"
    "a AND 254 = 252 \<longleftrightarrow> 252 \<le> a \<and> a \<le> 253"
    "a AND 254 = 18 \<longleftrightarrow> 18 \<le> a \<and> a \<le> 19"
    "a AND 240 = 224 \<longleftrightarrow> 224 \<le> a \<and> a \<le> 239"
    "a AND 240 = 240 \<longleftrightarrow> 240 \<le> a"
    "a AND 240 = 16 \<longleftrightarrow> 16 \<le> a \<and> a \<le> 31"
    "a AND 255 = a"
proof -
  have eq_m1: "(255::8 word) = - 1" by simp
  have b: "unat a < 256" using unsigned_less [of a] by simp
  show "a AND 192 = 128 \<longleftrightarrow> 128 \<le> a \<and> a \<le> 191"
    "a AND 192 = 64 \<longleftrightarrow> 64 \<le> a \<and> a \<le> 127"
    by (subst word8_high [where n = 6]; simp add: word_le_nat_alt; arith)+
  show "a AND 254 = 252 \<longleftrightarrow> 252 \<le> a \<and> a \<le> 253"
    "a AND 254 = 18 \<longleftrightarrow> 18 \<le> a \<and> a \<le> 19"
    by (subst word8_high [where n = 1]; simp add: word_le_nat_alt; arith)+
  show "a AND 240 = 224 \<longleftrightarrow> 224 \<le> a \<and> a \<le> 239"
    "a AND 240 = 16 \<longleftrightarrow> 16 \<le> a \<and> a \<le> 31"
    by (subst word8_high [where n = 4]; simp add: word_le_nat_alt; arith)+
  show "a AND 240 = 240 \<longleftrightarrow> 240 \<le> a"
    using b by (subst word8_high [where n = 4]; simp add: word_le_nat_alt; arith)
  show "a AND 255 = a" by (subst eq_m1) simp
qed

section \<open>Which addresses are blocked\<close>

lemma blocked_nets:
  "map parse_cidr blockedCIDRs =
    map (\<lambda>(a, m). Some \<lparr>net_ip = a, net_mask = m\<rparr>)
      [([127, 0, 0, 0], [255, 0, 0, 0]),
       (replicate 15 0 @ [1], replicate 16 255),
       ([169, 254, 0, 0], [255, 255, 0, 0]),
       ([254, 128] @ replicate 14 0, [255, 192] @ replicate 14 0),
       (252 # replicate 15 0, 254 # replicate 15 0),
       ([224, 0, 0, 0], [240, 0, 0, 0]),
       (255 # replicate 15 0, 255 # replicate 15 0),
       ([100, 64, 0, 0], [255, 192, 0, 0]),
       ([10, 0, 0, 0], [255, 0, 0, 0]),
       ([172, 16, 0, 0], [255, 240, 0, 0]),
       ([192, 168, 0, 0], [255, 255, 0, 0]),
       ([0, 0, 0, 0], [255, 0, 0, 0]),
       ([240, 0, 0, 0], [240, 0, 0, 0]),
       ([198, 18, 0, 0], [255, 254, 0, 0]),
       ([192, 0, 2, 0], [255, 255, 255, 0]),
       ([198, 51, 100, 0], [255, 255, 255, 0]),
       ([203, 0, 113, 0], [255, 255, 255, 0]),
       ([169, 254, 169, 254], [255, 255, 255, 255])]"
  by (simp add: blockedCIDRs_def go_eval)

lemma list_ex_cidrs:
  "list_ex (in_cidr a) cs
   = list_ex (\<lambda>r. case r of None \<Rightarrow> False | Some n \<Rightarrow> net_contains n a) (map parse_cidr cs)"
  by (induction cs) (auto simp: in_cidr_def)

text \<open>In the order of the list; the metadata address lies in the link-local range.\<close>

definition blocked_v4 :: "8 word \<Rightarrow> 8 word \<Rightarrow> 8 word \<Rightarrow> bool" where
  "blocked_v4 a b c =
    (a = 127 \<or> (a = 169 \<and> b = 254) \<or> (224 \<le> a \<and> a \<le> 239)
     \<or> (a = 100 \<and> 64 \<le> b \<and> b \<le> 127) \<or> a = 10 \<or> (a = 172 \<and> 16 \<le> b \<and> b \<le> 31)
     \<or> (a = 192 \<and> b = 168) \<or> a = 0 \<or> 240 \<le> a \<or> (a = 198 \<and> 18 \<le> b \<and> b \<le> 19)
     \<or> (a = 192 \<and> b = 0 \<and> c = 2) \<or> (a = 198 \<and> b = 51 \<and> c = 100)
     \<or> (a = 203 \<and> b = 0 \<and> c = 113))"

lemma v4_blocked_list:
  "list_ex (in_cidr [a, b, c, d]) blockedCIDRs =
    (a = 127 \<or> (a = 169 \<and> b = 254) \<or> (224 \<le> a \<and> a \<le> 239)
     \<or> (a = 100 \<and> 64 \<le> b \<and> b \<le> 127) \<or> a = 10 \<or> (a = 172 \<and> 16 \<le> b \<and> b \<le> 31)
     \<or> (a = 192 \<and> b = 168) \<or> a = 0 \<or> 240 \<le> a \<or> (a = 198 \<and> 18 \<le> b \<and> b \<le> 19)
     \<or> (a = 192 \<and> b = 0 \<and> c = 2) \<or> (a = 198 \<and> b = 51 \<and> c = 100)
     \<or> (a = 203 \<and> b = 0 \<and> c = 113) \<or> (a = 169 \<and> b = 254 \<and> c = 169 \<and> d = 254))"
  unfolding list_ex_cidrs blocked_nets
  by (simp add: net_contains_def number_and_mask_def mask_ip_def to4_def v4_prefix_def
      word8_masks replicate_numeral_rec Let_def)

lemma v4_blocked: "list_ex (in_cidr [a, b, c, d]) blockedCIDRs = blocked_v4 a b c"
  unfolding v4_blocked_list blocked_v4_def by (cases "a = 169"; cases "b = 254"; simp)

definition blocked_v6 :: "ip \<Rightarrow> bool" where
  "blocked_v6 a =
    (a = replicate 15 0 @ [1] \<or> (a ! 0 = 254 \<and> 128 \<le> a ! 1 \<and> a ! 1 \<le> 191)
     \<or> a ! 0 \<in> {252, 253, 255})"

lemma mask_ip_ones: "length a = n \<Longrightarrow> mask_ip a (replicate n 255) = a"
  by (simp add: mask_ip_def zip_replicate2 word8_masks o_def)

lemma mask_ip_zeros: "length a = n \<Longrightarrow> mask_ip a (replicate n 0) = replicate n 0"
  by (simp add: mask_ip_def zip_replicate2 o_def map_replicate_const)

lemma mask_ip_Cons: "mask_ip (x # a) (y # m) = (x AND y) # mask_ip a m"
  by (simp add: mask_ip_def)

lemma net4_v6:
  "\<lbrakk> length a = 16; to4 a = None; length n = 4; length m = 4 \<rbrakk>
   \<Longrightarrow> \<not> net_contains \<lparr>net_ip = n, net_mask = m\<rparr> a"
  by (simp add: net_contains_def number_and_mask_def)

lemma net16_v6:
  "\<lbrakk> length a = 16; to4 a = None; length n = 16; to4 n = None; length m = 16 \<rbrakk>
   \<Longrightarrow> net_contains \<lparr>net_ip = n, net_mask = m\<rparr> a = (mask_ip n m = mask_ip a m)"
  by (simp add: net_contains_def number_and_mask_def)

lemma v6_nets:
  assumes "length a = 16" "to4 a = None"
  shows "net_contains \<lparr>net_ip = replicate 15 0 @ [1], net_mask = replicate 16 255\<rparr> a
      \<longleftrightarrow> a = replicate 15 0 @ [1]"
    "net_contains \<lparr>net_ip = [254, 128] @ replicate 14 0, net_mask = [255, 192] @ replicate 14 0\<rparr> a
      \<longleftrightarrow> a ! 0 = 254 \<and> 128 \<le> a ! 1 \<and> a ! 1 \<le> 191"
    "net_contains \<lparr>net_ip = 252 # replicate 15 0, net_mask = 254 # replicate 15 0\<rparr> a
      \<longleftrightarrow> a ! 0 \<in> {252, 253}"
    "net_contains \<lparr>net_ip = 255 # replicate 15 0, net_mask = 255 # replicate 15 0\<rparr> a
      \<longleftrightarrow> a ! 0 = 255"
proof -
  have no4: "to4 (x # replicate 15 0) = None" "to4 (x # y # replicate 14 0) = None"
    "to4 (replicate 15 0 @ [x]) = None" for x y
    by (simp_all add: to4_def v4_prefix_def replicate_numeral_rec)
  obtain x y r where a: "a = x # y # r" "length r = 14"
    using assms(1) by (auto simp: numeral_eq_Suc length_Suc_conv)
  have two: "x \<in> {252, 253} \<longleftrightarrow> 252 \<le> x \<and> x \<le> 253"
    by (auto simp: word_le_nat_alt word_unat_eq_iff)
  note net = net16_v6 [OF assms]
  show "net_contains \<lparr>net_ip = replicate 15 0 @ [1], net_mask = replicate 16 255\<rparr> a
      \<longleftrightarrow> a = replicate 15 0 @ [1]"
    using assms by (subst net) (auto simp: no4 mask_ip_ones)
  show "net_contains \<lparr>net_ip = [254, 128] @ replicate 14 0, net_mask = [255, 192] @ replicate 14 0\<rparr> a
      \<longleftrightarrow> a ! 0 = 254 \<and> 128 \<le> a ! 1 \<and> a ! 1 \<le> 191"
    using a by (subst net) (auto simp: no4 mask_ip_Cons mask_ip_zeros word8_masks)
  show "net_contains \<lparr>net_ip = 252 # replicate 15 0, net_mask = 254 # replicate 15 0\<rparr> a
      \<longleftrightarrow> a ! 0 \<in> {252, 253}"
    using a two by (subst net) (auto simp: no4 mask_ip_Cons mask_ip_zeros word8_masks)
  show "net_contains \<lparr>net_ip = 255 # replicate 15 0, net_mask = 255 # replicate 15 0\<rparr> a
      \<longleftrightarrow> a ! 0 = 255"
    using a by (subst net) (auto simp: no4 mask_ip_Cons mask_ip_zeros word8_masks)
qed

lemma v6_blocked:
  assumes "length a = 16" "to4 a = None"
  shows "list_ex (in_cidr a) blockedCIDRs = blocked_v6 a"
  unfolding list_ex_cidrs blocked_nets blocked_v6_def
  using assms by (simp add: net4_v6 v6_nets [OF assms, simplified])

lemma isBlockedIP_v4: "isBlockedIP (Some [a, b, c, d]) = blocked_v4 a b c"
  by (simp add: isBlockedIP_def v4_blocked)

lemma isBlockedIP_mapped:
  "length b = 4 \<Longrightarrow> isBlockedIP (Some (v4_prefix @ b)) = isBlockedIP (Some b)"
  by (simp add: isBlockedIP_def)

lemma isBlockedIP_v6:
  assumes "length a = 16" "to4 a = None"
  shows "isBlockedIP (Some a) = blocked_v6 a"
  using assms v6_blocked [OF assms] by (simp add: isBlockedIP_def to16_def)

section \<open>The contract of an address filter\<close>

text \<open>
  What the users of \<open>isBlockedIP\<close> rely on: a missing address is refused, an IPv4 address
  and its IPv6-mapped form are treated alike, and the ranges of the list are refused.
\<close>

locale ip_filter =
  fixes blocked :: "ip option \<Rightarrow> bool"
  assumes blocked_nil: "blocked None"
    and blocked_mapped: "length v = 4 \<Longrightarrow> blocked (Some (v4_prefix @ v)) = blocked (Some v)"
    and blocked_quad: "blocked (Some [a, b, c, d]) = blocked_v4 a b c"
begin

lemma blocked_loopback: "blocked (Some [127, b, c, d])" "blocked (Some (v4_prefix @ [127, b, c, d]))"
  by (simp_all add: blocked_mapped blocked_quad blocked_v4_def)

lemma blocked_metadata:
  "blocked (Some [169, 254, 169, 254])" "blocked (Some (v4_prefix @ [169, 254, 169, 254]))"
  by (simp_all add: blocked_mapped blocked_quad blocked_v4_def)

lemma blocked_private:
  "blocked (Some [10, b, c, d])" "blocked (Some [192, 168, c, d])"
  "16 \<le> b \<Longrightarrow> b \<le> 31 \<Longrightarrow> blocked (Some [172, b, c, d])"
  by (simp_all add: blocked_quad blocked_v4_def)

end

interpretation scope_ips: ip_filter isBlockedIP
  by unfold_locales (simp_all add: isBlockedIP_mapped isBlockedIP_v4, simp add: isBlockedIP_def)

section \<open>The decisions without their loops\<close>

definition host_excluded :: "text_env \<Rightarrow> Engine \<Rightarrow> string \<Rightarrow> bool" where
  "host_excluded E e h = (\<exists>r\<in>set (excludeRules e). RuleType r \<noteq> ''path_prefix'' \<and> matchHostRule E r h)"

definition host_included :: "text_env \<Rightarrow> Engine \<Rightarrow> string \<Rightarrow> bool" where
  "host_included E e h = (\<exists>r\<in>set (includeRules e). matchHostRule E r h)"

lemma IsHostInScope_InScope:
  "InScope (IsHostInScope E e h) \<longleftrightarrow>
     Host E h \<noteq> [] \<and> \<not> host_excluded E e (Host E h) \<and> host_included E e (Host E h)"
  by (auto simp: IsHostInScope_def Let_def host_excluded_def host_included_def first_rule_None
      split: option.splits dest: first_rule_Some)

lemma IsIPInScope_InScope:
  "InScope (IsIPInScope e a) \<longleftrightarrow>
     \<not> isBlockedIP a
     \<and> (\<exists>r\<in>set (includeRules e). RuleType r = ''cidr'' \<and> ip_in_cidr a (RuleValue r))"
  by (auto simp: IsIPInScope_def first_rule_None split: option.splits dest: first_rule_Some)

definition path_excluded :: "text_env \<Rightarrow> Engine \<Rightarrow> string \<Rightarrow> string \<Rightarrow> bool" where
  "path_excluded E e h p =
    (\<exists>r\<in>set (excludeRules e). RuleType r = ''path_prefix''
       \<and> equal_fold E h (Host E (RuleHost r)) \<and> has_prefix p (RuleValue r))"

lemma IsURLInScope_InScope:
  "InScope (IsURLInScope E e raw schemes ports) \<longleftrightarrow>
     (\<exists>u. url_parse raw = Inr u \<and> scheme u \<in> set schemes
        \<and> InScope (IsHostInScope E e (hostname u))
        \<and> (\<exists>p\<in>set ports. url_port_number u = Some p)
        \<and> \<not> path_excluded E e (hostname u) (path u))"
  by (auto simp: IsURLInScope_def Let_def path_excluded_def matchHostRule_def first_rule_None
      split: sum.splits option.splits dest: first_rule_Some)

lemma matchWildcard_plain:
  assumes "plain_host E (''*.'' @ d)" "plain_host E h"
  shows "matchWildcard E (''*.'' @ d) h apex \<longleftrightarrow>
    has_suffix h (CHR ''.'' # d) \<or> (apex \<and> equal_fold E h d)"
  using Host_plain [OF assms(1)] Host_plain [OF assms(2)] by (simp add: matchWildcard_def)

lemmas [go_eval] = matchWildcard_def matchHostRule_def IsHostInScope_def url_port_number_def
  IsURLInScope_def in_cidr_def blockedCIDRs_def isBlockedIP_def ip_in_cidr_def IsIPInScope_def

section \<open>Properties\<close>

theorem exact_exclusion_dots:
  "let e = \<lparr> programID = [],
        includeRules = [\<lparr> RuleType = ''wildcard_host'', RuleValue = ''*.io'', RuleHost = [], IncludeApex = False \<rparr>],
        excludeRules = [\<lparr> RuleType = ''exact_host'', RuleValue = ''a.io'', RuleHost = [], IncludeApex = False \<rparr>] \<rparr>
   in \<not> InScope (IsHostInScope ascii_env e ''a.io'') \<and> InScope (IsHostInScope ascii_env e ''a.io..'')"
  by (simp add: go_eval ascii_env_def)

text \<open>
  C16: a host is in scope exactly when its normal form is not empty, an include rule matches
  it, and no exclude rule other than a path prefix does: exclusion wins over inclusion.
\<close>

theorem host_scope_exact:
  "InScope (IsHostInScope E e h) \<longleftrightarrow>
     Host E h \<noteq> [] \<and> \<not> host_excluded E e (Host E h) \<and> host_included E e (Host E h)"
  by (rule IsHostInScope_InScope)

text \<open>
  C15: a URL is in scope exactly when it parses, its scheme and port are among the allowed
  ones, its host is in scope and no path exclusion of that host is a prefix of its path.
\<close>

theorem url_scope_exact:
  "InScope (IsURLInScope E e raw schemes ports) \<longleftrightarrow>
     (\<exists>u. url_parse raw = Inr u \<and> scheme u \<in> set schemes
        \<and> InScope (IsHostInScope E e (hostname u))
        \<and> (\<exists>p\<in>set ports. url_port_number u = Some p)
        \<and> \<not> path_excluded E e (hostname u) (path u))"
  by (rule IsURLInScope_InScope)

text \<open>
  the blocked IPv4 addresses are the stated byte ranges, the same for the IPv6-mapped
  form, and a missing address is blocked.
\<close>

theorem blocked_addresses:
  "isBlockedIP None \<and> isBlockedIP (Some [a, b, c, d]) = blocked_v4 a b c
   \<and> isBlockedIP (Some (v4_prefix @ [a, b, c, d])) = blocked_v4 a b c"
  using scope_ips.blocked_nil scope_ips.blocked_quad scope_ips.blocked_mapped [of "[a, b, c, d]"] by simp

text \<open>
  of the IPv6 addresses that are not IPv4-mapped, exactly loopback, fe80::/10, fc00::/7
  and ff00::/8 are blocked.
\<close>

theorem blocked_v6_addresses:
  assumes "length a = 16" "to4 a = None"
  shows "isBlockedIP (Some a) = blocked_v6 a"
  by (rule isBlockedIP_v6 [OF assms])

theorem blocked_v6_addresses_witness:
  "isBlockedIP (parse_ip ''fe80::1'') \<and> \<not> isBlockedIP (parse_ip ''2001:db8::1'')
   \<and> \<not> isBlockedIP (parse_ip ''::'')"
proof -
  let ?local = "[254, 128] @ replicate 13 0 @ [1]" and ?doc = "[32, 1, 13, 184] @ replicate 11 0 @ [1]"
  have "parse_ip ''fe80::1'' = Some ?local" "parse_ip ''2001:db8::1'' = Some ?doc"
    "parse_ip ''::'' = Some (replicate 16 0)"
    by (simp_all add: go_eval)
  moreover have "to4 ?local = None" "to4 ?doc = None" "to4 (replicate 16 0) = None"
    by (simp_all add: go_eval)
  then have "isBlockedIP (Some ?local) = blocked_v6 ?local" "isBlockedIP (Some ?doc) = blocked_v6 ?doc"
    "isBlockedIP (Some (replicate 16 0)) = blocked_v6 (replicate 16 0)"
    using blocked_v6_addresses by simp_all
  moreover have "blocked_v6 ?local" "\<not> blocked_v6 ?doc" "\<not> blocked_v6 (replicate 16 0)"
    by (simp_all add: blocked_v6_def go_eval)
  ultimately show ?thesis by (simp only: simp_thms)
qed

text \<open>
  on normalised names a wildcard matches exactly the names that end in a dot and its
  domain, and the domain itself only when the rule includes the apex.
\<close>

theorem wildcard_matches:
  assumes "plain_host E (''*.'' @ d)" "plain_host E h"
  shows "matchWildcard E (''*.'' @ d) h apex \<longleftrightarrow>
    has_suffix h (CHR ''.'' # d) \<or> (apex \<and> equal_fold E h d)"
  by (rule matchWildcard_plain [OF assms])

theorem wildcard_matches_witness:
  "matchWildcard ascii_env ''*.a.io'' ''x.a.io'' False \<and> \<not> matchWildcard ascii_env ''*.a.io'' ''a.io'' False
    \<and> \<not> matchWildcard ascii_env ''*.a.io'' ''ba.io'' True"
  using wildcard_matches [of ascii_env "''a.io''" "''x.a.io''" False]
    wildcard_matches [of ascii_env "''a.io''" "''a.io''" False]
    wildcard_matches [of ascii_env "''a.io''" "''ba.io''" True]
  by (simp add: plain_host_def go_eval ascii_env_def)

text \<open>
  an address is in scope exactly when it is not blocked and a cidr include rule
  contains it.
\<close>

theorem ip_scope_exact:
  "InScope (IsIPInScope e a) \<longleftrightarrow>
     \<not> isBlockedIP a
     \<and> (\<exists>r\<in>set (includeRules e). RuleType r = ''cidr'' \<and> ip_in_cidr a (RuleValue r))"
  by (rule IsIPInScope_InScope)

end
