(* ===== verification/Go_Float.thy ===== *)
theory Go_Float
  imports Prelude
begin

text \<open>
  Go's \<open>float64\<close> as the program uses it: a finite value is a rational number, and each
  operation is the exact one followed by \<open>f64\<close>, the rounding to the nearest binary64 value
  with ties to even (subnormals included). Overflow to infinity is not modelled: the values
  of the program stay far below it. The locale \<open>rounding\<close> is what the token bucket relies on.
\<close>

section \<open>The exponent of a positive rational\<close>

fun bit_len :: "nat \<Rightarrow> nat" where
  "bit_len n = (if n = 0 then 0 else Suc (bit_len (n div 2)))"

declare bit_len.simps [simp del]

lemma bit_len_bounds: "0 < n \<Longrightarrow> 0 < bit_len n \<and> 2 ^ (bit_len n - 1) \<le> n \<and> n < 2 ^ bit_len n"
proof (induction n rule: bit_len.induct)
  case (1 n)
  show ?case
  proof (cases "n = 1")
    case True
    have "bit_len 1 = 1" by (simp add: bit_len.simps)
    then show ?thesis using True by simp
  next
    case False
    then have *: "0 < n div 2" using 1(2) by simp
    let ?m = "bit_len (n div 2)"
    have l: "bit_len n = Suc ?m" using 1(2) by (subst bit_len.simps) simp
    have ih: "0 < ?m" "2 ^ (?m - 1) \<le> n div 2" "n div 2 < 2 ^ ?m" using 1 * by auto
    have "(2::nat) ^ ?m = 2 * 2 ^ (?m - 1)" using ih(1) by (cases ?m) auto
    then have "2 ^ ?m \<le> n" using ih(2) by linarith
    moreover have "n < 2 ^ Suc ?m" using ih(3) by simp
    ultimately show ?thesis using l by simp
  qed
qed

definition exponent :: "rat \<Rightarrow> int" where
  "exponent x =
    (let (n, d) = quotient_of x;
         k = int (bit_len (nat n)) - int (bit_len (nat d))
     in if 2 powi k \<le> x then k else k - 1)"

lemma powi_nat_le: "(2::rat) powi int n = of_nat (2 ^ n)"
  by simp

lemma exponent_bounds:
  assumes "0 < x"
  shows "2 powi exponent x \<le> x" "x < 2 powi (exponent x + 1)"
proof -
  obtain n d where q: "quotient_of x = (n, d)" by (cases "quotient_of x")
  have d: "0 < d" using quotient_of_denom_pos [OF q] .
  have x: "x = of_int n / of_int d" using quotient_of_div [OF q] .
  then have n: "0 < n" using assms d by (simp add: zero_less_divide_iff)
  let ?a = "bit_len (nat n)" and ?b = "bit_len (nat d)"
  let ?k = "int ?a - int ?b"
  have a: "0 < ?a" "2 ^ (?a - 1) \<le> nat n" "nat n < 2 ^ ?a"
    and b: "0 < ?b" "2 ^ (?b - 1) \<le> nat d" "nat d < 2 ^ ?b"
    using bit_len_bounds [of "nat n"] bit_len_bounds [of "nat d"] n d by auto
  have rn: "(of_int n :: rat) = of_nat (nat n)" and rd: "(of_int d :: rat) = of_nat (nat d)"
    using n d by simp_all
  have lo: "2 powi (int ?a - 1) \<le> (of_int n :: rat)" "(of_int n :: rat) < 2 powi int ?a"
    using a of_nat_le_iff [where 'a = rat, of "2 ^ (?a - 1)" "nat n"]
      of_nat_less_iff [where 'a = rat, of "nat n" "2 ^ ?a"]
    by (simp_all add: rn of_nat_diff flip: power_int_of_nat)
  have hi: "2 powi (int ?b - 1) \<le> (of_int d :: rat)" "(of_int d :: rat) < 2 powi int ?b"
    using b of_nat_le_iff [where 'a = rat, of "2 ^ (?b - 1)" "nat d"]
      of_nat_less_iff [where 'a = rat, of "nat d" "2 ^ ?b"]
    by (simp_all add: rd of_nat_diff flip: power_int_of_nat)
  have dp: "0 < (of_int d :: rat)" using d by simp
  have up: "x < 2 powi (?k + 1)"
  proof -
    have "x < 2 powi int ?a / of_int d"
      unfolding x using lo(2) dp by (intro divide_strict_right_mono)
    also have "\<dots> \<le> 2 powi int ?a / 2 powi (int ?b - 1)"
      using hi(1) dp by (intro divide_left_mono mult_pos_pos) auto
    also have "\<dots> = 2 powi (?k + 1)"
      by (subst power_int_diff [symmetric]) (simp_all add: algebra_simps)
    finally show ?thesis .
  qed
  have low: "2 powi (?k - 1) \<le> x"
  proof -
    have "(2::rat) powi (?k - 1) = 2 powi (int ?a - 1) / 2 powi int ?b"
      by (subst power_int_diff [symmetric]) (simp_all add: algebra_simps)
    also have "\<dots> \<le> 2 powi (int ?a - 1) / of_int d"
      using hi(2) dp by (intro divide_left_mono mult_pos_pos) auto
    also have "\<dots> \<le> x" unfolding x using lo(1) dp by (intro divide_right_mono) auto
    finally show ?thesis .
  qed
  have e: "exponent x = (if 2 powi ?k \<le> x then ?k else ?k - 1)"
    by (simp add: exponent_def q)
  show "2 powi exponent x \<le> x" using low e by simp
  show "x < 2 powi (exponent x + 1)" using up e by auto
qed

lemma exponent_mono:
  assumes "0 < x" "x \<le> y"
  shows "exponent x \<le> exponent y"
proof (rule ccontr)
  assume "\<not> exponent x \<le> exponent y"
  then have "(2::rat) powi (exponent y + 1) \<le> 2 powi exponent x"
    by (intro power_int_increasing) auto
  then show False using exponent_bounds [of x] exponent_bounds [of y] assms by linarith
qed

section \<open>Rounding to an integer, ties to even\<close>

definition round_even :: "rat \<Rightarrow> int" where
  "round_even x =
    (let f = \<lfloor>x\<rfloor>; r = x - of_int f
     in if r < 1/2 then f else if r > 1/2 then f + 1 else if even f then f else f + 1)"

lemma round_even_int [simp]: "round_even (of_int n) = n"
  by (simp add: round_even_def)

lemma round_even_err: "\<bar>of_int (round_even x) - x\<bar> \<le> 1/2"
proof -
  have "of_int \<lfloor>x\<rfloor> \<le> x" "x < of_int \<lfloor>x\<rfloor> + 1" using floor_correct [of x] by simp_all
  then show ?thesis by (simp add: round_even_def Let_def abs_le_iff)
qed

lemma round_even_mono:
  assumes "x \<le> y"
  shows "round_even x \<le> round_even y"
proof (cases "\<lfloor>x\<rfloor> = \<lfloor>y\<rfloor>")
  case True
  then show ?thesis using assms by (auto simp: round_even_def Let_def)
next
  case False
  then have "\<lfloor>x\<rfloor> + 1 \<le> \<lfloor>y\<rfloor>" using floor_mono [OF assms] by linarith
  moreover have "round_even x \<le> \<lfloor>x\<rfloor> + 1" "\<lfloor>y\<rfloor> \<le> round_even y"
    by (auto simp: round_even_def Let_def)
  ultimately show ?thesis by linarith
qed

section \<open>binary64\<close>

definition ulp :: "rat \<Rightarrow> rat" where
  "ulp x = 2 powi (max (exponent x - 52) (- 1074))"

definition f64_pos :: "rat \<Rightarrow> rat" where
  "f64_pos x = of_int (round_even (x / ulp x)) * ulp x"

definition f64 :: "rat \<Rightarrow> rat" where
  "f64 x = (if x = 0 then 0 else if 0 < x then f64_pos x else - f64_pos (- x))"

lemma ulp_pos [simp]: "0 < ulp x"
  by (simp add: ulp_def)

lemma f64_pos_nonneg: "0 \<le> x \<Longrightarrow> 0 \<le> f64_pos x"
  using round_even_mono [of 0 "x / ulp x"] round_even_int [of 0]
  by (simp add: f64_pos_def less_imp_le)

lemma powi_int_ratio:
  assumes "b \<le> (a::int)"
  shows "\<exists>n. (2::rat) powi a = of_int n * 2 powi b"
proof
  show "(2::rat) powi a = of_int (2 ^ nat (a - b)) * 2 powi b"
    using assms by (simp add: power_int_add [symmetric] flip: power_int_of_nat)
qed

text \<open>A multiple of the unit that bounds a number bounds its rounding.\<close>

lemma f64_pos_le: "x \<le> of_int n * ulp x \<Longrightarrow> f64_pos x \<le> of_int n * ulp x"
proof -
  assume "x \<le> of_int n * ulp x"
  then have "x / ulp x \<le> of_int n" by (simp add: divide_le_eq)
  then have "round_even (x / ulp x) \<le> n" using round_even_mono round_even_int by metis
  then show ?thesis by (simp add: f64_pos_def)
qed

lemma f64_pos_ge: "of_int n * ulp x \<le> x \<Longrightarrow> of_int n * ulp x \<le> f64_pos x"
proof -
  assume "of_int n * ulp x \<le> x"
  then have "of_int n \<le> x / ulp x" by (simp add: le_divide_eq)
  then have "n \<le> round_even (x / ulp x)" using round_even_mono round_even_int by metis
  then show ?thesis by (simp add: f64_pos_def)
qed

lemma f64_pos_mono:
  assumes "0 < x" "x \<le> y"
  shows "f64_pos x \<le> f64_pos y"
proof (cases "ulp x = ulp y")
  case True
  then show ?thesis
    using assms(2) round_even_mono [of "x / ulp x" "y / ulp y"]
    by (simp add: f64_pos_def divide_right_mono less_imp_le)
next
  case False
  let ?ex = "exponent x" and ?ey = "exponent y"
  have "?ex \<le> ?ey" using exponent_mono [OF assms] .
  moreover have "max (?ex - 52) (- 1074) \<noteq> max (?ey - 52) (- 1074)"
    using False unfolding ulp_def by metis
  ultimately have le: "?ex < ?ey" "max (?ex - 52) (- 1074) < ?ey - 52" "- 1074 < ?ey - 52"
    by linarith+
  obtain m where m: "(2::rat) powi ?ey = of_int m * ulp x"
    using powi_int_ratio [of "max (?ex - 52) (- 1074)" ?ey] le unfolding ulp_def by auto
  obtain n where n: "(2::rat) powi ?ey = of_int n * ulp y"
    using powi_int_ratio [of "max (?ey - 52) (- 1074)" ?ey] le unfolding ulp_def by auto
  have "x < 2 powi (?ex + 1)" using exponent_bounds assms by blast
  also have "\<dots> \<le> 2 powi ?ey" using le by (intro power_int_increasing) auto
  finally have "f64_pos x \<le> 2 powi ?ey" using f64_pos_le [of x m] by (simp only: m)
  moreover have "2 powi ?ey \<le> f64_pos y"
    using f64_pos_ge [of n y] exponent_bounds [of y] assms by (simp add: n)
  ultimately show ?thesis by linarith
qed

lemma f64_mono: "x \<le> y \<Longrightarrow> f64 x \<le> f64 y"
  using f64_pos_mono [of x y] f64_pos_mono [of "- y" "- x"] f64_pos_nonneg [of y]
    f64_pos_nonneg [of "- x"]
  by (auto simp: f64_def)

lemma f64_pos_int:
  assumes "0 < n" "n < 2 ^ 53"
  shows "f64_pos (of_int n) = of_int n"
proof -
  have "(2::rat) powi exponent (of_int n) \<le> of_int n" using exponent_bounds assms by simp
  also have "\<dots> < 2 powi 53" using assms(2) by (simp add: power_int_def)
  finally have lt: "(2::rat) powi exponent (of_int n) < 2 powi 53" .
  have "exponent (of_int n) < 53"
  proof (rule ccontr)
    assume "\<not> exponent (of_int n) < 53"
    then have "(2::rat) powi 53 \<le> 2 powi exponent (of_int n)"
      by (intro power_int_increasing) auto
    then show False using lt by linarith
  qed
  then have "\<exists>m. (1::rat) = of_int m * ulp (of_int n)"
    using powi_int_ratio [of "max (exponent (of_int n) - 52) (- 1074)" 0] by (simp add: ulp_def)
  then obtain m where m: "(1::rat) = of_int m * ulp (of_int n)" ..
  have "(of_int n :: rat) = of_int n * 1" by simp
  also have "\<dots> = of_int (n * m) * ulp (of_int n)" by (subst m) simp
  finally have eq: "(of_int n :: rat) = of_int (n * m) * ulp (of_int n)" .
  then have "of_int n / ulp (of_int n) = (of_int (n * m) :: rat)"
    using ulp_pos [of "of_int n"] by (metis nonzero_eq_divide_eq less_irrefl)
  then show ?thesis unfolding f64_pos_def using eq by (metis round_even_int)
qed

lemma f64_int: "\<bar>n\<bar> < 2 ^ 53 \<Longrightarrow> f64 (of_int n) = of_int n"
  using f64_pos_int [of n] f64_pos_int [of "- n"] by (auto simp: f64_def)

lemma f64_0 [simp]: "f64 0 = 0"
  by (simp add: f64_def)

lemma half_powi: "1/2 * (2::rat) powi (n + 1) = 2 powi n"
  by (simp add: power_int_add)

text \<open>The relative error is at most \<open>2^-53\<close>, and \<open>2^-1075\<close> absolute for subnormals.\<close>

lemma f64_pos_err:
  assumes "0 < x"
  shows "\<bar>f64_pos x - x\<bar> \<le> x * 2 powi (- 53) + 2 powi (- 1075)"
proof -
  have "\<bar>f64_pos x - x\<bar> = \<bar>of_int (round_even (x / ulp x)) - x / ulp x\<bar> * ulp x"
  proof -
    have "f64_pos x - x = (of_int (round_even (x / ulp x)) - x / ulp x) * ulp x"
      using ulp_pos [of x] less_imp_neq [OF ulp_pos [of x]]
      by (simp add: f64_pos_def left_diff_distrib)
    then show ?thesis using ulp_pos [of x] by (simp add: abs_mult less_imp_le)
  qed
  also have "\<dots> \<le> 1/2 * ulp x"
    using round_even_err by (intro mult_right_mono) (auto simp: less_imp_le)
  also have "\<dots> \<le> x * 2 powi (- 53) + 2 powi (- 1075)"
  proof (cases "exponent x - 52 \<le> - 1074")
    case True
    then have "ulp x = 2 powi (- 1074)" by (simp add: ulp_def)
    then have "1/2 * ulp x = 2 powi (- 1075)" using half_powi [of "- 1075"] by simp
    then show ?thesis using assms by simp
  next
    case False
    have "1/2 * ulp x = (2::rat) powi (exponent x - 53)"
      using False half_powi [of "exponent x - 53"] by (simp add: ulp_def)
    also have "\<dots> = 2 powi exponent x * 2 powi (- 53)"
      by (subst power_int_add [symmetric]) simp_all
    also have "\<dots> \<le> x * 2 powi (- 53)" using exponent_bounds assms by (intro mult_right_mono) auto
    also have "\<dots> \<le> x * 2 powi (- 53) + 2 powi (- 1075)" by simp
    finally show ?thesis .
  qed
  finally show ?thesis .
qed

section \<open>The contract of a rounding\<close>

text \<open>
  Monotone, exact on the integers the program uses, and with a bounded error. Nothing else of
  binary64 is used by the rate limiter.
\<close>

locale rounding =
  fixes rnd :: "rat \<Rightarrow> rat" and u eta :: rat
  assumes rnd_mono: "x \<le> y \<Longrightarrow> rnd x \<le> rnd y"
    and rnd_int: "\<bar>n\<bar> < 2 ^ 53 \<Longrightarrow> rnd (of_int n) = of_int n"
    and rnd_err: "0 \<le> x \<Longrightarrow> rnd x \<le> x * (1 + u) + eta"
    and u_eta: "0 \<le> u" "0 \<le> eta"
begin

lemma rnd_0: "rnd 0 = 0"
  using rnd_int [of 0] by simp

lemma rnd_nonneg: "0 \<le> x \<Longrightarrow> 0 \<le> rnd x"
  using rnd_mono [of 0 x] rnd_0 by simp

lemma rnd_le_int: "\<bar>n\<bar> < 2 ^ 53 \<Longrightarrow> x \<le> of_int n \<Longrightarrow> rnd x \<le> of_int n"
  using rnd_mono [of x "of_int n"] rnd_int [of n] by simp

text \<open>A bucket of capacity \<open>c\<close> stays between empty and full when it is refilled and used.\<close>

lemma refill_bounds:
  assumes "0 \<le> t" "0 \<le> r" "0 \<le> c"
  shows "0 \<le> min (rnd (t + r)) (of_int c)" "min (rnd (t + r)) (of_int c) \<le> of_int c"
  using assms rnd_nonneg [of "t + r"] by simp_all

lemma take_bounds:
  assumes "of_int n \<le> t" "t \<le> of_int c" "0 \<le> n" "\<bar>c\<bar> < 2 ^ 53"
  shows "0 \<le> rnd (t - of_int n)" "rnd (t - of_int n) \<le> of_int c"
proof -
  show "0 \<le> rnd (t - of_int n)" using assms(1) by (intro rnd_nonneg) simp
  have "t - of_int n \<le> of_int c" using assms(2,3) by (simp add: add_increasing2 diff_le_eq)
  then show "rnd (t - of_int n) \<le> of_int c" by (rule rnd_le_int [OF assms(4)])
qed

text \<open>What the roundings of one call can add to the tokens.\<close>

lemma refill_gain:
  assumes "0 \<le> t" "0 \<le> r" "0 \<le> c" "t \<le> c"
  shows "min (rnd (t + r)) c \<le> t + r + (2 * c * u + eta)"
proof (cases "r \<le> c")
  case True
  have "rnd (t + r) \<le> (t + r) * (1 + u) + eta" using assms by (intro rnd_err) simp
  moreover have "(t + r) * u \<le> 2 * c * u"
    using True assms u_eta by (intro mult_right_mono) auto
  ultimately have "rnd (t + r) \<le> t + r + (2 * c * u + eta)" by (simp add: distrib_left)
  then show ?thesis by linarith
next
  case False
  then have "c \<le> t + r" "0 \<le> 2 * c * u + eta" using assms u_eta by auto
  then show ?thesis by linarith
qed

lemma take_gain:
  assumes "of_int n \<le> t" "0 \<le> n" "t \<le> c"
  shows "rnd (t - of_int n) \<le> t - of_int n + (c * u + eta)"
proof -
  have "rnd (t - of_int n) \<le> (t - of_int n) * (1 + u) + eta" using assms by (intro rnd_err) simp
  moreover have "(t - of_int n) * u \<le> c * u"
    using assms u_eta by (intro mult_right_mono) (auto simp: add_increasing2 diff_le_eq)
  ultimately show ?thesis by (simp add: distrib_left)
qed

end

interpretation f64: rounding f64 "2 powi (- 53)" "2 powi (- 1075)"
proof unfold_locales
  show "0 \<le> x \<Longrightarrow> f64 x \<le> x * (1 + 2 powi (- 53)) + 2 powi (- 1075)" for x
    using f64_pos_err [of x] by (cases "x = 0") (auto simp: f64_def distrib_left)
qed (auto simp: f64_mono f64_int)

lemma f64_numeral [go_eval]: "numeral k < (2::int) ^ 53 \<Longrightarrow> f64 (numeral k) = numeral k"
  using f64_int [of "numeral k"] by simp

lemma f64_one [go_eval]: "f64 1 = 1"
  using f64_int [of 1] by simp

end
