(* ===== verification/Go_Time.thy ===== *)
theory Go_Time
  imports Go_Strings
begin

text \<open>
  The part of Go's \<open>time\<close> the program uses: an instant is a number of nanoseconds since the
  Unix epoch, and \<open>Format\<close> prints it with the layouts \<open>RFC3339\<close> and \<open>RFC3339Nano\<close> in a
  zone \<open>off\<close> seconds east of UTC.
\<close>

type_synonym instant = int

definition second :: int where "second = 1000000000"

text \<open>Days since the epoch to year, month and day of the proleptic Gregorian calendar.\<close>

definition year_of_era :: "int \<Rightarrow> int" where
  "year_of_era doe = (doe - doe div 1460 + doe div 36524 - doe div 146096) div 365"

definition day_of_year :: "int \<Rightarrow> int \<Rightarrow> int" where
  "day_of_year doe yoe = doe - (365 * yoe + yoe div 4 - yoe div 100)"

definition month_and_day :: "int \<Rightarrow> int \<Rightarrow> int \<Rightarrow> int \<times> int \<times> int" where
  "month_and_day y doy mp =
    (let d = doy - (153 * mp + 2) div 5 + 1
     in if mp < 10 then (y, mp + 3, d) else (y + 1, mp - 9, d))"

definition date_in_year :: "int \<Rightarrow> int \<Rightarrow> int \<times> int \<times> int" where
  "date_in_year y doy = month_and_day y doy ((5 * doy + 2) div 153)"

definition date_in_era :: "int \<Rightarrow> int \<Rightarrow> int \<Rightarrow> int \<times> int \<times> int" where
  "date_in_era era doe yoe = date_in_year (yoe + era * 400) (day_of_year doe yoe)"

definition civil_date :: "int \<Rightarrow> int \<times> int \<times> int" where
  "civil_date days =
    date_in_era ((days + 719468) div 146097) ((days + 719468) mod 146097)
      (year_of_era ((days + 719468) mod 146097))"

text \<open>A number with at least \<open>w\<close> digits.\<close>

definition pad_digits :: "nat \<Rightarrow> string \<Rightarrow> string" where
  "pad_digits w s = replicate (w - length s) (CHR ''0'') @ s"

definition pad :: "nat \<Rightarrow> int \<Rightarrow> string" where
  "pad w n = (if n < 0 then ''-'' else []) @ pad_digits w (nat_digits (nat \<bar>n\<bar>))"

definition zone_suffix :: "int \<Rightarrow> string" where
  "zone_suffix off =
    (if off = 0 then ''Z''
     else (let m = \<bar>off\<bar> div 60
           in (if off < 0 then ''-'' else ''+'') @ pad 2 (m div 60) @ '':'' @ pad 2 (m mod 60)))"

fun date_string :: "int \<times> int \<times> int \<Rightarrow> string" where
  "date_string (y, m, d) = pad 4 y @ ''-'' @ pad 2 m @ ''-'' @ pad 2 d"

definition clock_string :: "int \<Rightarrow> string" where
  "clock_string s = pad 2 (s div 3600) @ '':'' @ pad 2 (s mod 3600 div 60) @ '':'' @ pad 2 (s mod 60)"

definition date_time :: "int \<Rightarrow> instant \<Rightarrow> string" where
  "date_time off t =
    date_string (civil_date ((t div second + off) div 86400)) @ ''T''
    @ clock_string ((t div second + off) mod 86400)"

definition rfc3339 :: "int \<Rightarrow> instant \<Rightarrow> string" where
  "rfc3339 off t = date_time off t @ zone_suffix off"

text \<open>The fraction of a second, without trailing zeros.\<close>

definition fraction :: "instant \<Rightarrow> string" where
  "fraction t =
    (if t mod second = 0 then [] else ''.'' @ trim_right (pad 9 (t mod second)) ''0'')"

definition rfc3339_nano :: "int \<Rightarrow> instant \<Rightarrow> string" where
  "rfc3339_nano off t = date_time off t @ fraction t @ zone_suffix off"

lemma civil_date_epoch: "civil_date 0 = (1970, 1, 1)"
  by (simp add: civil_date_def date_in_era_def date_in_year_def month_and_day_def
      year_of_era_def day_of_year_def)

lemmas [go_eval] = second_def civil_date_def date_in_era_def date_in_year_def month_and_day_def
  year_of_era_def day_of_year_def pad_digits_def clock_string_def pad_def zone_suffix_def date_time_def rfc3339_def
  fraction_def rfc3339_nano_def

lemma rfc3339_nano_example:
  "rfc3339_nano 0 1735689845120000000 = ''2025-01-01T00:04:05.12Z''"
  by (simp add: go_eval)

end
