(* ===== verification/Ratelimit.thy ===== *)
theory Ratelimit
  imports Go_Float Go_Time "HOL-Library.Signed_Division"
begin

text \<open>
  \<open>internal/ratelimit/ratelimit.go\<close>: token buckets and the per-host limiter. Every operation
  is one step under its lock and takes its clock readings as arguments: \<open>AllowN\<close> reads the
  clock twice, once for the refill and once for \<open>last\<close>. The arithmetic is binary64
  (\<open>f64\<close>), without fused multiply-add. The lemmas show that a bucket stays between empty and
  full, that hosts do not touch one another, and how many calls a window of time can allow.
\<close>

section \<open>Time since\<close>

definition max_duration :: int where "max_duration = 2 ^ 63 - 1"

definition since :: "instant \<Rightarrow> instant \<Rightarrow> int" where
  "since now last0 = max (- (2 ^ 63)) (min max_duration (now - last0))"

text \<open>\<open>Duration.Seconds\<close>: whole seconds and the rest, each as a float.\<close>

definition seconds_of :: "int \<Rightarrow> rat" where
  "seconds_of d =
    f64 (f64 (of_int (d sdiv second)) + f64 (f64 (of_int (d smod second)) / f64 1000000000))"

section \<open>The bucket\<close>

record TokenBucket =
  capacity :: int
  tokens :: rat
  rate :: rat
  last_time :: instant

definition NewTokenBucket :: "int \<Rightarrow> int \<Rightarrow> instant \<Rightarrow> TokenBucket" where
  "NewTokenBucket r burst now =
    \<lparr> capacity = burst, tokens = f64 (of_int burst), rate = f64 (of_int r), last_time = now \<rparr>"

definition refill :: "instant \<Rightarrow> instant \<Rightarrow> TokenBucket \<Rightarrow> TokenBucket" where
  "refill t1 t2 tb =
    (let elapsed = seconds_of (since t1 (last_time tb));
         ts = f64 (tokens tb + f64 (elapsed * rate tb));
         ts' = (if ts > f64 (of_int (capacity tb)) then f64 (of_int (capacity tb)) else ts)
     in tb\<lparr> tokens := ts', last_time := t2 \<rparr>)"

definition AllowN :: "int \<Rightarrow> instant \<times> instant \<Rightarrow> TokenBucket \<Rightarrow> bool \<times> TokenBucket" where
  "AllowN n clk tb0 =
    (let tb = refill (fst clk) (snd clk) tb0
     in if tokens tb \<ge> f64 (of_int n)
        then (True, tb\<lparr> tokens := f64 (tokens tb - f64 (of_int n)) \<rparr>)
        else (False, tb))"

definition Allow :: "instant \<times> instant \<Rightarrow> TokenBucket \<Rightarrow> bool \<times> TokenBucket" where
  "Allow = AllowN 1"

section \<open>The limiter\<close>

record PerHostLimiter =
  buckets :: "(string, TokenBucket) gomap"
  lrate :: int
  burst :: int

record HostSnapshot =
  snap_host :: string
  snap_tokens :: rat
  snap_capacity :: int
  snap_rate :: rat

definition NewPerHostLimiter :: "int \<Rightarrow> int \<Rightarrow> PerHostLimiter" where
  "NewPerHostLimiter r b = \<lparr> buckets = [], lrate = r, burst = b \<rparr>"

definition getOrCreateBucket ::
  "string \<Rightarrow> instant \<Rightarrow> PerHostLimiter \<Rightarrow> TokenBucket \<times> PerHostLimiter" where
  "getOrCreateBucket h now l =
    (case map_of (buckets l) h of
       Some b \<Rightarrow> (b, l)
     | None \<Rightarrow> (let b = NewTokenBucket (lrate l) (burst l) now
                in (b, l\<lparr> buckets := AList.update h b (buckets l) \<rparr>)))"

text \<open>The clock readings of a call: at the creation of the bucket, and the two of \<open>AllowN\<close>.\<close>

definition Limiter_AllowN ::
  "string \<Rightarrow> int \<Rightarrow> instant \<times> instant \<times> instant \<Rightarrow> PerHostLimiter \<Rightarrow> bool \<times> PerHostLimiter" where
  "Limiter_AllowN h n clk l0 =
    (let (b, l) = getOrCreateBucket h (fst clk) l0;
         (ok, b') = AllowN n (snd clk) b
     in (ok, l\<lparr> buckets := AList.update h b' (buckets l) \<rparr>))"

definition Limiter_Allow ::
  "string \<Rightarrow> instant \<times> instant \<times> instant \<Rightarrow> PerHostLimiter \<Rightarrow> bool \<times> PerHostLimiter" where
  "Limiter_Allow h = Limiter_AllowN h 1"

definition Snapshot :: "PerHostLimiter \<Rightarrow> HostSnapshot list" where
  "Snapshot l = map (\<lambda>(h, tb). \<lparr> snap_host = h, snap_tokens = tokens tb,
     snap_capacity = capacity tb, snap_rate = rate tb \<rparr>) (buckets l)"

definition Reset :: "string \<Rightarrow> PerHostLimiter \<Rightarrow> PerHostLimiter" where
  "Reset h l = l\<lparr> buckets := AList.delete h (buckets l) \<rparr>"

definition ResetAll :: "PerHostLimiter \<Rightarrow> PerHostLimiter" where
  "ResetAll l = l\<lparr> buckets := [] \<rparr>"

section \<open>The bucket invariant\<close>

definition bucket_ok :: "TokenBucket \<Rightarrow> bool" where
  "bucket_ok tb = (0 \<le> capacity tb \<and> capacity tb < 2 ^ 53 \<and> 0 \<le> tokens tb
     \<and> tokens tb \<le> of_int (capacity tb) \<and> 0 \<le> rate tb)"

lemma f64_capacity: "bucket_ok tb \<Longrightarrow> f64 (of_int (capacity tb)) = of_int (capacity tb)"
  by (simp add: bucket_ok_def f64.rnd_int)

lemma NewTokenBucket_ok: "0 \<le> r \<Longrightarrow> 0 \<le> b \<Longrightarrow> b < 2 ^ 53 \<Longrightarrow> bucket_ok (NewTokenBucket r b now)"
  by (simp add: bucket_ok_def NewTokenBucket_def f64.rnd_int f64.rnd_nonneg)

lemma sdiv_smod_nonneg: "0 \<le> d \<Longrightarrow> d sdiv second = d div second \<and> d smod second = d mod second"
  by (cases "d = 0") (simp_all add: second_def signed_divide_int_def signed_modulo_int_def)

lemma seconds_of_nonneg: "0 \<le> d \<Longrightarrow> 0 \<le> seconds_of d"
  using pos_imp_zdiv_nonneg_iff [of second d] pos_mod_sign [of second d]
  by (simp add: seconds_of_def sdiv_smod_nonneg f64.rnd_nonneg) (simp add: second_def f64.rnd_nonneg)

lemma since_nonneg: "t0 \<le> t \<Longrightarrow> 0 \<le> since t t0 \<and> since t t0 \<le> t - t0"
  by (simp add: since_def max_duration_def)

definition refill_amount :: "instant \<Rightarrow> TokenBucket \<Rightarrow> rat" where
  "refill_amount t1 tb = f64 (seconds_of (since t1 (last_time tb)) * rate tb)"

lemma refill_amount_nonneg: "bucket_ok tb \<Longrightarrow> last_time tb \<le> t1 \<Longrightarrow> 0 \<le> refill_amount t1 tb"
  using since_nonneg [of "last_time tb" t1]
  by (simp add: refill_amount_def bucket_ok_def f64.rnd_nonneg seconds_of_nonneg)

lemma refill_tokens:
  "bucket_ok tb \<Longrightarrow>
   tokens (refill t1 t2 tb) = min (f64 (tokens tb + refill_amount t1 tb)) (of_int (capacity tb))"
  by (simp add: refill_def refill_amount_def Let_def f64_capacity min_def)

lemma refill_simps [simp]:
  "capacity (refill t1 t2 tb) = capacity tb" "rate (refill t1 t2 tb) = rate tb"
  "last_time (refill t1 t2 tb) = t2"
  by (simp_all add: refill_def Let_def)

lemma refill_ok: "bucket_ok tb \<Longrightarrow> last_time tb \<le> t1 \<Longrightarrow> bucket_ok (refill t1 t2 tb)"
  using f64.refill_bounds [of "tokens tb" "refill_amount t1 tb" "capacity tb"]
    refill_amount_nonneg [of tb t1] refill_tokens [of tb t1 t2]
  by (simp add: bucket_ok_def)

lemma AllowN_simps [simp]:
  "capacity (snd (AllowN n clk tb)) = capacity tb" "rate (snd (AllowN n clk tb)) = rate tb"
  "last_time (snd (AllowN n clk tb)) = snd clk"
  by (simp_all add: AllowN_def Let_def)

lemma AllowN_ok:
  assumes "bucket_ok tb" "last_time tb \<le> fst clk" "0 \<le> n" "n < 2 ^ 53"
  shows "bucket_ok (snd (AllowN n clk tb))"
proof -
  let ?b = "refill (fst clk) (snd clk) tb"
  have ok: "bucket_ok ?b" by (rule refill_ok [OF assms(1,2)])
  have n: "f64 (of_int n) = of_int n" using assms(3,4) by (simp add: f64.rnd_int)
  show ?thesis
    using ok f64.take_bounds [of n "tokens ?b" "capacity ?b"] assms(3,4)
    by (simp add: AllowN_def Let_def n bucket_ok_def)
qed

section \<open>The limiter invariant\<close>

definition limiter_ok :: "PerHostLimiter \<Rightarrow> bool" where
  "limiter_ok l = (0 \<le> lrate l \<and> 0 \<le> burst l \<and> burst l < 2 ^ 53 \<and> amap_ok (buckets l)
     \<and> (\<forall>h tb. map_of (buckets l) h = Some tb \<longrightarrow> bucket_ok tb \<and> capacity tb = burst l))"

text \<open>The clock never goes back behind the last use of a bucket.\<close>

definition clock_ok :: "string \<Rightarrow> instant \<times> instant \<times> instant \<Rightarrow> PerHostLimiter \<Rightarrow> bool" where
  "clock_ok h clk l = (case clk of (t0, t1, t2) \<Rightarrow> t0 \<le> t1
     \<and> (\<forall>tb. map_of (buckets l) h = Some tb \<longrightarrow> last_time tb \<le> t1))"

lemma limiter_ok_new: "0 \<le> r \<Longrightarrow> 0 \<le> b \<Longrightarrow> b < 2 ^ 53 \<Longrightarrow> limiter_ok (NewPerHostLimiter r b)"
  by (simp add: limiter_ok_def NewPerHostLimiter_def)

definition bucket_of :: "string \<Rightarrow> instant \<Rightarrow> PerHostLimiter \<Rightarrow> TokenBucket" where
  "bucket_of h now l = (case map_of (buckets l) h of Some b \<Rightarrow> b
     | None \<Rightarrow> NewTokenBucket (lrate l) (burst l) now)"

lemma update_twice: "AList.update k v (AList.update k w m) = AList.update k v m"
  by (induction m) auto

lemma Limiter_AllowN_eq:
  "Limiter_AllowN h n clk l =
    (fst (AllowN n (snd clk) (bucket_of h (fst clk) l)),
     l\<lparr> buckets := AList.update h (snd (AllowN n (snd clk) (bucket_of h (fst clk) l))) (buckets l) \<rparr>)"
  by (simp add: Limiter_AllowN_def getOrCreateBucket_def bucket_of_def Let_def update_twice
      split: option.splits prod.splits)

lemma bucket_of_ok:
  "limiter_ok l \<Longrightarrow> clock_ok h clk l \<Longrightarrow>
   bucket_ok (bucket_of h (fst clk) l) \<and> capacity (bucket_of h (fst clk) l) = burst l
   \<and> last_time (bucket_of h (fst clk) l) \<le> fst (snd clk)"
  by (auto simp: bucket_of_def limiter_ok_def clock_ok_def NewTokenBucket_ok split: option.splits)
    (auto simp: NewTokenBucket_def)

lemma Limiter_AllowN_ok:
  assumes "limiter_ok l" "clock_ok h clk l" "0 \<le> n" "n < 2 ^ 53"
  shows "limiter_ok (snd (Limiter_AllowN h n clk l))"
  using bucket_of_ok [OF assms(1,2)] assms AllowN_ok [of "bucket_of h (fst clk) l" "snd clk" n]
  by (auto simp: limiter_ok_def Limiter_AllowN_eq)

lemma Reset_ok: "limiter_ok l \<Longrightarrow> limiter_ok (Reset h l)"
  by (auto simp: limiter_ok_def Reset_def)

lemma ResetAll_ok: "limiter_ok l \<Longrightarrow> limiter_ok (ResetAll l)"
  by (auto simp: limiter_ok_def ResetAll_def)

lemma Limiter_AllowN_other:
  "h' \<noteq> h \<Longrightarrow> map_of (buckets (snd (Limiter_AllowN h n clk l))) h' = map_of (buckets l) h'"
  by (simp add: Limiter_AllowN_eq)

section \<open>How much a window allows\<close>

text \<open>A sequence of calls on one bucket, with the clock readings of each.\<close>

fun allow_run :: "(instant \<times> instant) list \<Rightarrow> TokenBucket \<Rightarrow> bool list \<times> TokenBucket" where
  "allow_run [] tb = ([], tb)"
| "allow_run (clk # clks) tb =
    (let (ok, tb1) = Allow clk tb; (oks, tb2) = allow_run clks tb1 in (ok # oks, tb2))"

definition allowed :: "bool list \<Rightarrow> nat" where
  "allowed oks = length (filter id oks)"

text \<open>The readings of a clock that does not go back, from \<open>t\<close> on, and the last of them.\<close>

fun clock_run :: "instant \<Rightarrow> (instant \<times> instant) list \<Rightarrow> bool" where
  "clock_run t [] = True"
| "clock_run t ((t1, t2) # clks) = (t \<le> t1 \<and> t1 \<le> t2 \<and> clock_run t2 clks)"

fun clock_end :: "instant \<Rightarrow> (instant \<times> instant) list \<Rightarrow> instant" where
  "clock_end t [] = t"
| "clock_end t ((t1, t2) # clks) = clock_end t2 clks"

abbreviation u53 :: rat where "u53 \<equiv> 2 powi (- 53)"
abbreviation eta :: rat where "eta \<equiv> 2 powi (- 1075)"

definition call_slack :: "int \<Rightarrow> rat" where
  "call_slack c = 3 * of_int c * u53 + 2 * eta"

lemma Allow_gain:
  assumes ok: "bucket_ok tb" and clk: "last_time tb \<le> fst clk"
  shows "(if fst (Allow clk tb) then 1 else 0) + tokens (snd (Allow clk tb))
    \<le> tokens tb + refill_amount (fst clk) tb + call_slack (capacity tb)"
proof -
  let ?b = "refill (fst clk) (snd clk) tb" and ?c = "of_int (capacity tb) :: rat"
  have r: "0 \<le> refill_amount (fst clk) tb" by (rule refill_amount_nonneg [OF ok clk])
  have gain: "tokens ?b \<le> tokens tb + refill_amount (fst clk) tb + (2 * ?c * u53 + eta)"
    using f64.refill_gain [of "tokens tb" "refill_amount (fst clk) tb" ?c] ok r
      refill_tokens [OF ok, of "fst clk" "snd clk"] by (simp add: bucket_ok_def)
  have okb: "bucket_ok ?b" by (rule refill_ok [OF ok clk])
  have one: "f64 (of_int 1) = of_int 1" by (rule f64.rnd_int) simp
  show ?thesis
  proof (cases "1 \<le> tokens ?b")
    case True
    have "f64 (tokens ?b - 1) \<le> tokens ?b - 1 + (?c * u53 + eta)"
      using f64.take_gain [of 1 "tokens ?b" ?c] True okb by (simp add: bucket_ok_def)
    then have "f64 (tokens ?b - 1) + 1 \<le>
        tokens tb + refill_amount (fst clk) tb + (2 * ?c * u53 + eta) + (?c * u53 + eta)"
      using gain by linarith
    then show ?thesis using True one by (simp add: Allow_def AllowN_def Let_def call_slack_def)
  next
    case False
    have "0 \<le> ?c * u53 + eta" using ok by (simp add: bucket_ok_def)
    then have "tokens ?b \<le> tokens tb + refill_amount (fst clk) tb
        + ((2 * ?c * u53 + eta) + (?c * u53 + eta))" using gain by linarith
    then show ?thesis using False one by (simp add: Allow_def AllowN_def Let_def call_slack_def)
  qed
qed

text \<open>The refill of one call against the real time it stands for.\<close>

lemma seconds_of_le:
  assumes "0 \<le> d" "d < 2 ^ 63"
  shows "seconds_of d \<le> of_int d / 1000000000 * (1 + u53) * (1 + u53) + (eta * (1 + u53) + eta)"
proof -
  have s: "0 \<le> d div second" "d div second < 2 ^ 53" "0 \<le> d mod second" "d mod second < 2 ^ 53"
    using assms by (auto simp: second_def)
  let ?s = "of_int (d div second) :: rat" and ?n = "of_int (d mod second) / 1000000000 :: rat"
  have ints: "f64 (of_int (d div second)) = ?s" "f64 (of_int (d mod second)) = of_int (d mod second)"
    "f64 (1000000000 :: rat) = 1000000000"
    using f64.rnd_int [of "d div second"] f64.rnd_int [of "d mod second"]
      f64.rnd_int [of 1000000000] s by simp_all
  have n0: "0 \<le> ?n" using s(3) by simp
  have eq: "seconds_of d = f64 (?s + f64 ?n)"
    using assms by (simp only: seconds_of_def sdiv_smod_nonneg ints)
  have d: "of_int d / 1000000000 = ?s + ?n"
  proof -
    have "d = d div second * 1000000000 + d mod second" by (simp add: second_def)
    then have "(of_int d :: rat) = of_int (d div second) * 1000000000 + of_int (d mod second)"
      by (metis of_int_add of_int_mult of_int_numeral)
    then show ?thesis by simp
  qed
  have fn: "f64 ?n \<le> ?n * (1 + u53) + eta" by (rule f64.rnd_err [OF n0])
  have s0: "0 \<le> ?s" using s(1) by simp
  have "?s \<le> ?s * (1 + u53)" using s0 by (simp add: distrib_left)
  then have sum: "?s + f64 ?n \<le> (?s + ?n) * (1 + u53) + eta"
    using fn by (simp only: distrib_right)
  have "f64 (?s + f64 ?n) \<le> (?s + f64 ?n) * (1 + u53) + eta"
    using s0 n0 f64.rnd_nonneg [OF n0] by (intro f64.rnd_err) simp
  also have "\<dots> \<le> ((?s + ?n) * (1 + u53) + eta) * (1 + u53) + eta"
    using sum by (intro add_right_mono mult_right_mono) simp_all
  also have "\<dots> = of_int d / 1000000000 * (1 + u53) * (1 + u53) + (eta * (1 + u53) + eta)"
    unfolding d by (simp only: distrib_right add.assoc)
  finally show ?thesis unfolding eq .
qed

lemma eta_le: "eta \<le> u53"
  by (intro power_int_increasing) auto

lemma cube_le: "(1 + u53) * (1 + u53) * (1 + u53) \<le> 1 + 2 powi (- 51)"
  by (simp add: power_int_def field_simps)

lemma regroup: "(D * q * q + E) * R * q + e = R * D * (q * q * q) + (E * R * q + (e::rat))"
  by (simp add: algebra_simps)

lemma refill_amount_le:
  assumes "bucket_ok tb" "last_time tb \<le> t1" "t1 \<le> t2" "rate tb \<le> 50"
  shows "refill_amount t1 tb
    \<le> rate tb * (of_int (t2 - last_time tb) / 1000000000) * (1 + 2 powi (- 51)) + 301 * u53"
proof -
  let ?d = "since t1 (last_time tb)" and ?R = "rate tb"
  let ?D = "of_int ?d / 1000000000 :: rat" and ?E = "eta * (1 + u53) + eta"
  let ?T = "of_int (t2 - last_time tb) / 1000000000 :: rat"
  have d: "0 \<le> ?d" "?d < 2 ^ 63" "?d \<le> t2 - last_time tb"
    using since_nonneg [OF assms(2)] assms(3) by (auto simp: since_def max_duration_def)
  have R: "0 \<le> ?R" using assms(1) by (simp add: bucket_ok_def)
  have D: "0 \<le> ?D" "?D \<le> ?T" using d by (simp_all add: divide_right_mono del: of_int_diff)
  have "refill_amount t1 tb \<le> seconds_of ?d * ?R * (1 + u53) + eta"
    unfolding refill_amount_def using R seconds_of_nonneg [OF d(1)] by (intro f64.rnd_err) simp
  also have "\<dots> \<le> (?D * (1 + u53) * (1 + u53) + ?E) * ?R * (1 + u53) + eta"
    using seconds_of_le [OF d(1,2)] R by (intro add_right_mono mult_right_mono) simp_all
  also have "\<dots> = ?R * ?D * ((1 + u53) * (1 + u53) * (1 + u53)) + (?E * ?R * (1 + u53) + eta)"
    by (rule regroup)
  also have "\<dots> \<le> ?R * ?T * (1 + 2 powi (- 51)) + 301 * u53"
  proof (rule add_mono)
    have rd: "?R * ?D \<le> ?R * ?T" by (rule mult_left_mono [OF D(2) R])
    have rt: "0 \<le> ?R * ?T" by (rule mult_nonneg_nonneg [OF R]) (use D in linarith)
    show "?R * ?D * ((1 + u53) * (1 + u53) * (1 + u53)) \<le> ?R * ?T * (1 + 2 powi (- 51))"
      by (rule mult_mono [OF rd cube_le rt]) simp
    have "u53 \<le> 2 powi 0" by (rule power_int_increasing) simp_all
    then have u2: "1 + u53 \<le> 2" by simp
    have "eta * (1 + u53) \<le> eta * 2" using u2 by (intro mult_left_mono) simp_all
    then have e3: "?E \<le> 3 * eta" by linarith
    have er: "?E * ?R \<le> 3 * eta * 50"
      by (rule mult_mono [OF e3 assms(4) _ R]) simp
    have "?E * ?R * (1 + u53) \<le> 3 * eta * 50 * 2"
      by (rule mult_mono [OF er u2]) simp_all
    then show "?E * ?R * (1 + u53) + eta \<le> 301 * u53" using eta_le by linarith
  qed
  finally show ?thesis .
qed

lemma call_slack_le: "0 \<le> c \<Longrightarrow> c \<le> 50 \<Longrightarrow> call_slack c + 301 * u53 \<le> 2 powi (- 44)"
proof -
  assume c: "0 \<le> c" "c \<le> 50"
  have "3 * of_int c * u53 \<le> 150 * u53" using c by (intro mult_right_mono) auto
  moreover have "512 * u53 = 2 powi (- 44)"
  proof -
    have "u53 = 2 powi (- 44) * 2 powi (- 9)" by (subst power_int_add [symmetric]) simp_all
    moreover have "(2::rat) powi (- 9) = 1 / 512" by (simp add: power_int_def power_one_over)
    ultimately show ?thesis by (simp only:)
  qed
  moreover have "0 \<le> u53" by simp
  ultimately show ?thesis using eta_le unfolding call_slack_def by linarith
qed

lemma allow_run_bound:
  assumes "bucket_ok tb" "rate tb \<le> 50" "capacity tb \<le> 50" "clock_run (last_time tb) clks"
  shows "of_nat (allowed (fst (allow_run clks tb)))
    \<le> tokens tb + rate tb * (of_int (clock_end (last_time tb) clks - last_time tb) / 1000000000)
         * (1 + 2 powi (- 51)) + of_nat (length clks) * 2 powi (- 44)"
  using assms
proof (induction clks arbitrary: tb)
  case Nil
  then show ?case by (simp add: allowed_def bucket_ok_def)
next
  case (Cons clk clks)
  obtain t1 t2 where clk: "clk = (t1, t2)" by (cases clk)
  define tb1 where "tb1 = snd (Allow clk tb)"
  let ?slack = "2 powi (- 44) :: rat" and ?f = "1 + 2 powi (- 51) :: rat"
  let ?T = "\<lambda>a b. of_int (a - b) / 1000000000 :: rat"
  have run: "last_time tb \<le> t1" "t1 \<le> t2" "clock_run t2 clks" using Cons.prems clk by auto
  have tb1: "rate tb1 = rate tb" "capacity tb1 = capacity tb" "last_time tb1 = t2" "bucket_ok tb1"
    using Cons.prems run AllowN_ok [of tb clk 1] by (simp_all add: tb1_def Allow_def clk)
  have ih: "of_nat (allowed (fst (allow_run clks tb1)))
    \<le> tokens tb1 + rate tb * ?T (clock_end t2 clks) t2 * ?f + of_nat (length clks) * ?slack"
    using Cons.IH [of tb1] Cons.prems run tb1 by simp
  have gain: "(if fst (Allow clk tb) then 1 else 0) + tokens tb1
    \<le> tokens tb + refill_amount t1 tb + call_slack (capacity tb)"
    using Allow_gain [of tb clk] Cons.prems run unfolding tb1_def by (simp add: clk)
  have amount: "refill_amount t1 tb \<le> rate tb * ?T t2 (last_time tb) * ?f + 301 * u53"
    using refill_amount_le Cons.prems run by simp
  have slack: "call_slack (capacity tb) + 301 * u53 \<le> ?slack"
    using call_slack_le [of "capacity tb"] Cons.prems by (simp add: bucket_ok_def)
  have count: "of_nat (allowed (fst (allow_run (clk # clks) tb)))
    = (if fst (Allow clk tb) then 1 else 0) + (of_nat (allowed (fst (allow_run clks tb1))) :: rat)"
    by (simp add: tb1_def allowed_def Let_def split: prod.splits)
  have split: "rate tb * ?T (clock_end t2 clks) (last_time tb) * ?f
    = rate tb * ?T t2 (last_time tb) * ?f + rate tb * ?T (clock_end t2 clks) t2 * ?f"
    by (simp add: distrib_right [symmetric] distrib_left [symmetric] add_divide_distrib [symmetric]
        del: distrib_left_numeral distrib_right_numeral)
  have len: "of_nat (length (clk # clks)) * ?slack = ?slack + of_nat (length clks) * ?slack"
    by (simp add: distrib_right)
  have end1: "clock_end (last_time tb) (clk # clks) = clock_end t2 clks" by (simp add: clk)
  show ?case unfolding count split len end1 using ih gain amount slack by linarith
qed

lemmas [go_eval] = max_duration_def since_def NewTokenBucket_def refill_def AllowN_def Allow_def
  NewPerHostLimiter_def getOrCreateBucket_def Limiter_AllowN_def Limiter_Allow_def Snapshot_def
  Reset_def ResetAll_def

section \<open>Properties\<close>

text \<open>
  C25: every operation of the limiter keeps every bucket between empty and its capacity, and
  a call for one host leaves the buckets of the others alone.
\<close>

theorem limiter_invariant:
  assumes "limiter_ok l" "clock_ok h clk l" "0 \<le> n" "n < 2 ^ 53"
  shows "limiter_ok (snd (Limiter_AllowN h n clk l)) \<and> limiter_ok (Reset h l) \<and> limiter_ok (ResetAll l)
    \<and> (\<forall>h'. h' \<noteq> h \<longrightarrow> map_of (buckets (snd (Limiter_AllowN h n clk l))) h' = map_of (buckets l) h')"
  using Limiter_AllowN_ok [OF assms] Reset_ok [OF assms(1)] ResetAll_ok [OF assms(1)] Limiter_AllowN_other
  by blast

theorem limiter_invariant_witness:
  "limiter_ok (snd (Limiter_AllowN ''a.io'' 1 (0, 0, 0) (NewPerHostLimiter 2 2)))"
  using limiter_invariant [of "NewPerHostLimiter 2 2" "''a.io''" "(0, 0, 0)" 1] limiter_ok_new [of 2 2]
  by (simp add: clock_ok_def NewPerHostLimiter_def)

definition demo_bucket :: TokenBucket where
  "demo_bucket = NewTokenBucket 2 1 0"

lemma demo_bucket_simps:
  "bucket_ok demo_bucket" "rate demo_bucket = 2" "capacity demo_bucket = 1"
  "tokens demo_bucket = 1" "last_time demo_bucket = 0"
  using NewTokenBucket_ok [of 2 1 0] f64_numeral [of "num.Bit0 num.One"]
  by (simp_all add: demo_bucket_def NewTokenBucket_def f64_one)

text \<open>
  C24: over any sequence of calls with a clock that does not go back, a bucket admits at
  most its tokens plus rate times elapsed seconds, up to the stated rounding error of the
  binary64 arithmetic.
\<close>

theorem window_bound:
  assumes "bucket_ok tb" "rate tb \<le> 50" "capacity tb \<le> 50" "clock_run (last_time tb) clks"
  shows "of_nat (allowed (fst (allow_run clks tb)))
    \<le> tokens tb + rate tb * (of_int (clock_end (last_time tb) clks - last_time tb) / 1000000000)
         * (1 + 2 powi (- 51)) + of_nat (length clks) * 2 powi (- 44)"
  by (rule allow_run_bound [OF assms])

theorem window_bound_witness:
  "of_nat (allowed (fst (allow_run [(0, 0), (500000000, 500000000)] demo_bucket)))
    \<le> 1 + 2 * (of_int (500000000 - 0) / 1000000000) * (1 + 2 powi (- 51))
        + of_nat (length [(0, 0), (500000000 :: int, 500000000 :: int)]) * (2 :: rat) powi (- 44)"
proof -
  have "rate demo_bucket \<le> 50" "capacity demo_bucket \<le> 50"
    "clock_run (last_time demo_bucket) [(0, 0), (500000000, 500000000)]"
    by (simp_all add: demo_bucket_simps)
  from window_bound [OF demo_bucket_simps(1) this] show ?thesis
    unfolding demo_bucket_simps clock_end.simps .
qed

theorem fresh_bucket_refuses:
  "fst (allow_run [(0, 0), (0, 0), (0, 0)] (NewTokenBucket 2 2 0)) = [True, True, False]"
  by (simp add: go_eval seconds_of_def)

end
