(* ===== verification/Audit_Log.thy ===== *)
theory Audit_Log
  imports Prelude Go_Time
begin

text \<open>
  \<open>internal/audit\<close>: the in-memory audit log (\<open>audit.go\<close>) and its SQLite-backed variant
  (\<open>persistent.go\<close>). \<open>Log\<close> takes the random identifier and the clock reading of the call as
  arguments. The table of the persistent log is the list of its rows in \<open>rowid\<close> order; the
  JSON codec is an argument, and so is whether SQLite accepts a write. The lemmas show that
  the log is a ring buffer: it holds the last \<open>maxEntries\<close> of everything logged, in order.
\<close>

section \<open>Entries\<close>

text \<open>The values of a \<open>map[string]interface{}\<close> the program stores.\<close>

datatype val =
    VNull
  | VBool bool
  | VInt int
  | VNum rat
  | VStr string
  | VList "val list"
  | VMap "(string \<times> val) list"

type_synonym data = "(string, val) gomap"

record Entry =
  EntryID :: string
  Timestamp :: string
  Component :: string
  EventType :: string
  EData :: "data option" \<comment> \<open>\<open>None\<close> is the nil map\<close>
  Redacted :: bool

record Logger =
  entries :: "Entry list"
  maxEntries :: nat

definition NewLogger :: "int \<Rightarrow> Logger" where
  "NewLogger n = \<lparr> entries = [], maxEntries = (if n < 1 then 1 else nat n) \<rparr>"

section \<open>Operations\<close>

definition new_entry ::
  "string \<Rightarrow> instant \<Rightarrow> string \<Rightarrow> string \<Rightarrow> data option \<Rightarrow> Entry" where
  "new_entry i now component eventType d =
    \<lparr> EntryID = i, Timestamp = rfc3339_nano 0 now, Component = component,
      EventType = eventType, EData = d, Redacted = False \<rparr>"

definition append_entry :: "Entry \<Rightarrow> Logger \<Rightarrow> Logger" where
  "append_entry e l =
    (let kept = (if length (entries l) \<ge> maxEntries l then drop 1 (entries l) else entries l)
     in l\<lparr> entries := kept @ [e] \<rparr>)"

definition Log ::
  "string \<Rightarrow> instant \<Rightarrow> string \<Rightarrow> string \<Rightarrow> data option \<Rightarrow> Logger \<Rightarrow> Entry \<times> Logger" where
  "Log i now component eventType d l =
    (let entry = new_entry i now component eventType d in (entry, append_entry entry l))"

definition Recent :: "int \<Rightarrow> Logger \<Rightarrow> Entry list" where
  "Recent n l =
    (if n \<le> 0 then []
     else (let m = (if n > int (length (entries l)) then length (entries l) else nat n)
           in map (\<lambda>i. entries l ! (length (entries l) - 1 - i)) [0..<m]))"

definition Search :: "string \<Rightarrow> string \<Rightarrow> Logger \<Rightarrow> Entry list" where
  "Search eventType component l =
    foldl (\<lambda>result e.
      if eventType \<noteq> [] \<and> EventType e \<noteq> eventType then result
      else if component \<noteq> [] \<and> Component e \<noteq> component then result
      else result @ [e]) [] (entries l)"

definition redacted_value :: val where "redacted_value = VStr ''[REDACTED]''"

definition redact_field :: "string \<Rightarrow> data \<Rightarrow> data" where
  "redact_field f d = (if map_of d f \<noteq> None then AList.update f redacted_value d else d)"

definition RedactEntry :: "string list \<Rightarrow> Entry \<Rightarrow> Entry" where
  "RedactEntry fs e =
    \<lparr> EntryID = EntryID e, Timestamp = Timestamp e, Component = Component e,
      EventType = EventType e,
      EData = (case EData e of None \<Rightarrow> None
               | Some d \<Rightarrow> Some (fold redact_field (remdups fs) d)),
      Redacted = True \<rparr>"

text \<open>\<open>Redact\<close> leaves the log alone: it has no new state.\<close>

definition Redact :: "string \<Rightarrow> string list \<Rightarrow> Logger \<Rightarrow> Entry option" where
  "Redact entryID fs l =
    (case filter (\<lambda>e. EntryID e = entryID) (entries l) of [] \<Rightarrow> None
     | e # _ \<Rightarrow> Some (RedactEntry fs e))"

section \<open>The contract of a bounded log\<close>

text \<open>
  A bounded log keeps the last \<open>cap\<close> items it is given. The client facts follow for every
  log with that law: what a burst of writes leaves, that the newest item is there, that
  nothing else appears, and that the order is the order of the writes.
\<close>

locale bounded_log =
  fixes push :: "'e \<Rightarrow> 's \<Rightarrow> 's" and items :: "'s \<Rightarrow> 'e list" and cap :: "'s \<Rightarrow> nat"
    and ok :: "'s \<Rightarrow> bool"
  assumes ok_cap: "ok s \<Longrightarrow> 0 < cap s \<and> length (items s) \<le> cap s"
    and push_ok: "ok s \<Longrightarrow> ok (push e s)"
    and push_cap: "cap (push e s) = cap s"
    and push_items: "ok s \<Longrightarrow> items (push e s) = last_n (cap s) (items s @ [e])"
begin

lemma pushes_cap: "cap (fold push es s) = cap s"
  by (induction es arbitrary: s) (simp_all add: push_cap)

lemma pushes_ok: "ok s \<Longrightarrow> ok (fold push es s)"
  by (induction es arbitrary: s) (simp_all add: push_ok)

lemma pushes_items: "ok s \<Longrightarrow> items (fold push es s) = last_n (cap s) (items s @ es)"
proof (induction es arbitrary: s)
  case Nil
  then show ?case using ok_cap by simp
next
  case (Cons e es)
  then show ?case
    using last_n_append_last_n [of "cap s" "items s @ [e]" es]
    by (simp add: push_ok push_cap push_items)
qed

lemma newest: "ok s \<Longrightarrow> items (push e s) \<noteq> [] \<and> last (items (push e s)) = e"
  using ok_cap [of s] by (simp add: push_items last_n_snoc)

lemma push_grows: "ok s \<Longrightarrow> length (items s) < cap s \<Longrightarrow> items (push e s) = items s @ [e]"
  by (simp add: push_items)

end

definition logger_ok :: "Logger \<Rightarrow> bool" where
  "logger_ok l = (0 < maxEntries l \<and> length (entries l) \<le> maxEntries l)"

lemma logger_ok_new [simp]: "logger_ok (NewLogger n)"
  by (auto simp: logger_ok_def NewLogger_def)

lemma append_entry_items:
  "logger_ok l \<Longrightarrow> entries (append_entry e l) = last_n (maxEntries l) (entries l @ [e])"
  by (auto simp: append_entry_def logger_ok_def last_n_def Let_def)

interpretation logger_ring: bounded_log append_entry entries maxEntries logger_ok
proof unfold_locales
  show "logger_ok l \<Longrightarrow> logger_ok (append_entry e l)" for l e
    by (auto simp: append_entry_def logger_ok_def Let_def)
  show "logger_ok l \<Longrightarrow> entries (append_entry e l) = last_n (maxEntries l) (entries l @ [e])" for l e
    by (rule append_entry_items)
qed (auto simp: append_entry_def logger_ok_def)

section \<open>What the readers return\<close>

lemma nth_rev_take:
  "m \<le> length xs \<Longrightarrow> map (\<lambda>i. xs ! (length xs - 1 - i)) [0..<m] = take m (rev xs)"
  by (rule nth_equalityI) (auto simp: rev_nth)

lemma Recent_rev: "Recent n l = take (nat n) (rev (entries l))"
proof -
  let ?m = "if n > int (length (entries l)) then length (entries l) else nat n"
  have "map (\<lambda>i. entries l ! (length (entries l) - 1 - i)) [0..<?m] = take ?m (rev (entries l))"
    by (rule nth_rev_take) auto
  then show ?thesis by (cases "n \<le> 0") (simp_all only: Recent_def Let_def if_False, auto)
qed

lemma Search_filter:
  "Search ev cmp l =
    filter (\<lambda>e. (ev = [] \<or> EventType e = ev) \<and> (cmp = [] \<or> Component e = cmp)) (entries l)"
proof -
  let ?P = "\<lambda>e. (ev = [] \<or> EventType e = ev) \<and> (cmp = [] \<or> Component e = cmp)"
  have eq: "(\<lambda>result e. if ev \<noteq> [] \<and> EventType e \<noteq> ev then result
      else if cmp \<noteq> [] \<and> Component e \<noteq> cmp then result else result @ [e])
    = (\<lambda>result e. if ?P e then result @ [e] else result)"
    by (auto simp: fun_eq_iff)
  show ?thesis unfolding Search_def eq foldl_append_filter by simp
qed

lemma fold_redact:
  "distinct fs \<Longrightarrow> map_of (fold redact_field fs d) k =
    (if k \<in> set fs \<and> map_of d k \<noteq> None then Some redacted_value else map_of d k)"
  by (induction fs arbitrary: d) (auto simp: redact_field_def)

lemma RedactEntry_data:
  "EData e = Some d \<Longrightarrow> \<exists>d'. EData (RedactEntry fs e) = Some d' \<and>
    map_of d' k = (if k \<in> set fs \<and> map_of d k \<noteq> None then Some redacted_value else map_of d k)"
  by (simp add: RedactEntry_def fold_redact)

lemmas [go_eval] = NewLogger_def new_entry_def append_entry_def Log_def Recent_def Search_def
  redacted_value_def redact_field_def RedactEntry_def Redact_def

lemma take_rev_last_n: "take k (rev (last_n c xs)) = take (min k c) (rev xs)"
proof (cases "c \<le> length xs")
  case False
  then show ?thesis by (cases "k \<le> c") (simp_all add: min_def)
qed (simp add: last_n_def rev_drop)

text \<open>A bounded log with the newest-first reader.\<close>

locale recent_log = bounded_log +
  fixes recent :: "int \<Rightarrow> 'b \<Rightarrow> 'a list"
  assumes recent_items: "recent n s = take (nat n) (rev (items s))"
begin

lemma recent_push: "ok s \<Longrightarrow> 0 < n \<Longrightarrow> recent n (push e s) \<noteq> [] \<and> hd (recent n (push e s)) = e"
  using newest [of s e] by (simp add: recent_items hd_rev)

lemma recent_pushes:
  "ok s \<Longrightarrow> recent n (fold push es s) = take (min (nat n) (cap s)) (rev (items s @ es))"
  by (simp only: recent_items pushes_items take_rev_last_n)

end

interpretation logger_recent: recent_log append_entry entries maxEntries logger_ok Recent
  by unfold_locales (rule Recent_rev)

section \<open>The persistent log\<close>

text \<open>A row of \<open>audit_entries\<close>; the table lists the rows by ascending \<open>rowid\<close>.\<close>

record Row =
  row_id :: string
  row_timestamp :: string
  row_component :: string
  row_event_type :: string
  row_data_json :: string
  row_redacted :: int

record PersistentLogger =
  mem :: Logger
  table :: "Row list"
  ringSize :: int

text \<open>\<open>encoding/json\<close> on the data maps, and whether SQLite accepts the insert.\<close>

record db_env =
  json_marshal :: "data option \<Rightarrow> string"
  json_unmarshal :: "string \<Rightarrow> data option"

text \<open>SQLite reads a negative \<open>LIMIT\<close> as no limit.\<close>

definition sql_last :: "int \<Rightarrow> Row list \<Rightarrow> Row list" where
  "sql_last n rows = (if n < 0 then rows else last_n (nat n) rows)"

definition entry_of_row :: "db_env \<Rightarrow> Row \<Rightarrow> Entry" where
  "entry_of_row D r =
    \<lparr> EntryID = row_id r, Timestamp = row_timestamp r, Component = row_component r,
      EventType = row_event_type r,
      EData = (case json_unmarshal D (row_data_json r) of None \<Rightarrow> Some [] | Some d \<Rightarrow> Some d),
      Redacted = (row_redacted r \<noteq> 0) \<rparr>"

definition row_of_entry :: "db_env \<Rightarrow> Entry \<Rightarrow> Row" where
  "row_of_entry D e =
    \<lparr> row_id = EntryID e, row_timestamp = Timestamp e, row_component = Component e,
      row_event_type = EventType e, row_data_json = json_marshal D (EData e),
      row_redacted = (if Redacted e then 1 else 0) \<rparr>"

text \<open>\<open>query_ok\<close>: the select succeeds; on an error the buffer stays empty.\<close>

definition replayFromDB :: "db_env \<Rightarrow> bool \<Rightarrow> PersistentLogger \<Rightarrow> PersistentLogger" where
  "replayFromDB D query_ok pl =
    (if \<not> query_ok then pl
     else (let es = entries (mem pl) @ map (entry_of_row D) (sql_last (ringSize pl) (table pl))
           in pl\<lparr> mem := (mem pl)\<lparr> entries :=
                (if int (length es) > ringSize pl then last_n (nat (ringSize pl)) es else es) \<rparr> \<rparr>))"

definition NewPersistentLogger :: "db_env \<Rightarrow> bool \<Rightarrow> Row list \<Rightarrow> int \<Rightarrow> PersistentLogger" where
  "NewPersistentLogger D query_ok rows n =
    replayFromDB D query_ok \<lparr> mem = NewLogger n, table = rows, ringSize = n \<rparr>"

text \<open>The insert fails when SQLite refuses the write or the primary key exists.\<close>

definition persist :: "db_env \<Rightarrow> bool \<Rightarrow> Entry \<Rightarrow> PersistentLogger \<Rightarrow> PersistentLogger" where
  "persist D write_ok e pl =
    (if \<not> write_ok \<or> EntryID e \<in> row_id ` set (table pl) then pl
     else (let rows = table pl @ [row_of_entry D e]
           in pl\<lparr> table := (if int (length rows) > ringSize pl * 2
                             then sql_last (ringSize pl) rows else rows) \<rparr>))"

definition Persistent_Add ::
  "db_env \<Rightarrow> string \<Rightarrow> instant \<Rightarrow> bool \<Rightarrow> Entry \<Rightarrow> PersistentLogger \<Rightarrow> PersistentLogger" where
  "Persistent_Add D i now write_ok e pl =
    (let (saved, m) = Log i now (Component e) (EventType e) (EData e) (mem pl)
     in persist D write_ok saved (pl\<lparr> mem := m \<rparr>))"

definition persistent_ok :: "PersistentLogger \<Rightarrow> bool" where
  "persistent_ok pl =
    (0 < ringSize pl \<and> maxEntries (mem pl) = nat (ringSize pl) \<and> logger_ok (mem pl)
     \<and> int (length (table pl)) \<le> 2 * ringSize pl \<and> distinct (map row_id (table pl)))"

lemma last_n_distinct: "distinct (map f xs) \<Longrightarrow> distinct (map f (last_n n xs))"
  by (simp add: last_n_def drop_map [symmetric])

lemma NewPersistentLogger_ok:
  assumes "0 < n" "int (length rows) \<le> 2 * n" "distinct (map row_id rows)"
  shows "persistent_ok (NewPersistentLogger D qok rows n)"
  using assms
  by (auto simp: NewPersistentLogger_def replayFromDB_def persistent_ok_def logger_ok_def
      NewLogger_def sql_last_def Let_def)

lemma persist_ok:
  "persistent_ok pl \<Longrightarrow> persistent_ok (persist D wok e pl)"
  by (auto simp: persist_def persistent_ok_def sql_last_def Let_def row_of_entry_def
      intro!: last_n_distinct)

lemma persist_mem [simp]: "mem (persist D wok e pl) = mem pl" "ringSize (persist D wok e pl) = ringSize pl"
  by (simp_all add: persist_def Let_def)

lemma Persistent_Add_ok: "persistent_ok pl \<Longrightarrow> persistent_ok (Persistent_Add D i now wok e pl)"
proof -
  assume ok: "persistent_ok pl"
  let ?m = "append_entry (new_entry i now (Component e) (EventType e) (EData e)) (mem pl)"
  have "persistent_ok (pl\<lparr> mem := ?m \<rparr>)"
    using ok logger_ring.push_ok [of "mem pl"] logger_ring.push_cap
    by (simp add: persistent_ok_def)
  then show ?thesis by (simp add: Persistent_Add_def Log_def Let_def persist_ok)
qed

lemma NewPersistentLogger_logger:
  assumes "0 < n"
  shows "logger_ok (mem (NewPersistentLogger D qok rows n))"
  using assms
  by (auto simp: NewPersistentLogger_def replayFromDB_def logger_ok_def NewLogger_def sql_last_def Let_def)

text \<open>A restart replays the entries a running log would still show.\<close>

lemma replay_entries:
  "0 < n \<Longrightarrow> entries (mem (NewPersistentLogger D True rows n))
    = map (entry_of_row D) (last_n (nat n) rows)"
  by (auto simp: NewPersistentLogger_def replayFromDB_def NewLogger_def sql_last_def Let_def)

lemmas [go_eval] = sql_last_def entry_of_row_def row_of_entry_def replayFromDB_def
  NewPersistentLogger_def persist_def Persistent_Add_def

section \<open>Properties\<close>

text \<open>One call of \<open>Log\<close>, with the identifier and clock reading it draws, and the entry it makes.\<close>

fun log_call :: "string \<times> instant \<times> string \<times> string \<times> data option \<Rightarrow> Logger \<Rightarrow> Logger" where
  "log_call (i, now, component, eventType, d) l = snd (Log i now component eventType d l)"

fun call_entry :: "string \<times> instant \<times> string \<times> string \<times> data option \<Rightarrow> Entry" where
  "call_entry (i, now, component, eventType, d) = new_entry i now component eventType d"

lemma log_calls: "fold log_call calls l = fold append_entry (map call_entry calls) l"
  by (induction calls arbitrary: l) (auto simp: Log_def Let_def)

text \<open>
  C26: the log is a ring buffer: after any burst of entries, longer than its capacity or
  not, it holds exactly the last of everything logged, up to its capacity and in order;
  Recent gives the newest ones newest first, and Search those of the given event type and
  component in order.
\<close>

theorem log_is_a_ring:
  assumes "logger_ok l"
  shows "let l' = fold log_call calls l; es = entries l @ map call_entry calls
    in entries l' = drop (length es - maxEntries l) es
     \<and> Recent n l' = take (min (nat n) (maxEntries l)) (rev es)
     \<and> Search ev cmp l' = filter (\<lambda>e. (ev = [] \<or> EventType e = ev) \<and> (cmp = [] \<or> Component e = cmp))
         (drop (length es - maxEntries l) es)
     \<and> logger_ok l' \<and> maxEntries l' = maxEntries l"
  using logger_ring.pushes_items [OF assms] logger_recent.recent_pushes [OF assms]
    logger_ring.pushes_ok [OF assms] logger_ring.pushes_cap [of _ l]
  by (simp add: log_calls Search_filter last_n_def Let_def)

definition demo_entry :: "string \<Rightarrow> Entry" where
  "demo_entry i = \<lparr> EntryID = i, Timestamp = [], Component = [], EventType = ''allow'',
     EData = Some [(''host'', VStr ''a.io''), (''url'', VStr ''u'')], Redacted = False \<rparr>"

theorem log_is_a_ring_witness:
  "map EntryID (entries (fold log_call [(''1'', 0, ''p'', ''allow'', None), (''2'', 1, ''p'', ''deny'', None),
       (''3'', 2, ''p'', ''allow'', None)] (NewLogger 2))) = [''2'', ''3'']
   \<and> map EntryID (Recent 9 (fold log_call [(''1'', 0, ''p'', ''allow'', None), (''2'', 1, ''p'', ''deny'', None),
       (''3'', 2, ''p'', ''allow'', None)] (NewLogger 2))) = [''3'', ''2'']"
  using log_is_a_ring [of "NewLogger 2" "[(''1'', 0, ''p'', ''allow'', None), (''2'', 1, ''p'', ''deny'', None),
       (''3'', 2, ''p'', ''allow'', None)]" 9 "[]" "[]"]
  by (simp add: NewLogger_def logger_ok_def new_entry_def Let_def numeral_2_eq_2)

definition redacted_data :: "string list \<Rightarrow> data \<Rightarrow> data \<Rightarrow> bool" where
  "redacted_data fs d d' = (\<forall>k. map_of d' k =
     (if k \<in> set fs \<and> map_of d k \<noteq> None then Some redacted_value else map_of d k))"

lemma RedactEntry_redacted:
  "rel_option (redacted_data fs) (EData e) (EData (RedactEntry fs e))"
  using fold_redact [of "remdups fs"]
  by (cases "EData e") (simp_all add: RedactEntry_def redacted_data_def)

lemma find_Some_filter: "find P xs = Some x \<Longrightarrow> \<exists>ys. filter P xs = x # ys"
  by (induction xs) (auto split: if_splits)

text \<open>
  redacting an entry yields a copy of the first entry with that id, marked redacted, in
  which exactly the named fields that exist read [REDACTED]; there is no result exactly when
  there is no such entry.
\<close>

theorem redaction:
  "rel_option (\<lambda>e e'. Redacted e' \<and> EntryID e' = i \<and> EventType e' = EventType e
       \<and> rel_option (redacted_data fs) (EData e) (EData e'))
     (find (\<lambda>e. EntryID e = i) (entries l)) (Redact i fs l)"
proof (cases "find (\<lambda>e. EntryID e = i) (entries l)")
  case None
  then have "filter (\<lambda>e. EntryID e = i) (entries l) = []"
    by (simp add: find_None_iff filter_empty_conv)
  with None show ?thesis by (simp add: Redact_def)
next
  case (Some e)
  then have "EntryID e = i" by (auto simp: find_Some_iff)
  moreover have "\<exists>es. filter (\<lambda>e. EntryID e = i) (entries l) = e # es"
    by (rule find_Some_filter [OF Some])
  ultimately show ?thesis using Some RedactEntry_redacted [of fs e]
    by (auto simp: Redact_def RedactEntry_def)
qed

text \<open>
  adding to the persistent log keeps its invariant: at most the ring size in memory, at
  most twice the ring size in the table, and unique row ids.
\<close>

theorem persistent_log_bounded:
  assumes "persistent_ok pl"
  shows "persistent_ok (Persistent_Add D i t wok e pl)
    \<and> length (entries (mem (Persistent_Add D i t wok e pl))) \<le> nat (ringSize pl)
    \<and> int (length (table (Persistent_Add D i t wok e pl))) \<le> 2 * ringSize pl"
  using Persistent_Add_ok [OF assms, of D i t wok e]
  by (auto simp: persistent_ok_def logger_ok_def Persistent_Add_def persist_mem Let_def split: prod.splits)

theorem persistent_log_bounded_witness:
  "length (entries (mem (Persistent_Add \<lparr> json_marshal = (\<lambda>_. []), json_unmarshal = (\<lambda>_. None) \<rparr> ''1'' 0 True
      (demo_entry []) \<lparr> mem = NewLogger 2, table = [], ringSize = 2 \<rparr>))) \<le> 2"
  using persistent_log_bounded [of "\<lparr> mem = NewLogger 2, table = [], ringSize = 2 \<rparr>"
     "\<lparr> json_marshal = (\<lambda>_. []), json_unmarshal = (\<lambda>_. None) \<rparr>" "''1''" 0 True "demo_entry []"]
  by (simp add: persistent_ok_def NewLogger_def logger_ok_def)

end
