(* ===== verification/Killswitch.thy ===== *)
theory Killswitch
  imports Go_Time
begin

text \<open>
  \<open>internal/killswitch/killswitch.go\<close>: the kill switch. \<open>Switch\<close> has the fields of the
  source (the zero \<open>time.Time\<close> is \<open>None\<close>); each operation runs under the lock of the switch,
  so it is one step. The step relation \<open>ks_step\<close> collects the two operations that change the
  state, and the abstract specification reads the holder off the history of operations.
\<close>

section \<open>State and operations\<close>

record Switch =
  activated :: bool
  activatedAt :: "instant option"
  activatedBy :: string

record KillSwitchStatus =
  Active :: bool
  ActivatedAt :: string
  ActivatedBy :: string

definition new_switch :: Switch where
  "new_switch = \<lparr> activated = False, activatedAt = None, activatedBy = [] \<rparr>"

definition Activate :: "instant \<Rightarrow> string \<Rightarrow> Switch \<Rightarrow> Switch" where
  "Activate now who s =
    (if activated s then s
     else s\<lparr> activated := True, activatedAt := Some now, activatedBy := who \<rparr>)"

definition Deactivate :: "Switch \<Rightarrow> Switch" where
  "Deactivate s = s\<lparr> activated := False, activatedAt := None, activatedBy := [] \<rparr>"

definition IsActive :: "Switch \<Rightarrow> bool" where
  "IsActive s = activated s"

text \<open>\<open>off\<close> is the zone of \<open>time.Now\<close>. The zero time prints as year 1.\<close>

definition format_at :: "int \<Rightarrow> instant option \<Rightarrow> string" where
  "format_at off t = (case t of Some n \<Rightarrow> rfc3339 off n | None \<Rightarrow> ''0001-01-01T00:00:00Z'')"

definition Status :: "int \<Rightarrow> Switch \<Rightarrow> KillSwitchStatus" where
  "Status off s =
    (if activated s
     then \<lparr> Active = activated s, ActivatedAt = format_at off (activatedAt s),
            ActivatedBy = activatedBy s \<rparr>
     else \<lparr> Active = activated s, ActivatedAt = [], ActivatedBy = [] \<rparr>)"

definition switch_string :: "(string \<Rightarrow> string) \<Rightarrow> int \<Rightarrow> Switch \<Rightarrow> string" where
  "switch_string quote off s =
    (if \<not> activated s then ''kill-switch: inactive''
     else ''kill-switch: active (activated by '' @ quote (activatedBy s) @ '' at ''
          @ format_at off (activatedAt s) @ '')'')"

section \<open>The state machine\<close>

datatype ks_event = EvActivate instant string | EvDeactivate

fun ks_apply :: "ks_event \<Rightarrow> Switch \<Rightarrow> Switch" where
  "ks_apply (EvActivate now who) s = Activate now who s"
| "ks_apply EvDeactivate s = Deactivate s"

definition ks_run :: "ks_event list \<Rightarrow> Switch" where
  "ks_run evs = fold ks_apply evs new_switch"

inductive ks_step :: "Switch \<Rightarrow> Switch \<Rightarrow> bool" where
  activate: "\<not> activated s \<Longrightarrow>
    ks_step s \<lparr> activated = True, activatedAt = Some now, activatedBy = who \<rparr>"
| deactivate: "ks_step s new_switch"

inductive_simps ks_step_from_active: "ks_step \<lparr> activated = True, activatedAt = t, activatedBy = b \<rparr> s'"
inductive_cases ks_stepE: "ks_step s s'"

text \<open>Each operation is a step of the relation or leaves the switch as it is.\<close>

lemma ks_apply_step: "ks_apply ev s = s \<or> ks_step s (ks_apply ev s)"
proof (cases ev)
  case (EvActivate now who)
  then show ?thesis
    using ks_step.activate [of s now who] by (cases s) (auto simp: Activate_def)
next
  case EvDeactivate
  then show ?thesis using ks_step.deactivate [of s] by (cases s) (auto simp: Deactivate_def new_switch_def)
qed

text \<open>The metadata is there exactly while the switch is active.\<close>

definition switch_ok :: "Switch \<Rightarrow> bool" where
  "switch_ok s = (if activated s then activatedAt s \<noteq> None
                  else activatedAt s = None \<and> activatedBy s = [])"

lemma ks_step_ok: "ks_step s s' \<Longrightarrow> switch_ok s'"
  by (induction rule: ks_step.induct) (simp_all add: switch_ok_def new_switch_def)

text \<open>From an active switch the only way on is the full reset.\<close>

lemma ks_step_active: "ks_step s s' \<Longrightarrow> activated s \<Longrightarrow> s' = new_switch"
  by (erule ks_stepE) simp_all

section \<open>The abstract specification\<close>

text \<open>The first activation after the last deactivation holds the switch.\<close>

definition session :: "ks_event list \<Rightarrow> ks_event list" where
  "session evs = rev (takeWhile (\<lambda>ev. ev \<noteq> EvDeactivate) (rev evs))"

definition holder :: "ks_event list \<Rightarrow> ks_event option" where
  "holder evs = (case session evs of [] \<Rightarrow> None | ev # _ \<Rightarrow> Some ev)"

definition holds :: "ks_event option \<Rightarrow> Switch" where
  "holds h = (case h of Some (EvActivate now who) \<Rightarrow>
      \<lparr> activated = True, activatedAt = Some now, activatedBy = who \<rparr> | _ \<Rightarrow> new_switch)"

lemma session_snoc:
  "session (evs @ [EvDeactivate]) = []"
  "session (evs @ [EvActivate now who]) = session evs @ [EvActivate now who]"
  by (simp_all add: session_def)

lemma session_active: "ev \<in> set (session evs) \<Longrightarrow> ev \<noteq> EvDeactivate"
  by (auto simp: session_def dest: set_takeWhileD)

lemma ks_run_holds: "ks_run evs = holds (holder evs)"
proof (induction evs rule: rev_induct)
  case Nil
  then show ?case by (simp add: ks_run_def holder_def session_def holds_def)
next
  case (snoc ev evs)
  have run: "ks_run (evs @ [ev]) = ks_apply ev (ks_run evs)" by (simp add: ks_run_def)
  show ?case
  proof (cases ev)
    case (EvActivate now who)
    show ?thesis
    proof (cases "session evs")
      case Nil
      then show ?thesis using run snoc EvActivate
        by (simp add: holder_def session_snoc holds_def Activate_def new_switch_def)
    next
      case (Cons h r)
      then have "h \<noteq> EvDeactivate" using session_active [of h evs] by simp
      then obtain t b where "h = EvActivate t b" by (cases h) auto
      then show ?thesis using run snoc EvActivate Cons
        by (simp add: holder_def session_snoc holds_def Activate_def)
    qed
  next
    case EvDeactivate
    then show ?thesis using run
      by (simp add: holder_def session_snoc holds_def Deactivate_def new_switch_def)
  qed
qed

section \<open>The contract of a gate\<close>

text \<open>
  What the users of a kill switch rely on: closing it closes it whatever came before, closing
  it twice is closing it once, and only opening it opens it.
\<close>

locale kill_gate =
  fixes close :: "instant \<Rightarrow> string \<Rightarrow> 's \<Rightarrow> 's" and open_again :: "'s \<Rightarrow> 's"
    and closed :: "'s \<Rightarrow> bool"
  assumes close_closed: "closed (close now who s)"
    and close_twice: "close now' who' (close now who s) = close now who s"
    and open_opens: "\<not> closed (open_again s)"
begin

lemma close_many: "ws \<noteq> [] \<Longrightarrow>
   fold (\<lambda>(now, who). close now who) ws s = (case hd ws of (now, who) \<Rightarrow> close now who s)"
proof (induction ws rule: rev_induct)
  case (snoc w ws)
  then show ?case by (cases "ws = []") (auto simp: close_twice split: prod.splits)
qed simp

lemma stays_closed: "ws \<noteq> [] \<Longrightarrow> closed (fold (\<lambda>(now, who). close now who) ws s)"
  by (simp add: close_many close_closed split: prod.splits)

end

interpretation switch_gate: kill_gate Activate Deactivate IsActive
  by unfold_locales (simp_all add: Activate_def Deactivate_def IsActive_def)

lemmas [go_eval] = new_switch_def Activate_def Deactivate_def IsActive_def format_at_def Status_def

section \<open>Properties\<close>

text \<open>
  C23: after any history of operations the switch is in the state the abstract specification
  reads off the history: held by the first activation since the last deactivation, with its
  time and name, or off.
\<close>

theorem kill_switch_refines_history:
  "ks_run evs = holds (holder evs) \<and> switch_ok (ks_run evs)
   \<and> (IsActive (ks_run evs) \<longleftrightarrow> session evs \<noteq> [])"
proof -
  have "ks_run evs = holds (holder evs)" by (rule ks_run_holds)
  moreover have "\<And>ev rest. session evs = ev # rest \<Longrightarrow> ev \<noteq> EvDeactivate"
    using session_active [of _ evs] by auto
  ultimately show ?thesis
    by (auto simp: holds_def holder_def switch_ok_def new_switch_def IsActive_def
        split: list.splits ks_event.splits)
qed

end
