(* ===== verification/Go_Http.thy ===== *)
theory Go_Http
  imports Go_Url
begin

text \<open>
  The part of \<open>net/http\<close> the proxy uses on its own data: header maps with canonical keys, the
  address a transport dials for a URL, and requests and responses as records. Headers are
  association lists from canonical key to values.
\<close>

section \<open>Header keys\<close>

definition token_extra :: string where
  "token_extra = ''!#$%&*+-.^_|~'' @ [char_of (39::nat), char_of (96::nat)]"

definition is_token_char :: "char \<Rightarrow> bool" where
  "is_token_char c = (is_alnum c \<or> c \<in> set token_extra)"

definition upper_char :: "char \<Rightarrow> char" where
  "upper_char c = (let n = byte c in if 97 \<le> n \<and> n \<le> 122 then char_of (n - 32) else c)"

fun canonical_from :: "bool \<Rightarrow> string \<Rightarrow> string" where
  "canonical_from up [] = []"
| "canonical_from up (c # s) =
    (if up then upper_char c else lower_char c) # canonical_from (c = CHR ''-'') s"

text \<open>\<open>textproto.CanonicalMIMEHeaderKey\<close>: a key with an invalid byte stays as it is.\<close>

definition canonical_key :: "string \<Rightarrow> string" where
  "canonical_key s = (if list_all is_token_char s then canonical_from True s else s)"

type_synonym header = "(string, string list) gomap"

definition header_values :: "string \<Rightarrow> header \<Rightarrow> string list" where
  "header_values k h = (case map_of h (canonical_key k) of None \<Rightarrow> [] | Some vs \<Rightarrow> vs)"

definition header_add :: "string \<Rightarrow> string \<Rightarrow> header \<Rightarrow> header" where
  "header_add k v h = AList.update (canonical_key k) (header_values k h @ [v]) h"

definition header_del :: "string \<Rightarrow> header \<Rightarrow> header" where
  "header_del k h = AList.delete (canonical_key k) h"

text \<open>\<open>for key, values := range src { for _, v := range values { dst.Add(key, v) } }\<close>\<close>

definition header_copy :: "header \<Rightarrow> header \<Rightarrow> header" where
  "header_copy src dst = fold (\<lambda>(k, vs) d. fold (header_add k) vs d) src dst"

lemma map_of_header_del [simp]:
  "map_of (header_del k h) j = (if j = canonical_key k then None else map_of h j)"
  by (simp add: header_del_def)

lemma fold_header_del:
  "map_of (fold header_del ks h) j = (if j \<in> canonical_key ` set ks then None else map_of h j)"
  by (induction ks arbitrary: h) auto

lemma fold_header_add_other:
  "j \<noteq> canonical_key k \<Longrightarrow> map_of (fold (header_add k) vs h) j = map_of h j"
  by (induction vs arbitrary: h) (simp_all add: header_add_def)

lemma header_copy_keys:
  "map_of (header_copy src dst) j \<noteq> None \<Longrightarrow>
   map_of dst j \<noteq> None \<or> j \<in> canonical_key ` fst ` set src"
proof (induction src arbitrary: dst)
  case (Cons kv src)
  obtain k vs where kv: "kv = (k, vs)" by (cases kv)
  have "map_of (header_copy src (fold (header_add k) vs dst)) j \<noteq> None"
    using Cons.prems kv by (simp add: header_copy_def)
  from Cons.IH [OF this] show ?case
    using fold_header_add_other [of j k vs dst] kv by auto
qed (simp add: header_copy_def)

text \<open>A header as the server hands it over: its keys are canonical.\<close>

definition canonical_header :: "header \<Rightarrow> bool" where
  "canonical_header h = (\<forall>k\<in>fst ` set h. canonical_key k = k)"

section \<open>The address of a URL\<close>

text \<open>
  \<open>canonicalAddr\<close> of the transport. \<open>lk\<close> is \<open>idna.Lookup.ToASCII\<close>, applied to a host
  that is not ASCII; an ASCII host is used as it is, upper case included.
\<close>

definition default_port :: "string \<Rightarrow> string" where
  "default_port s = (if s = ''http'' then ''80'' else if s = ''https'' then ''443''
     else if s = ''socks5'' \<or> s = ''socks5h'' then ''1080'' else [])"

definition canonical_host :: "(string \<Rightarrow> string option) \<Rightarrow> url \<Rightarrow> string" where
  "canonical_host lk u =
    (let h = hostname u
     in if is_ascii h then h else (case lk h of Some a \<Rightarrow> a | None \<Rightarrow> h))"

definition canonical_addr :: "(string \<Rightarrow> string option) \<Rightarrow> url \<Rightarrow> string" where
  "canonical_addr lk u =
    join_host_port (canonical_host lk u)
      (if url_port u = [] then default_port (scheme u) else url_port u)"

text \<open>\<open>http.NewRequest\<close> drops a colon with no port behind it from the host of the URL.\<close>

definition has_port :: "string \<Rightarrow> bool" where
  "has_port s = (case last_index_byte s (CHR '':'') of None \<Rightarrow> False
     | Some i \<Rightarrow> (case last_index_byte s (CHR '']'') of None \<Rightarrow> True | Some j \<Rightarrow> j < i))"

definition removeEmptyPort :: "string \<Rightarrow> string" where
  "removeEmptyPort s = (if has_port s then trim_suffix s '':'' else s)"

section \<open>Requests and responses\<close>

record request =
  req_method :: string
  req_url :: url
  req_host :: string
  req_tls :: bool
  req_header :: header
  req_body :: string
  req_hijackable :: bool   \<comment> \<open>the response writer is an \<open>http.Hijacker\<close>\<close>

record http_response =
  status :: int
  resp_header :: header
  resp_body :: string

lemmas [go_eval] = token_extra_def is_token_char_def upper_char_def canonical_key_def
  header_values_def header_add_def header_del_def header_copy_def default_port_def
  canonical_host_def canonical_addr_def has_port_def removeEmptyPort_def

end
