(* ===== verification/Proxy.thy ===== *)
theory Proxy
  imports Scope Ratelimit Audit_Log Killswitch Go_Http
begin

text \<open>
  \<open>internal/proxy/proxy.go\<close>: the scope-enforcing gateway. \<open>Proxy\<close> is the state the source
  embeds (engine, limiter, log, kill switch, pinned addresses) with a trace of what leaves the
  process: DNS lookups, dials, outgoing requests. What the process does not decide is in
  \<open>penv\<close>: the answers of DNS and of the upstream servers, the key a map iteration yields
  first, the clock readings. Every handler is one function with the checks in the order of
  the source.
\<close>

section \<open>Environment and state\<close>

datatype dial =
    DialPinned string    \<comment> \<open>\<open>ip:port\<close>, the address a validation resolved\<close>
  | DialSystem string    \<comment> \<open>\<open>host:port\<close>, resolved by the system at dial time\<close>
  | DialOverride string  \<comment> \<open>handed to \<open>dialFn\<close>\<close>

text \<open>
  What leaves the process. A connection is recorded with what it is for: the URL the client is
  about to request, or the host and port of a tunnel. \<open>EvProbe\<close> is a lookup of \<open>CheckURL\<close>, which
  resolves a host in order to answer a question about it; \<open>EvOutgoing\<close> is the request as built.
\<close>

datatype event =
    EvLookup string
  | EvProbe string
  | EvOutgoing string header
  | EvDial url dial
  | EvTunnel string int dial
  | EvSend url

text \<open>What comes back for one request of the client; a redirect carries the resolved target.\<close>

datatype hop = HopErr string | HopDone http_response | HopRedirect url http_response

text \<open>
  The reasons of the source with their arguments; \<open>msg\<close> of the environment is their text
  (the \<open>Sprintf\<close> formats), which only the log stores.
\<close>

datatype parse_err = HostMismatch string string | BadURL url_err | MissingHost | NormalizeError url_err

datatype redirect_err =
    RedirectMissingHost
  | RedirectScheme string
  | RedirectPort string
  | RedirectScope Scope.reason
  | RedirectPath string
  | RedirectDNS string
  | RedirectBlocked string

datatype deny_reason =
    KillSwitchActive
  | InvalidRequest parse_err
  | TestingDisabled
  | SchemeDenied string
  | PortDenied string
  | HostDenied Scope.reason
  | PathDenied string
  | DNSFailed string string
  | ResolvesBlocked string string
  | RateExceeded string
  | InvalidAuthority string addr_err
  | NotHijacker
  | HijackFailed string
  | OutgoingFailed
  | ForwardError string
  | RedirectError redirect_err

record penv =
  tenv :: text_env
  dns :: "nat \<Rightarrow> string \<Rightarrow> (string, string list) result"
  evict :: "nat \<Rightarrow> nat"
  upstream :: "nat \<Rightarrow> dial \<Rightarrow> url \<Rightarrow> hop"
  msg :: "deny_reason \<Rightarrow> string"
  tunnel_ok :: "dial \<Rightarrow> bool"
  hijack_err :: "string option"
  write_200_ok :: bool
  valid_method :: "string \<Rightarrow> bool"
  rl_clock :: "instant \<times> instant \<times> instant"
  log_id :: string
  log_now :: instant

record ProxyConfig =
  ListenAddr :: string
  ProgramID :: string
  ScopeCfg :: ScopeConfig
  PLimits :: LimitsConfig
  PSchemes :: "string list"
  PPorts :: "int list"
  DryRun :: bool
  TestingEnabled :: bool

record Proxy =
  engine :: Engine
  limiter :: PerHostLimiter
  plog :: Logger
  switch :: Switch
  pconf :: ProxyConfig
  resolvedIPs :: "(string, string list) gomap"
  dialFn :: bool           \<comment> \<open>a dial function is installed\<close>
  lookups :: nat
  stores :: nat
  sends :: nat
  trace :: "event list"

definition maxResolvedIPs :: nat where "maxResolvedIPs = 10000"

definition NewProxy :: "ProxyConfig \<Rightarrow> Logger option \<Rightarrow> Proxy" where
  "NewProxy cfg persistent =
    \<lparr> engine = NewEngine (ProgramID cfg) (ScopeCfg cfg),
      limiter = NewPerHostLimiter (RequestsPerSecondPerHost (PLimits cfg))
                  (RequestsPerSecondPerHost (PLimits cfg)),
      plog = (case persistent of None \<Rightarrow> NewLogger 10000 | Some l \<Rightarrow> l),
      switch = new_switch,
      pconf = cfg\<lparr> PSchemes := (if PSchemes cfg = [] then [''https''] else PSchemes cfg),
                   PPorts := (if PPorts cfg = [] then [443] else PPorts cfg) \<rparr>,
      resolvedIPs = [], dialFn = False, lookups = 0, stores = 0, sends = 0, trace = [] \<rparr>"

text \<open>\<open>SetDialOverride(nil)\<close> installs \<open>net.DialTimeout\<close>: a dial function is set either way.\<close>

definition SetDialOverride :: "Proxy \<Rightarrow> Proxy" where
  "SetDialOverride p = p\<lparr> dialFn := True \<rparr>"

definition emit :: "event \<Rightarrow> Proxy \<Rightarrow> Proxy" where
  "emit ev p = p\<lparr> trace := trace p @ [ev] \<rparr>"

text \<open>The eviction deletes the key a \<open>range\<close> yields first; the choice is the environment's.\<close>

definition evict_one :: "penv \<Rightarrow> nat \<Rightarrow> (string, string list) gomap \<Rightarrow> (string, string list) gomap" where
  "evict_one E n m = (if m = [] then m else AList.delete (fst (m ! (evict E n mod length m))) m)"

definition storeResolvedIPs :: "penv \<Rightarrow> string \<Rightarrow> string list \<Rightarrow> Proxy \<Rightarrow> Proxy" where
  "storeResolvedIPs E h ips p =
    (let m = (if length (resolvedIPs p) \<ge> maxResolvedIPs then evict_one E (stores p) (resolvedIPs p)
              else resolvedIPs p)
     in p\<lparr> resolvedIPs := AList.update h ips m, stores := Suc (stores p) \<rparr>)"

section \<open>The safety layers\<close>

definition CheckKillSwitch :: "Proxy \<Rightarrow> bool" where
  "CheckKillSwitch p = IsActive (switch p)"

definition ParseAndNormalizeURL :: "penv \<Rightarrow> request \<Rightarrow> (parse_err, url \<times> string) result" where
  "ParseAndNormalizeURL E r =
    (let u = req_url r;
         sch = (if scheme u = [] then (if req_tls r then ''https'' else ''http'') else scheme u)
     in if scheme u \<noteq> [] \<and> host u \<noteq> [] \<and> req_host r \<noteq> [] \<and> host u \<noteq> req_host r
        then Inl (HostMismatch (req_host r) (host u))
        else (let raw = sch @ ''://'' @ req_host r @ request_uri u in
          case url_parse raw of
            Inl e \<Rightarrow> Inl (BadURL e)
          | Inr parsed \<Rightarrow>
            if hostname parsed = [] then Inl MissingHost
            else (case URL (tenv E) raw of
                Inl e \<Rightarrow> Inl (NormalizeError e)
              | Inr normalized \<Rightarrow> Inr (parsed, normalized))))"

definition ValidateScheme :: "Proxy \<Rightarrow> string \<Rightarrow> bool" where
  "ValidateScheme p s = (PSchemes (pconf p) = [] \<or> s \<in> set (PSchemes (pconf p)))"

definition ValidatePort :: "Proxy \<Rightarrow> string \<Rightarrow> string \<Rightarrow> int \<times> bool" where
  "ValidatePort p portStr s =
    (case (if portStr = [] then Some (if s = ''https'' then 443 else 80)
           else (case atoi portStr of None \<Rightarrow> None
                 | Some n \<Rightarrow> if n \<le> 0 \<or> n > 65535 then None else Some n)) of
       None \<Rightarrow> (0, False)
     | Some portInt \<Rightarrow>
       if PPorts (pconf p) = [] then (portInt, True)
       else (portInt, portInt \<in> set (PPorts (pconf p))))"

definition CheckHostScope :: "penv \<Rightarrow> Proxy \<Rightarrow> string \<Rightarrow> bool \<times> Scope.reason" where
  "CheckHostScope E p h =
    (let dec = IsHostInScope (tenv E) (engine p) h in (InScope dec, Reason dec))"

definition CheckPathExclusion :: "penv \<Rightarrow> Proxy \<Rightarrow> string \<Rightarrow> string \<Rightarrow> bool" where
  "CheckPathExclusion E p h pth =
    list_ex (\<lambda>r. RuleType r = ''path_prefix''
      \<and> (let ruleHost = Host (tenv E) (RuleHost r)
         in (ruleHost = [] \<or> equal_fold (tenv E) h ruleHost) \<and> has_prefix pth (RuleValue r)))
      (Exclude (ScopeCfg (pconf p)))"

definition LookupHost :: "penv \<Rightarrow> string \<Rightarrow> Proxy \<Rightarrow> (string, string list) result \<times> Proxy" where
  "LookupHost E h p = (dns E (lookups p) h, emit (EvLookup h) (p\<lparr> lookups := Suc (lookups p) \<rparr>))"

definition ProbeHost :: "penv \<Rightarrow> string \<Rightarrow> Proxy \<Rightarrow> (string, string list) result \<times> Proxy" where
  "ProbeHost E h p = (dns E (lookups p) h, emit (EvProbe h) (p\<lparr> lookups := Suc (lookups p) \<rparr>))"

text \<open>The package's own copy of the address check.\<close>

definition proxy_blockedCIDRs :: "string list" where
  "proxy_blockedCIDRs =
    [''127.0.0.0/8'', ''::1/128'', ''169.254.0.0/16'', ''fe80::/10'', ''fc00::/7'',
     ''224.0.0.0/4'', ''ff00::/8'', ''100.64.0.0/10'', ''10.0.0.0/8'', ''172.16.0.0/12'',
     ''192.168.0.0/16'', ''0.0.0.0/8'', ''240.0.0.0/4'', ''198.18.0.0/15'', ''192.0.2.0/24'',
     ''198.51.100.0/24'', ''203.0.113.0/24'', ''169.254.169.254/32'']"

definition proxy_isBlockedIP :: "ip option \<Rightarrow> bool" where
  "proxy_isBlockedIP ip0 =
    (case ip0 of None \<Rightarrow> True
     | Some orig \<Rightarrow>
       (let a = (case to4 orig of Some b \<Rightarrow> b
                 | None \<Rightarrow> (case to16 orig of Some b \<Rightarrow> b | None \<Rightarrow> []))
        in list_ex (\<lambda>cidr. case parse_cidr cidr of None \<Rightarrow> False | Some n \<Rightarrow> net_contains n a)
             proxy_blockedCIDRs))"

definition ValidateIPs :: "string list \<Rightarrow> string option" where
  "ValidateIPs ips = find (\<lambda>s. proxy_isBlockedIP (parse_ip s)) ips"

definition CheckRateLimit :: "penv \<Rightarrow> string \<Rightarrow> Proxy \<Rightarrow> bool \<times> Proxy" where
  "CheckRateLimit E h p =
    (let (ok, l) = Limiter_Allow h (rl_clock E) (limiter p) in (ok, p\<lparr> limiter := l \<rparr>))"

definition LogDecision :: "penv \<Rightarrow> string \<Rightarrow> data \<Rightarrow> Proxy \<Rightarrow> Proxy" where
  "LogDecision E eventType d p =
    p\<lparr> plog := snd (Log (log_id E) (log_now E) ''proxy'' eventType (Some d) (plog p)) \<rparr>"

section \<open>Forwarding\<close>

definition RedactResponseHeaders :: "header \<Rightarrow> header" where
  "RedactResponseHeaders h = header_del ''Set-Cookie'' (header_del ''Cookie'' (header_del ''Authorization'' h))"

definition hopByHop :: "string list" where
  "hopByHop = [''Connection'', ''Keep-Alive'', ''Proxy-Authenticate'', ''Proxy-Authorization'',
     ''TE'', ''Trailer'', ''Transfer-Encoding'', ''Upgrade'']"

text \<open>The names a \<open>Connection\<close> header lists.\<close>

definition connection_names :: "header \<Rightarrow> string list" where
  "connection_names h =
    filter (\<lambda>n. n \<noteq> []) (map trim_space (concat (map (split_on CHR '','') (header_values ''Connection'' h))))"

definition stripHopByHopHeaders :: "header \<Rightarrow> header" where
  "stripHopByHopHeaders h = fold header_del hopByHop (fold header_del (connection_names h) h)"

definition validateRedirectTarget :: "penv \<Rightarrow> url \<Rightarrow> Proxy \<Rightarrow> redirect_err option \<times> Proxy" where
  "validateRedirectTarget E u p =
    (let h = Host (tenv E) (hostname u) in
     if h = [] then (Some RedirectMissingHost, p)
     else if \<not> ValidateScheme p (scheme u) then (Some (RedirectScheme (scheme u)), p)
     else if \<not> snd (ValidatePort p (url_port u) (scheme u)) then (Some (RedirectPort (url_port u)), p)
     else if \<not> fst (CheckHostScope E p h) then (Some (RedirectScope (snd (CheckHostScope E p h))), p)
     else if CheckPathExclusion E p h (path u) then (Some (RedirectPath (path u)), p)
     else (let (res, p1) = LookupHost E h p in
       case res of
         Inl e \<Rightarrow> (Some (RedirectDNS e), p1)
       | Inr ips \<Rightarrow>
         (case ValidateIPs ips of
            Some s \<Rightarrow> (Some (RedirectBlocked s), p1)
          | None \<Rightarrow> (None, storeResolvedIPs E h ips p1))))"

text \<open>The \<open>DialContext\<close> of the transport.\<close>

definition DialContext :: "Proxy \<Rightarrow> string \<Rightarrow> dial" where
  "DialContext p addr =
    (if dialFn p then DialOverride addr
     else (case split_host_port addr of
         Inl _ \<Rightarrow> DialSystem addr
       | Inr (h, port) \<Rightarrow>
         (case map_of (resolvedIPs p) h of
            Some (ip1 # _) \<Rightarrow> DialPinned (join_host_port ip1 port)
          | _ \<Rightarrow> DialSystem addr)))"

text \<open>One round trip: a transport speaks \<open>http\<close> and \<open>https\<close> to a URL with a host.\<close>

definition round_trip :: "penv \<Rightarrow> url \<Rightarrow> Proxy \<Rightarrow> hop \<times> Proxy" where
  "round_trip E u p =
    (if host u = [] \<or> scheme u \<notin> {''http'', ''https''} then (HopErr ''unsupported'', p)
     else (let d = DialContext p (canonical_addr (idna_lookup (tenv E)) u)
           in (upstream E (sends p) d u,
               emit (EvSend u) (emit (EvDial u d) (p\<lparr> sends := Suc (sends p) \<rparr>)))))"

text \<open>
  \<open>httpClient.Do\<close> with the \<open>CheckRedirect\<close> of \<open>NewProxy\<close>: \<open>via\<close> requests have been made
  before this one. After the tenth the last response is used.
\<close>

function client_do ::
  "penv \<Rightarrow> nat \<Rightarrow> url \<Rightarrow> Proxy \<Rightarrow> (deny_reason, http_response) result \<times> Proxy" where
  "client_do E via u p =
    (let (hop, p1) = round_trip E u p in
     case hop of
       HopErr e \<Rightarrow> (Inl (ForwardError e), p1)
     | HopDone resp \<Rightarrow> (Inr resp, p1)
     | HopRedirect v resp \<Rightarrow>
       (let (err, p2) = validateRedirectTarget E v p1 in
        case err of
          Some e \<Rightarrow> (Inl (RedirectError e), p2)
        | None \<Rightarrow> if Suc via \<ge> 10 then (Inr resp, p2) else client_do E (Suc via) v p2))"
  by pat_completeness auto
termination
  by (relation "measure (\<lambda>(E, via, u, p). 10 - via)") auto

declare client_do.simps [simp del]

datatype response =
    RHealth string
  | RDeny deny_reason
  | RDryRun bool string string
  | RForward int header string
  | RTunnel dial
  | RTunnelFailed dial
  | RNoTunnel

text \<open>The lookup and pinning at the start of \<open>ForwardRequest\<close>.\<close>

definition repin :: "penv \<Rightarrow> request \<Rightarrow> Proxy \<Rightarrow> Proxy" where
  "repin E r p0 =
    (let targetHost = Host (tenv E) (hostname (req_url r))
     in if targetHost \<noteq> [] \<and> parse_ip targetHost = None
        then (let (res, q) = LookupHost E targetHost p0 in
              case res of Inl _ \<Rightarrow> q
              | Inr ips \<Rightarrow> (case ValidateIPs ips of
                  None \<Rightarrow> storeResolvedIPs E targetHost ips q | Some _ \<Rightarrow> q))
        else p0)"

text \<open>The URL of \<open>http.NewRequest\<close>.\<close>

definition new_request_url :: "url \<Rightarrow> url" where
  "new_request_url u = u\<lparr> host := removeEmptyPort (host u) \<rparr>"

definition ForwardRequest :: "penv \<Rightarrow> request \<Rightarrow> Proxy \<Rightarrow> response \<times> Proxy" where
  "ForwardRequest E r p0 =
    (let p1 = repin E r p0 in
     case url_parse (url_string (req_url r)) of
       Inl _ \<Rightarrow> (RDeny OutgoingFailed, p1)
     | Inr u0 \<Rightarrow>
       if \<not> valid_method E (req_method r) then (RDeny OutgoingFailed, p1)
       else (let u = new_request_url u0; out = header_copy (stripHopByHopHeaders (req_header r)) [];
                 (res, p2) = client_do E 0 u (emit (EvOutgoing (req_method r) out) p1)
             in case res of
                  Inl e \<Rightarrow> (RDeny e, p2)
                | Inr resp \<Rightarrow>
                  (RForward (status resp)
                     (RedactResponseHeaders (header_copy (resp_header resp) []))
                     (resp_body resp), p2)))"

section \<open>The request handlers\<close>

definition deny :: "penv \<Rightarrow> string \<Rightarrow> data \<Rightarrow> deny_reason \<Rightarrow> Proxy \<Rightarrow> response \<times> Proxy" where
  "deny E eventType d reason p = (RDeny reason, LogDecision E eventType d p)"

definition vs :: "string \<Rightarrow> val" where "vs s = VStr s"

text \<open>\<open>logDeny\<close> of \<open>handleConnect\<close>; \<open>extra\<close> overrides the common fields.\<close>

definition connect_data ::
  "penv \<Rightarrow> request \<Rightarrow> string \<Rightarrow> deny_reason \<Rightarrow> data \<Rightarrow> Proxy \<Rightarrow> data" where
  "connect_data E r authority reason extra p =
    fold (\<lambda>(k, v) d. AList.update k v d) extra
      [(''reason'', vs (msg E reason)), (''authority'', vs authority),
       (''method'', vs (req_method r)), (''program_id'', vs (ProgramID (pconf p)))]"

definition connect_deny ::
  "penv \<Rightarrow> request \<Rightarrow> string \<Rightarrow> deny_reason \<Rightarrow> data \<Rightarrow> Proxy \<Rightarrow> response \<times> Proxy" where
  "connect_deny E r authority reason extra p =
    deny E ''deny'' (connect_data E r authority reason extra p) reason p"

text \<open>After the checks: hijack, answer 200, dial the pinned address, relay.\<close>

definition open_tunnel :: "penv \<Rightarrow> request \<Rightarrow> string \<Rightarrow> int \<Rightarrow> Proxy \<Rightarrow> response \<times> Proxy" where
  "open_tunnel E r h port p =
    (if \<not> req_hijackable r then (RDeny NotHijacker, p)
     else (case hijack_err E of
         Some e \<Rightarrow> (RDeny (HijackFailed e), p)
       | None \<Rightarrow>
         if \<not> write_200_ok E then (RNoTunnel, p)
         else (let pinned = (case map_of (resolvedIPs p) h of None \<Rightarrow> [] | Some ips \<Rightarrow> ips);
                   dialIP = (case pinned of [] \<Rightarrow> h | ip1 # _ \<Rightarrow> ip1);
                   targetAddr = join_host_port dialIP (itoa port);
                   d = (if dialFn p then DialOverride targetAddr
                        else if pinned = [] then DialSystem targetAddr
                        else DialPinned targetAddr);
                   p1 = emit (EvTunnel h port d) p
               in if tunnel_ok E d then (RTunnel d, p1) else (RTunnelFailed d, p1))))"

text \<open>Steps 6 to 8, for a host and port that passed the static checks.\<close>

definition connect_resolve ::
  "penv \<Rightarrow> request \<Rightarrow> string \<Rightarrow> string \<Rightarrow> int \<Rightarrow> Proxy \<Rightarrow> response \<times> Proxy" where
  "connect_resolve E r authority h port p =
    (let (res, p1) = LookupHost E h p in
     case res of
       Inl e \<Rightarrow> connect_deny E r authority (DNSFailed h e) [(''host'', vs h)] p1
     | Inr ips \<Rightarrow>
       (case ValidateIPs ips of
          Some s \<Rightarrow> deny E ''block''
            [(''reason'', vs (msg E (ResolvesBlocked h s))), (''host'', vs h),
             (''ips'', VList (map vs ips)), (''program_id'', vs (ProgramID (pconf p)))]
            (ResolvesBlocked h s) p1
        | None \<Rightarrow>
          (let (ok, p2) = CheckRateLimit E h (storeResolvedIPs E h ips p1)
           in if \<not> ok then connect_deny E r authority (RateExceeded h) [(''host'', vs h)] p2
              else open_tunnel E r h port p2)))"

definition handleConnect :: "penv \<Rightarrow> request \<Rightarrow> Proxy \<Rightarrow> response \<times> Proxy" where
  "handleConnect E r p =
    (let authority = (if req_host r = [] then host (req_url r) else req_host r) in
     if CheckKillSwitch p
     then deny E ''block''
       [(''reason'', vs (msg E KillSwitchActive)), (''authority'', vs authority),
        (''method'', vs (req_method r)), (''program_id'', vs (ProgramID (pconf p)))]
       KillSwitchActive p
     else if \<not> TestingEnabled (pconf p)
     then connect_deny E r authority TestingDisabled [] p
     else (case split_host_port authority of
         Inl e \<Rightarrow> connect_deny E r authority (InvalidAuthority authority e) [] p
       | Inr (host0, portStr) \<Rightarrow>
         (let h = Host (tenv E) host0;
              port = ValidatePort p portStr ''https'';
              inScope = CheckHostScope E p h
          in
          if \<not> ValidateScheme p ''https''
          then connect_deny E r authority (SchemeDenied ''https'') [] p
          else if \<not> snd port
          then connect_deny E r authority (PortDenied portStr) [(''host'', vs h), (''port'', vs portStr)] p
          else if \<not> fst inScope
          then connect_deny E r authority (HostDenied (snd inScope)) [(''host'', vs h)] p
          else connect_resolve E r authority h (fst port) p)))"

text \<open>The fields most decisions log.\<close>

definition decision_data :: "penv \<Rightarrow> deny_reason \<Rightarrow> string \<Rightarrow> data \<Rightarrow> string \<Rightarrow> Proxy \<Rightarrow> data" where
  "decision_data E reason h extra requestURI p =
    [(''reason'', vs (msg E reason)), (''host'', vs h)] @ extra @
    [(''url'', vs requestURI), (''program_id'', vs (ProgramID (pconf p)))]"

text \<open>A rejection of \<open>ServeHTTP\<close> after the URL has been parsed.\<close>

definition reject ::
  "penv \<Rightarrow> string \<Rightarrow> deny_reason \<Rightarrow> string \<Rightarrow> data \<Rightarrow> string \<Rightarrow> Proxy \<Rightarrow> response \<times> Proxy" where
  "reject E ev reason h extra requestURI p =
    deny E ev (decision_data E reason h extra requestURI p) reason p"

text \<open>Steps 8 to 11, for a URL that passed the static checks.\<close>

definition serve_resolve ::
  "penv \<Rightarrow> request \<Rightarrow> url \<Rightarrow> string \<Rightarrow> string \<Rightarrow> Proxy \<Rightarrow> response \<times> Proxy" where
  "serve_resolve E r parsedURL h requestURI p =
    (let (res, p1) = LookupHost E h p in
     case res of
       Inl e \<Rightarrow> reject E ''deny'' (DNSFailed h e) h [] requestURI p1
     | Inr ips \<Rightarrow>
       (case ValidateIPs ips of
          Some s \<Rightarrow> reject E ''block'' (ResolvesBlocked h s) h [(''ips'', VList (map vs ips))] requestURI p1
        | None \<Rightarrow>
          (let p2 = storeResolvedIPs E h ips p1 in
           if DryRun (pconf p2)
           then (RDryRun True h requestURI,
                 LogDecision E ''dry_run''
                   [(''decision'', vs ''allow''), (''host'', vs h), (''url'', vs requestURI),
                    (''method'', vs (req_method r)), (''program_id'', vs (ProgramID (pconf p2)))] p2)
           else (let (ok, p3) = CheckRateLimit E h p2 in
             if \<not> ok then reject E ''deny'' (RateExceeded h) h [] requestURI p3
             else ForwardRequest E (r\<lparr> req_url := parsedURL \<rparr>)
               (LogDecision E ''allow''
                 [(''host'', vs h), (''url'', vs requestURI), (''method'', vs (req_method r)),
                  (''program_id'', vs (ProgramID (pconf p3))), (''ips'', VList (map vs ips))]
                 p3)))))"

definition ServeHTTP :: "penv \<Rightarrow> request \<Rightarrow> Proxy \<Rightarrow> response \<times> Proxy" where
  "ServeHTTP E r p =
    (if path (req_url r) = ''/health'' then (RHealth (ProgramID (pconf p)), p)
     else if req_method r = ''CONNECT'' then handleConnect E r p
     else if CheckKillSwitch p
     then deny E ''block''
       [(''reason'', vs (msg E KillSwitchActive)), (''host'', vs (req_host r)),
        (''method'', vs (req_method r)), (''url'', vs (url_string (req_url r))),
        (''program_id'', vs (ProgramID (pconf p)))] KillSwitchActive p
     else (case ParseAndNormalizeURL E r of
       Inl e \<Rightarrow> deny E ''deny''
         [(''reason'', vs (msg E (InvalidRequest e))), (''host'', vs (req_host r)),
          (''method'', vs (req_method r)), (''program_id'', vs (ProgramID (pconf p)))]
         (InvalidRequest e) p
     | Inr (parsedURL, requestURI) \<Rightarrow>
       (let h = Host (tenv E) (hostname parsedURL); inScope = CheckHostScope E p h in
        if \<not> TestingEnabled (pconf p) then reject E ''deny'' TestingDisabled h [] requestURI p
        else if \<not> ValidateScheme p (scheme parsedURL)
        then reject E ''deny'' (SchemeDenied (scheme parsedURL)) h
               [(''scheme'', vs (scheme parsedURL))] requestURI p
        else if \<not> snd (ValidatePort p (url_port parsedURL) (scheme parsedURL))
        then reject E ''deny'' (PortDenied (url_port parsedURL)) h
               [(''port'', vs (url_port parsedURL))] requestURI p
        else if \<not> fst inScope then reject E ''deny'' (HostDenied (snd inScope)) h [] requestURI p
        else if CheckPathExclusion E p h (path parsedURL)
        then reject E ''deny'' (PathDenied (path parsedURL)) h
               [(''path'', vs (path parsedURL))] requestURI p
        else serve_resolve E r parsedURL h requestURI p)))"

section \<open>The programmatic interface\<close>

datatype check_reason =
    CheckInvalidURL url_err
  | CheckMissingHost
  | CheckDenied deny_reason
  | CheckIPBlocked string
  | CheckScope Scope.reason
  | CheckPassed

record CheckResult =
  CRurl :: string
  Allowed :: bool
  ScopeResult :: "Decision option"
  BlockedIP :: bool
  DeniedScheme :: bool
  RateLimited :: bool
  CReason :: check_reason

definition refused :: "string \<Rightarrow> check_reason \<Rightarrow> CheckResult" where
  "refused raw reason = \<lparr> CRurl = raw, Allowed = False, ScopeResult = None, BlockedIP = False,
     DeniedScheme = False, RateLimited = False, CReason = reason \<rparr>"

text \<open>Steps 7 to 10, after the address checks.\<close>

definition check_scope :: "penv \<Rightarrow> string \<Rightarrow> url \<Rightarrow> string \<Rightarrow> Proxy \<Rightarrow> CheckResult" where
  "check_scope E raw u h p =
    (let scopeDec = IsURLInScope (tenv E) (engine p) raw (PSchemes (pconf p)) (PPorts (pconf p)) in
     if \<not> InScope scopeDec
     then (refused raw (CheckScope (Reason scopeDec)))\<lparr> ScopeResult := Some scopeDec \<rparr>
     else if CheckPathExclusion E p h (path u)
     then (refused raw (CheckDenied (PathDenied (path u))))\<lparr> ScopeResult := Some scopeDec \<rparr>
     else (refused raw CheckPassed)\<lparr> Allowed := True, ScopeResult := Some scopeDec \<rparr>)"

definition CheckURL :: "penv \<Rightarrow> string \<Rightarrow> Proxy \<Rightarrow> CheckResult \<times> Proxy" where
  "CheckURL E raw p =
    (case url_parse raw of
       Inl e \<Rightarrow> (refused raw (CheckInvalidURL e), p)
     | Inr u \<Rightarrow>
       if hostname u = [] then (refused raw CheckMissingHost, p)
       else (let h = Host (tenv E) (hostname u) in
        if CheckKillSwitch p then (refused raw (CheckDenied KillSwitchActive), p)
        else if \<not> TestingEnabled (pconf p) then (refused raw (CheckDenied TestingDisabled), p)
        else if \<not> ValidateScheme p (scheme u)
        then ((refused raw (CheckDenied (SchemeDenied (scheme u))))\<lparr> DeniedScheme := True \<rparr>, p)
        else if \<not> snd (ValidatePort p (url_port u) (scheme u))
        then (refused raw (CheckDenied (PortDenied (url_port u))), p)
        else (case parse_ip h of
            Some a \<Rightarrow>
              if proxy_isBlockedIP (Some a)
              then ((refused raw (CheckIPBlocked h))\<lparr> BlockedIP := True \<rparr>, p)
              else (check_scope E raw u h p, p)
          | None \<Rightarrow>
            (let (res, p1) = ProbeHost E h p in
             case res of
               Inl e \<Rightarrow> (refused raw (CheckDenied (DNSFailed h e)), p1)
             | Inr ips \<Rightarrow>
               (case ValidateIPs ips of
                  Some s \<Rightarrow> ((refused raw (CheckDenied (ResolvesBlocked h s)))\<lparr> BlockedIP := True \<rparr>, p1)
                | None \<Rightarrow> (check_scope E raw u h p1, p1))))))"

fun RunSafeCheck :: "penv \<Rightarrow> string list \<Rightarrow> Proxy \<Rightarrow> CheckResult list \<times> Proxy" where
  "RunSafeCheck E [] p = ([], p)"
| "RunSafeCheck E (u # us) p =
    (let (res, p1) = CheckURL E u p; (rs, p2) = RunSafeCheck E us p1 in (res # rs, p2))"

record ScopeSummary =
  SumProgram :: string
  IncludeCount :: nat
  ExcludeCount :: nat
  SumSchemes :: "string list"
  SumPorts :: "int list"

definition Scope_Summary :: "Proxy \<Rightarrow> ScopeSummary" where
  "Scope_Summary p =
    \<lparr> SumProgram = ProgramID (pconf p), IncludeCount = length (Include (ScopeCfg (pconf p))),
      ExcludeCount = length (Exclude (ScopeCfg (pconf p))),
      SumSchemes = PSchemes (pconf p), SumPorts = PPorts (pconf p) \<rparr>"

definition RateLimitStatus :: "Proxy \<Rightarrow> HostSnapshot list" where
  "RateLimitStatus p = Snapshot (limiter p)"

lemmas [go_eval] = maxResolvedIPs_def emit_def evict_one_def storeResolvedIPs_def
  CheckKillSwitch_def ParseAndNormalizeURL_def ValidateScheme_def ValidatePort_def
  CheckHostScope_def CheckPathExclusion_def LookupHost_def ProbeHost_def proxy_blockedCIDRs_def
  proxy_isBlockedIP_def ValidateIPs_def CheckRateLimit_def LogDecision_def
  RedactResponseHeaders_def hopByHop_def connection_names_def stripHopByHopHeaders_def
  new_request_url_def DialContext_def vs_def refused_def check_scope_def Scope_Summary_def RateLimitStatus_def

end
