(* ===== verification/Proxy_Safety.thy ===== *)
theory Proxy_Safety
  imports Proxy
begin

text \<open>
  The safety lemmas of the proxy. \<open>step_ok\<close> says what one step may do: it leaves the
  configuration, engine and kill switch alone, keeps the pinned addresses valid and only adds
  permitted events to the trace. It is shown for every helper and composed along the handlers;
  \<open>books\<close> and \<open>sent\<close> follow the log, the limiter and the number of outgoing requests.
\<close>

section \<open>The address check\<close>

lemma proxy_cidrs: "proxy_blockedCIDRs = blockedCIDRs"
  by (simp add: proxy_blockedCIDRs_def blockedCIDRs_def)

lemma proxy_isBlockedIP_eq: "proxy_isBlockedIP = isBlockedIP"
  unfolding proxy_isBlockedIP_def isBlockedIP_def in_cidr_def [abs_def] proxy_cidrs ..

interpretation proxy_ips: ip_filter proxy_isBlockedIP
  unfolding proxy_isBlockedIP_eq by (rule scope_ips.ip_filter_axioms)

lemma ValidateIPs_None: "ValidateIPs ips = None \<longleftrightarrow> (\<forall>s\<in>set ips. \<not> proxy_isBlockedIP (parse_ip s))"
  by (auto simp: ValidateIPs_def find_None_iff)

section \<open>The pinned addresses\<close>

definition resolved_ok :: "Proxy \<Rightarrow> bool" where
  "resolved_ok p = (amap_ok (resolvedIPs p) \<and> length (resolvedIPs p) \<le> maxResolvedIPs
     \<and> (\<forall>h ips. map_of (resolvedIPs p) h = Some ips \<longrightarrow> ValidateIPs ips = None))"

lemma evict_one_length: "m \<noteq> [] \<Longrightarrow> length (evict_one E n m) < length m"
  by (auto simp: evict_one_def intro!: length_delete_mem)

lemma evict_one_map_of: "map_of (evict_one E n m) h = Some ips \<Longrightarrow> map_of m h = Some ips"
  by (auto simp: evict_one_def split: if_splits)

lemma evict_one_ok [simp]: "amap_ok m \<Longrightarrow> amap_ok (evict_one E n m)"
  by (simp add: evict_one_def)

definition room :: "penv \<Rightarrow> Proxy \<Rightarrow> (string, string list) gomap" where
  "room E p = (if length (resolvedIPs p) \<ge> maxResolvedIPs then evict_one E (stores p) (resolvedIPs p)
     else resolvedIPs p)"

lemma room_ok:
  assumes "resolved_ok p"
  shows "amap_ok (room E p)" "Suc (length (room E p)) \<le> maxResolvedIPs"
    "map_of (room E p) h = Some ips \<Longrightarrow> ValidateIPs ips = None"
proof -
  show "amap_ok (room E p)" using assms by (simp add: room_def resolved_ok_def)
  show "Suc (length (room E p)) \<le> maxResolvedIPs"
  proof (cases "length (resolvedIPs p) \<ge> maxResolvedIPs")
    case True
    then have "resolvedIPs p \<noteq> []" by (auto simp: maxResolvedIPs_def)
    then have "length (evict_one E (stores p) (resolvedIPs p)) < length (resolvedIPs p)"
      by (rule evict_one_length)
    moreover have "length (resolvedIPs p) \<le> maxResolvedIPs"
      using assms by (simp only: resolved_ok_def)
    ultimately show ?thesis using True by (simp only: room_def if_True)
  next
    case False
    then show ?thesis by (simp only: room_def if_False)
  qed
  assume "map_of (room E p) h = Some ips"
  then have "map_of (resolvedIPs p) h = Some ips"
    using evict_one_map_of [of E "stores p" "resolvedIPs p" h ips]
    unfolding room_def by (cases "length (resolvedIPs p) \<ge> maxResolvedIPs") simp_all
  then show "ValidateIPs ips = None" using assms unfolding resolved_ok_def by blast
qed

lemma storeResolvedIPs_ok:
  assumes ok: "resolved_ok p" and ips: "ValidateIPs ips = None"
  shows "resolved_ok (storeResolvedIPs E h ips p)"
proof -
  have eq: "resolvedIPs (storeResolvedIPs E h ips p) = AList.update h ips (room E p)"
    by (simp add: storeResolvedIPs_def room_def Let_def)
  have "length (AList.update h ips (room E p)) \<le> maxResolvedIPs"
    using length_update_le [of h ips "room E p"] room_ok(2) [OF ok, of E] by linarith
  then show ?thesis
    using room_ok(1) [OF ok] room_ok(3) [OF ok] ips unfolding resolved_ok_def eq by simp
qed

section \<open>What a step may do\<close>

text \<open>The part of the state no handler changes.\<close>

definition fixed :: "Proxy \<Rightarrow> Engine \<times> ProxyConfig \<times> Switch \<times> bool" where
  "fixed p = (engine p, pconf p, switch p, dialFn p)"

text \<open>The step only adds events that satisfy \<open>P\<close>, keeps the fixed part and the pins valid.\<close>

definition step_ok :: "(event \<Rightarrow> bool) \<Rightarrow> Proxy \<Rightarrow> Proxy \<Rightarrow> bool" where
  "step_ok P p p' = (fixed p' = fixed p \<and> (resolved_ok p \<longrightarrow> resolved_ok p')
     \<and> (\<exists>evs. trace p' = trace p @ evs \<and> list_all P evs))"

named_theorems steps \<open>the steps a handler is made of\<close>

lemma step_ok_refl [simp, steps]: "step_ok P p p"
  by (auto simp: step_ok_def)

lemma step_ok_trans: "step_ok P p q \<Longrightarrow> step_ok P q r \<Longrightarrow> step_ok P p r"
  by (auto simp: step_ok_def)

lemma step_ok_emit [steps]: "P ev \<Longrightarrow> step_ok P p (emit ev p)"
  by (auto simp: step_ok_def emit_def fixed_def resolved_ok_def)

lemma step_ok_log [simp, steps]: "step_ok P p (LogDecision E ev d p)"
  by (auto simp: step_ok_def LogDecision_def fixed_def resolved_ok_def)

lemma step_ok_lookup [steps]: "P (EvLookup h) \<Longrightarrow> step_ok P p (snd (LookupHost E h p))"
  by (auto simp: step_ok_def LookupHost_def emit_def fixed_def resolved_ok_def)

lemma step_ok_probe [steps]: "P (EvProbe h) \<Longrightarrow> step_ok P p (snd (ProbeHost E h p))"
  by (auto simp: step_ok_def ProbeHost_def emit_def fixed_def resolved_ok_def)

lemma step_ok_store [steps]: "ValidateIPs ips = None \<Longrightarrow> step_ok P p (storeResolvedIPs E h ips p)"
  using storeResolvedIPs_ok [of p ips E h]
  by (auto simp: step_ok_def storeResolvedIPs_def fixed_def Let_def)

lemma step_ok_rate [simp, steps]: "step_ok P p (snd (CheckRateLimit E h p))"
  by (auto simp: step_ok_def CheckRateLimit_def fixed_def resolved_ok_def split: prod.splits)

lemma fixed_checks:
  assumes "fixed p' = fixed p"
  shows "ValidateScheme p' = ValidateScheme p" "ValidatePort p' = ValidatePort p"
    "CheckHostScope E p' = CheckHostScope E p" "CheckPathExclusion E p' = CheckPathExclusion E p"
    "CheckKillSwitch p' = CheckKillSwitch p" "pconf p' = pconf p" "dialFn p' = dialFn p"
  using assms
  by (auto simp: fixed_def ValidateScheme_def ValidatePort_def CheckHostScope_def
      CheckPathExclusion_def CheckKillSwitch_def fun_eq_iff split: option.splits)

lemma step_ok_fixed: "step_ok P p p' \<Longrightarrow> fixed p' = fixed p"
  by (simp add: step_ok_def)

section \<open>Which URLs may be requested\<close>

text \<open>The static layers: scheme, port, host scope, path exclusions.\<close>

definition url_permitted :: "penv \<Rightarrow> Proxy \<Rightarrow> url \<Rightarrow> bool" where
  "url_permitted E p u =
    (let h = Host (tenv E) (hostname u)
     in ValidateScheme p (scheme u) \<and> snd (ValidatePort p (url_port u) (scheme u))
        \<and> InScope (IsHostInScope (tenv E) (engine p) h) \<and> \<not> CheckPathExclusion E p h (path u))"

text \<open>
  The first request is the validated URL printed and parsed again, as \<open>http.NewRequest\<close> keeps it.
\<close>

definition send_permitted :: "penv \<Rightarrow> Proxy \<Rightarrow> url \<Rightarrow> bool" where
  "send_permitted E p u =
    (url_permitted E p u
     \<or> (\<exists>v w. url_permitted E p v \<and> url_parse (url_string v) = Inr w \<and> u = new_request_url w))"

text \<open>
  A connection made for \<open>host:port\<close>: a pinned one goes to that port of an address off the block
  list, a system one to the name and port themselves, and one through a dial function is made
  only when such a function is installed.
\<close>

definition dial_permitted :: "Proxy \<Rightarrow> string \<Rightarrow> dial \<Rightarrow> bool" where
  "dial_permitted p addr d = (case d of
     DialPinned a \<Rightarrow> \<exists>h port ip. split_host_port addr = Inr (h, port)
       \<and> a = join_host_port ip port \<and> \<not> proxy_isBlockedIP (parse_ip ip)
   | DialSystem a \<Rightarrow> a = addr
   | DialOverride a \<Rightarrow> dialFn p)"

definition tunnel_dial_permitted :: "Proxy \<Rightarrow> string \<Rightarrow> int \<Rightarrow> dial \<Rightarrow> bool" where
  "tunnel_dial_permitted p h port d = (case d of
     DialPinned a \<Rightarrow> \<exists>ip. a = join_host_port ip (itoa port) \<and> \<not> proxy_isBlockedIP (parse_ip ip)
   | DialSystem a \<Rightarrow> a = join_host_port h (itoa port)
   | DialOverride a \<Rightarrow> dialFn p)"

text \<open>The host is in scope.\<close>

definition host_permitted :: "penv \<Rightarrow> Proxy \<Rightarrow> string \<Rightarrow> bool" where
  "host_permitted E p h = InScope (IsHostInScope (tenv E) (engine p) h)"

text \<open>
  What may leave a proxy, its testing being enabled: a request for a permitted URL; a connection
  for a permitted URL, to its host and port; a tunnel to an allowed port of a host in scope, with
  https allowed; a lookup of a host in scope. The lookups of \<open>CheckURL\<close> come before its scope
  check and are not bound to the scope; a header that is built is not yet sent.
\<close>

fun event_scoped :: "penv \<Rightarrow> Proxy \<Rightarrow> event \<Rightarrow> bool" where
  "event_scoped E p (EvSend u) = send_permitted E p u"
| "event_scoped E p (EvDial u d) =
    (send_permitted E p u \<and> dial_permitted p (canonical_addr (idna_lookup (tenv E)) u) d)"
| "event_scoped E p (EvTunnel h port d) =
    (host_permitted E p h \<and> ValidateScheme p ''https''
     \<and> (\<exists>s. ValidatePort p s ''https'' = (port, True)) \<and> tunnel_dial_permitted p h port d)"
| "event_scoped E p (EvLookup h) = host_permitted E p h"
| "event_scoped E p (EvProbe h) = True"
| "event_scoped E p (EvOutgoing m hdr) = True"

definition event_permitted :: "penv \<Rightarrow> Proxy \<Rightarrow> event \<Rightarrow> bool" where
  "event_permitted E p ev = (TestingEnabled (pconf p) \<and> event_scoped E p ev)"

lemma dial_permitted_cong:
  "dialFn p = dialFn p0 \<Longrightarrow> dial_permitted p addr d = dial_permitted p0 addr d"
  "dialFn p = dialFn p0 \<Longrightarrow> tunnel_dial_permitted p h port d = tunnel_dial_permitted p0 h port d"
  by (cases d; simp add: dial_permitted_def tunnel_dial_permitted_def)+

lemma fixed_permitted:
  assumes "fixed p' = fixed p"
  shows "url_permitted E p' = url_permitted E p" "host_permitted E p' = host_permitted E p"
    "event_permitted E p' = event_permitted E p"
proof -
  show u: "url_permitted E p' = url_permitted E p"
    using assms fixed_checks [OF assms] by (auto simp: url_permitted_def fixed_def fun_eq_iff)
  show h: "host_permitted E p' = host_permitted E p"
    using assms by (auto simp: host_permitted_def fixed_def fun_eq_iff)
  show "event_permitted E p' = event_permitted E p"
  proof
    fix ev
    show "event_permitted E p' ev = event_permitted E p ev"
      using fixed_checks [OF assms]
        dial_permitted_cong [OF fixed_checks(7) [OF assms]]
      by (cases ev) (simp_all add: event_permitted_def send_permitted_def u h)
  qed
qed

lemma DialContext_permitted: "resolved_ok p \<Longrightarrow> dial_permitted p addr (DialContext p addr)"
  by (auto simp: DialContext_def dial_permitted_def resolved_ok_def ValidateIPs_None
      split: sum.splits prod.splits option.splits list.splits)

section \<open>The handlers, step by step\<close>

lemma step_ok_validate_redirect:
  assumes "host_permitted E p (Host (tenv E) (hostname u)) \<Longrightarrow> P (EvLookup (Host (tenv E) (hostname u)))"
  shows "step_ok P p (snd (validateRedirectTarget E u p))"
proof (cases "host_permitted E p (Host (tenv E) (hostname u))")
  case False
  then show ?thesis
    by (simp add: validateRedirectTarget_def Let_def CheckHostScope_def host_permitted_def)
next
  case True
  let ?h = "Host (tenv E) (hostname u)"
  obtain res p1 where l: "LookupHost E ?h p = (res, p1)" by (cases "LookupHost E ?h p")
  then have p1: "step_ok P p p1"
    using step_ok_lookup [of P ?h p E] assms [OF True] by simp
  have "step_ok P p (storeResolvedIPs E ?h ips p1)" if "ValidateIPs ips = None" for ips
    using step_ok_trans [OF p1 step_ok_store [OF that]] .
  then show ?thesis
    using p1 by (auto simp: validateRedirectTarget_def Let_def l split: sum.splits option.splits)
qed

lemma validate_redirect_permits:
  "fst (validateRedirectTarget E u p) = None \<Longrightarrow> url_permitted E p u"
  by (auto simp: validateRedirectTarget_def Let_def url_permitted_def CheckHostScope_def
      split: if_splits)

text \<open>The proxy \<open>p\<close> runs with the configuration of \<open>p0\<close>, whose testing is enabled.\<close>

definition runs_as :: "Proxy \<Rightarrow> Proxy \<Rightarrow> bool" where
  "runs_as p0 p = (TestingEnabled (pconf p0) \<and> fixed p = fixed p0)"

lemma runs_as_step: "runs_as p0 p \<Longrightarrow> step_ok P p q \<Longrightarrow> runs_as p0 q"
  by (simp add: runs_as_def step_ok_def)

lemma runs_as_lookup:
  "runs_as p0 p \<Longrightarrow> host_permitted E p h \<Longrightarrow> event_permitted E p0 (EvLookup h)"
  using fixed_permitted(2) [of p p0 E] by (simp add: runs_as_def event_permitted_def)

lemma step_ok_round_trip:
  assumes "resolved_ok p" "send_permitted E p0 u" "runs_as p0 p"
  shows "step_ok (event_permitted E p0) p (snd (round_trip E u p))"
proof -
  let ?a = "canonical_addr (idna_lookup (tenv E)) u"
  let ?d = "DialContext p ?a"
  let ?p = "p\<lparr> sends := Suc (sends p) \<rparr>"
  have 0: "step_ok (event_permitted E p0) p ?p"
    by (auto simp: step_ok_def fixed_def resolved_ok_def)
  have "dial_permitted p0 ?a ?d"
    using DialContext_permitted [OF assms(1)] dial_permitted_cong(1) [OF fixed_checks(7)] assms(3)
    unfolding runs_as_def by blast
  then have 1: "step_ok (event_permitted E p0) ?p (emit (EvDial u ?d) ?p)"
    using assms(2,3) by (intro step_ok_emit) (simp add: event_permitted_def runs_as_def)
  have 2: "step_ok (event_permitted E p0) (emit (EvDial u ?d) ?p) (emit (EvSend u) (emit (EvDial u ?d) ?p))"
    using assms(2,3) by (intro step_ok_emit) (simp add: event_permitted_def runs_as_def)
  show ?thesis
    using step_ok_trans [OF step_ok_trans [OF 0 1] 2] by (simp add: round_trip_def Let_def)
qed

lemma step_ok_resolved: "step_ok P p p' \<Longrightarrow> resolved_ok p \<Longrightarrow> resolved_ok p'"
  by (simp add: step_ok_def)

lemma step_ok_client_do:
  "resolved_ok p \<Longrightarrow> send_permitted E p0 u \<Longrightarrow> runs_as p0 p \<Longrightarrow>
   step_ok (event_permitted E p0) p (snd (client_do E via u p))"
proof (induction E via u p rule: client_do.induct)
  case (1 E via u p)
  obtain hop p1 where rt: "round_trip E u p = (hop, p1)" by (cases "round_trip E u p")
  have p1: "step_ok (event_permitted E p0) p p1"
    using step_ok_round_trip [OF 1(2-4)] rt by simp
  have r1: "resolved_ok p1" and f1: "runs_as p0 p1"
    using step_ok_resolved [OF p1 1(2)] runs_as_step [OF 1(4) p1] by simp_all
  show ?case
  proof (cases hop)
    case (HopRedirect v resp)
    obtain err p2 where vr: "validateRedirectTarget E v p1 = (err, p2)"
      by (cases "validateRedirectTarget E v p1")
    have s2: "step_ok (event_permitted E p0) p1 p2"
      using step_ok_validate_redirect [of E p1 v "event_permitted E p0"] runs_as_lookup [OF f1] vr by simp
    have p2: "step_ok (event_permitted E p0) p p2" using step_ok_trans [OF p1 s2] .
    show ?thesis
    proof (cases "err = None \<and> \<not> Suc via \<ge> 10")
      case True
      have "url_permitted E p0 v"
        using validate_redirect_permits [of E v p1] vr True fixed_permitted(1) [of p1 p0] f1
        by (simp add: runs_as_def)
      then have "step_ok (event_permitted E p0) p2 (snd (client_do E (Suc via) v p2))"
        using 1(1) [OF rt [symmetric] refl HopRedirect vr [symmetric] refl] True
          step_ok_resolved [OF s2 r1] runs_as_step [OF f1 s2] by (simp add: send_permitted_def)
      then show ?thesis
        using step_ok_trans [OF p2] True
        by (subst client_do.simps) (simp add: rt HopRedirect vr)
    next
      case False
      then show ?thesis using p2
        by (subst client_do.simps) (auto simp: rt HopRedirect vr split: option.splits)
    qed
  qed (use p1 in \<open>subst client_do.simps, simp add: rt\<close>)+
qed

lemma step_ok_repin:
  assumes "P (EvLookup (Host (tenv E) (hostname (req_url r))))"
  shows "step_ok P p (repin E r p)"
proof -
  let ?h = "Host (tenv E) (hostname (req_url r))"
  obtain res p1 where l: "LookupHost E ?h p = (res, p1)" by (cases "LookupHost E ?h p")
  then have p1: "step_ok P p p1" using step_ok_lookup [of P ?h p E] assms by simp
  have "step_ok P p (storeResolvedIPs E ?h ips p1)" if "ValidateIPs ips = None" for ips
    using step_ok_trans [OF p1 step_ok_store [OF that]] .
  then show ?thesis
    using p1 by (auto simp: repin_def Let_def l split: sum.splits option.splits)
qed

lemma step_ok_forward:
  assumes "resolved_ok p" "url_permitted E p0 (req_url r)" "runs_as p0 p"
  shows "step_ok (event_permitted E p0) p (snd (ForwardRequest E r p))"
proof -
  have l: "event_permitted E p0 (EvLookup (Host (tenv E) (hostname (req_url r))))"
    using assms(2,3) by (simp add: event_permitted_def runs_as_def url_permitted_def host_permitted_def Let_def)
  note rp = step_ok_repin [of "event_permitted E p0", OF l]
  show ?thesis
  proof (cases "url_parse (url_string (req_url r))")
    case (Inl e)
    then show ?thesis using rp by (simp add: ForwardRequest_def)
  next
    case (Inr u)
    let ?ev = "EvOutgoing (req_method r) (header_copy (stripHopByHopHeaders (req_header r)) [])"
    let ?p1 = "emit ?ev (repin E r p)"
    have "event_permitted E p0 ?ev" using assms(3) by (simp add: event_permitted_def runs_as_def)
    then have p1: "step_ok (event_permitted E p0) p ?p1" by (rule step_ok_trans [OF rp step_ok_emit])
    have "send_permitted E p0 (new_request_url u)" using assms(2) Inr by (auto simp: send_permitted_def)
    then have "step_ok (event_permitted E p0) ?p1 (snd (client_do E 0 (new_request_url u) ?p1))"
      using step_ok_resolved [OF p1 assms(1)] runs_as_step [OF assms(3) p1]
      by (intro step_ok_client_do) simp_all
    then show ?thesis
      using step_ok_trans [OF p1] rp
      by (auto simp: ForwardRequest_def Inr Let_def split: prod.splits sum.splits)
  qed
qed

section \<open>The whole handlers\<close>

text \<open>
  The outcome of a handler, taken branch by branch: a predicate on the proxy afterwards holds of a
  conditional when it holds of its branches.
\<close>

definition after :: "(Proxy \<Rightarrow> bool) \<Rightarrow> response \<times> Proxy \<Rightarrow> bool" where
  "after P r = P (snd r)"

lemma after_branches:
  "\<lbrakk> b \<Longrightarrow> after P x; \<not> b \<Longrightarrow> after P y \<rbrakk> \<Longrightarrow> after P (if b then x else y)"
  "\<lbrakk> \<And>e. after P (f e); \<And>a. after P (g a) \<rbrakk> \<Longrightarrow> after P (case s of Inl e \<Rightarrow> f e | Inr a \<Rightarrow> g a)"
  "(\<And>a b. after P (h a b)) \<Longrightarrow> after P (case q of (a, b) \<Rightarrow> h a b)"
  by (simp_all split: sum.split prod.split)

text \<open>What holds of a host and a port for which \<open>handleConnect\<close> goes on to resolve.\<close>

definition tunnel_target :: "penv \<Rightarrow> Proxy \<Rightarrow> string \<Rightarrow> int \<Rightarrow> bool" where
  "tunnel_target E p h port = (TestingEnabled (pconf p) \<and> host_permitted E p h
     \<and> ValidateScheme p ''https'' \<and> (\<exists>s. ValidatePort p s ''https'' = (port, True)))"

lemma handleConnect_after:
  assumes "\<And>ev d reason. P (snd (deny E ev d reason p))"
    "\<And>a h port. tunnel_target E p h port \<Longrightarrow> P (snd (connect_resolve E r a h port p))"
  shows "P (snd (handleConnect E r p))"
proof -
  have "tunnel_target E p h (fst (ValidatePort p s ''https''))"
    if "TestingEnabled (pconf p)" "ValidateScheme p ''https''" "snd (ValidatePort p s ''https'')"
      "fst (CheckHostScope E p h)" for h s
    using that by (auto simp: tunnel_target_def CheckHostScope_def host_permitted_def Let_def
        intro!: exI [of _ s] prod_eqI)
  then have "after P (handleConnect E r p)"
    unfolding handleConnect_def connect_deny_def Let_def
    by (intro after_branches) (simp_all add: after_def assms)
  then show ?thesis by (simp only: after_def)
qed

text \<open>\<open>LookupHost\<close> and the block list, as both handlers use them.\<close>

lemma step_ok_lookup_store:
  assumes "LookupHost E h p = (res, p1)" "P (EvLookup h)"
  shows "step_ok P p p1"
    "ValidateIPs ips = None \<Longrightarrow> step_ok P p (storeResolvedIPs E h ips p1)"
proof -
  show p1: "step_ok P p p1"
    using step_ok_lookup [of P h p E] assms by simp
  show "ValidateIPs ips = None \<Longrightarrow> step_ok P p (storeResolvedIPs E h ips p1)"
    using step_ok_trans [OF p1 step_ok_store] .
qed

lemma step_ok_deny: "step_ok P p q \<Longrightarrow> step_ok P p (snd (deny E ev d reason q))"
  by (simp add: deny_def step_ok_trans [OF _ step_ok_log])

lemma step_ok_connect_deny:
  "step_ok P p q \<Longrightarrow> step_ok P p (snd (connect_deny E r a reason extra q))"
  by (simp add: connect_deny_def step_ok_deny)

lemma open_tunnel_permitted:
  assumes ok: "resolved_ok p" and t: "tunnel_target E p0 h port" and f: "fixed p = fixed p0"
  shows "step_ok (event_permitted E p0) p (snd (open_tunnel E r h port p))"
proof -
  have "step_ok (event_permitted E p0) p (emit (EvTunnel h port d) p)"
    if "d = (if dialFn p then DialOverride a else if pinned = [] then DialSystem a else DialPinned a)"
      "pinned = (case map_of (resolvedIPs p) h of None \<Rightarrow> [] | Some ips \<Rightarrow> ips)"
      "a = join_host_port (case pinned of [] \<Rightarrow> h | ip1 # _ \<Rightarrow> ip1) (itoa port)" for d pinned a
  proof -
    have "tunnel_dial_permitted p h port d"
      using ok that by (auto simp: tunnel_dial_permitted_def resolved_ok_def ValidateIPs_None
          split: option.splits list.splits)
    then show ?thesis using t dial_permitted_cong(2) [OF fixed_checks(7) [OF f]]
      by (intro step_ok_emit) (simp add: event_permitted_def tunnel_target_def)
  qed
  then show ?thesis by (auto simp: open_tunnel_def Let_def split: option.splits)
qed

lemma step_ok_store_rate:
  assumes "LookupHost E h p = (Inr ips, p1)" "ValidateIPs ips = None"
    "CheckRateLimit E h (storeResolvedIPs E h ips p1) = (ok, p2)" "P (EvLookup h)"
  shows "step_ok P p p2"
  using step_ok_trans [OF step_ok_lookup_store(2) [of E h p "Inr ips" p1 P, OF assms(1,4,2)]
      step_ok_rate [of _ _ E h]] assms(3)
  by (metis snd_conv)

lemma step_ok_connect_resolve:
  assumes ok: "resolved_ok p" and t: "tunnel_target E p h port"
  shows "step_ok (event_permitted E p) p (snd (connect_resolve E r a h port p))"
proof -
  obtain res p1 where l: "LookupHost E h p = (res, p1)" by (cases "LookupHost E h p")
  have lk: "event_permitted E p (EvLookup h)" using t by (simp add: tunnel_target_def event_permitted_def)
  note p1 = step_ok_lookup_store(1) [of E h p res p1 "event_permitted E p", OF l lk]
  show ?thesis
  proof (cases res)
    case (Inl e)
    then show ?thesis using step_ok_connect_deny [OF p1] by (simp add: connect_resolve_def l)
  next
    case (Inr ips)
    show ?thesis
    proof (cases "ValidateIPs ips")
      case (Some s)
      then show ?thesis using step_ok_deny [OF p1] by (simp add: connect_resolve_def l Inr)
    next
      case None
      obtain rl p2 where r: "CheckRateLimit E h (storeResolvedIPs E h ips p1) = (rl, p2)"
        by (cases "CheckRateLimit E h (storeResolvedIPs E h ips p1)")
      note p2 = step_ok_store_rate [of E h p ips p1 rl p2 "event_permitted E p", OF l [unfolded Inr] None r lk]
      show ?thesis
        using step_ok_connect_deny [OF p2]
          step_ok_trans [OF p2 open_tunnel_permitted [OF step_ok_resolved [OF p2 ok] t step_ok_fixed [OF p2]]]
        by (simp add: connect_resolve_def l Inr None r)
    qed
  qed
qed

lemma step_ok_handleConnect:
  "resolved_ok p \<Longrightarrow> step_ok (event_permitted E p) p (snd (handleConnect E r p))"
  by (rule handleConnect_after) (simp_all add: step_ok_deny step_ok_connect_resolve)

lemma step_ok_serve_resolve:
  assumes ok: "resolved_ok p" and u: "url_permitted E p u" and t: "TestingEnabled (pconf p)"
  shows "step_ok (event_permitted E p) p (snd (serve_resolve E r u (Host (tenv E) (hostname u)) uri p))"
proof -
  let ?h = "Host (tenv E) (hostname u)"
  obtain res p1 where l: "LookupHost E ?h p = (res, p1)" by (cases "LookupHost E ?h p")
  have lk: "event_permitted E p (EvLookup ?h)"
    using u t by (simp add: event_permitted_def url_permitted_def host_permitted_def Let_def)
  note p1 = step_ok_lookup_store(1) [of E ?h p res p1 "event_permitted E p", OF l lk]
  show ?thesis
  proof (cases res)
    case (Inl e)
    then show ?thesis using step_ok_deny [OF p1] by (simp add: serve_resolve_def reject_def l)
  next
    case (Inr ips)
    show ?thesis
    proof (cases "ValidateIPs ips")
      case (Some s)
      then show ?thesis using step_ok_deny [OF p1] by (simp add: serve_resolve_def reject_def l Inr)
    next
      case None
      obtain rl p2 where r: "CheckRateLimit E ?h (storeResolvedIPs E ?h ips p1) = (rl, p2)"
        by (cases "CheckRateLimit E ?h (storeResolvedIPs E ?h ips p1)")
      note ps = step_ok_lookup_store(2) [of E ?h p "Inr ips" p1 "event_permitted E p", OF l [unfolded Inr] lk None]
      note p2 = step_ok_store_rate [of E ?h p ips p1 rl p2 "event_permitted E p", OF l [unfolded Inr] None r lk]
      have "step_ok (event_permitted E p) p (snd (ForwardRequest E (r'\<lparr> req_url := u \<rparr>) (LogDecision E ev d p2)))"
        for r' ev d
      proof -
        have p3: "step_ok (event_permitted E p) p (LogDecision E ev d p2)"
          by (rule step_ok_trans [OF p2 step_ok_log])
        have "runs_as p (LogDecision E ev d p2)" using t step_ok_fixed [OF p3] by (simp add: runs_as_def)
        then show ?thesis
          by (intro step_ok_trans [OF p3 step_ok_forward [OF step_ok_resolved [OF p3 ok]]])
            (simp_all add: u)
      qed
      then show ?thesis
        using step_ok_deny [OF p2] step_ok_trans [OF ps step_ok_log]
        by (simp add: serve_resolve_def reject_def Let_def l Inr None r)
    qed
  qed
qed

lemma step_ok_ServeHTTP:
  assumes "resolved_ok p"
  shows "step_ok (event_permitted E p) p (snd (ServeHTTP E r p))"
proof -
  have u: "url_permitted E p u"
    if "ValidateScheme p (scheme u)" "snd (ValidatePort p (url_port u) (scheme u))"
      "fst (CheckHostScope E p (Host (tenv E) (hostname u)))"
      "\<not> CheckPathExclusion E p (Host (tenv E) (hostname u)) (path u)" for u
    using that by (simp add: url_permitted_def CheckHostScope_def Let_def)
  show ?thesis
    using assms
    by (simp add: ServeHTTP_def Let_def reject_def step_ok_deny step_ok_handleConnect
        step_ok_serve_resolve u split: sum.split prod.split)
qed

section \<open>Log, limiter and number of requests\<close>

text \<open>Forwarding touches neither the log nor the limiter.\<close>

definition books :: "Proxy \<Rightarrow> Logger \<times> PerHostLimiter" where
  "books p = (plog p, limiter p)"

lemma books_steps [simp]:
  "books (emit ev p) = books p" "books (storeResolvedIPs E h ips p) = books p"
  "books (snd (LookupHost E h p)) = books p" "books (snd (round_trip E u p)) = books p"
  by (simp_all add: books_def emit_def storeResolvedIPs_def LookupHost_def round_trip_def Let_def)

lemma books_lookup: "LookupHost E h p = (res, p1) \<Longrightarrow> books p1 = books p"
  using books_steps(3) [of E h p] by simp

lemma books_validate_redirect [simp]: "books (snd (validateRedirectTarget E u p)) = books p"
  by (auto simp: validateRedirectTarget_def Let_def dest: books_lookup
      split: prod.splits sum.splits option.splits)

lemma books_client_do [simp]: "books (snd (client_do E via u p)) = books p"
proof (induction E via u p rule: client_do.induct)
  case (1 E via u p)
  obtain hop p1 where rt: "round_trip E u p = (hop, p1)" by (cases "round_trip E u p")
  then have p1: "books p1 = books p" using books_steps(4) [of E u p] by simp
  show ?case
  proof (cases hop)
    case (HopRedirect v resp)
    obtain err p2 where vr: "validateRedirectTarget E v p1 = (err, p2)"
      by (cases "validateRedirectTarget E v p1")
    then have p2: "books p2 = books p" using books_validate_redirect [of E v p1] p1 by simp
    then have "\<not> Suc via \<ge> 10 \<Longrightarrow> err = None \<Longrightarrow> books (snd (client_do E (Suc via) v p2)) = books p"
      using 1 [OF rt [symmetric] refl HopRedirect vr [symmetric] refl] by simp
    then show ?thesis
      using p2 by (subst client_do.simps) (auto simp: rt HopRedirect vr split: option.splits)
  qed (use p1 in \<open>subst client_do.simps, simp add: rt\<close>)+
qed

lemma books_repin [simp]: "books (repin E r p) = books p"
  by (auto simp: repin_def Let_def dest: books_lookup split: prod.splits sum.splits option.splits)

lemma books_ForwardRequest [simp]: "books (snd (ForwardRequest E r p)) = books p"
proof (cases "url_parse (url_string (req_url r))")
  case (Inr u)
  let ?q = "emit (EvOutgoing (req_method r) (header_copy (stripHopByHopHeaders (req_header r)) [])) (repin E r p)"
  let ?u = "new_request_url u"
  obtain res p2 where c: "client_do E 0 ?u ?q = (res, p2)" by (cases "client_do E 0 ?u ?q")
  then have "books p2 = books p" using books_client_do [of E 0 ?u ?q] by simp
  then show ?thesis by (auto simp: ForwardRequest_def Inr c Let_def split: sum.splits)
qed (simp add: ForwardRequest_def)

text \<open>The requests that went out.\<close>

definition sent :: "Proxy \<Rightarrow> url list" where
  "sent p = concat (map (\<lambda>ev. case ev of EvSend u \<Rightarrow> [u] | _ \<Rightarrow> []) (trace p))"

lemma sent_steps [simp]:
  "sent (emit (EvSend u) p) = sent p @ [u]" "sent (emit (EvDial v d) p) = sent p"
  "sent (emit (EvOutgoing m hdr) p) = sent p" "sent (emit (EvLookup h) p) = sent p"
  "sent (storeResolvedIPs E h ips p) = sent p" "sent (LogDecision E ev ld p) = sent p"
  "sent (snd (LookupHost E h p)) = sent p" "sent (snd (CheckRateLimit E h p)) = sent p"
  "sent (emit (EvTunnel h port d) p) = sent p"
  by (auto simp: sent_def emit_def storeResolvedIPs_def LogDecision_def LookupHost_def
      CheckRateLimit_def Let_def split: prod.splits)

lemma sent_sends [simp]: "sent (p\<lparr> sends := n \<rparr>) = sent p"
  by (simp add: sent_def)

lemma sent_round_trip: "length (sent (snd (round_trip E u p))) \<le> Suc (length (sent p))"
  by (simp add: round_trip_def Let_def)

lemma sent_lookup: "LookupHost E h p = (res, p1) \<Longrightarrow> sent p1 = sent p"
  using sent_steps(7) [of E h p] by simp

lemma sent_validate_redirect [simp]: "sent (snd (validateRedirectTarget E u p)) = sent p"
  by (auto simp: validateRedirectTarget_def Let_def dest: sent_lookup
      split: prod.splits sum.splits option.splits)

lemma sent_client_do:
  "via < 10 \<Longrightarrow> length (sent (snd (client_do E via u p))) \<le> length (sent p) + (10 - via)"
proof (induction E via u p rule: client_do.induct)
  case (1 E via u p)
  obtain hop p1 where rt: "round_trip E u p = (hop, p1)" by (cases "round_trip E u p")
  then have p1: "length (sent p1) \<le> Suc (length (sent p))" using sent_round_trip [of E u p] by simp
  show ?case
  proof (cases hop)
    case (HopRedirect v resp)
    obtain err p2 where vr: "validateRedirectTarget E v p1 = (err, p2)"
      by (cases "validateRedirectTarget E v p1")
    then have p2: "sent p2 = sent p1" using sent_validate_redirect [of E v p1] by simp
    have "\<not> Suc via \<ge> 10 \<Longrightarrow> err = None \<Longrightarrow>
        length (sent (snd (client_do E (Suc via) v p2))) \<le> length (sent p2) + (10 - Suc via)"
      using 1(1) [OF rt [symmetric] refl HopRedirect vr [symmetric] refl] by simp
    then show ?thesis
      using p1 p2 1(2)
      by (subst client_do.simps) (auto simp: rt HopRedirect vr split: option.splits)
  qed (use p1 1(2) in \<open>subst client_do.simps, simp add: rt\<close>)+
qed

lemma sent_repin [simp]: "sent (repin E r p) = sent p"
  by (auto simp: repin_def Let_def dest: sent_lookup split: prod.splits sum.splits option.splits)

lemma sent_ForwardRequest: "length (sent (snd (ForwardRequest E r p))) \<le> length (sent p) + 10"
proof (cases "url_parse (url_string (req_url r))")
  case (Inr u)
  let ?q = "emit (EvOutgoing (req_method r) (header_copy (stripHopByHopHeaders (req_header r)) [])) (repin E r p)"
  obtain res p2 where c: "client_do E 0 (new_request_url u) ?q = (res, p2)" by (cases "client_do E 0 (new_request_url u) ?q")
  then have "length (sent p2) \<le> length (sent p) + 10" using sent_client_do [of 0 E "new_request_url u" ?q] by simp
  then show ?thesis by (auto simp: ForwardRequest_def Inr c Let_def split: sum.splits)
qed (simp add: ForwardRequest_def)

text \<open>What a call leaves in the books: one entry of the proxy, at most one use of the limiter.\<close>

definition one_entry :: "Proxy \<Rightarrow> Proxy \<Rightarrow> bool" where
  "one_entry p p' = (\<exists>e. Component e = ''proxy'' \<and> plog p' = append_entry e (plog p))"

lemma one_entry_log: "plog q = plog p \<Longrightarrow> one_entry p (LogDecision E ev d q)"
  unfolding one_entry_def
  by (rule exI [of _ "new_entry (log_id E) (log_now E) ''proxy'' ev (Some d)"])
    (simp add: LogDecision_def Log_def Let_def new_entry_def)

lemma plog_rate [simp]: "plog (snd (CheckRateLimit E h p)) = plog p"
  by (simp add: CheckRateLimit_def split: prod.splits)

lemma limiter_rate:
  "CheckRateLimit E h p = (ok, p1) \<Longrightarrow> (ok, limiter p1) = Limiter_Allow h (rl_clock E) (limiter p)"
  by (auto simp: CheckRateLimit_def split: prod.splits)

lemma limiter_log [simp]: "limiter (LogDecision E ev d p) = limiter p"
  by (simp add: LogDecision_def)

text \<open>The outcome of \<open>serve_resolve\<close> in the books.\<close>

lemma one_entry_deny: "plog q = plog p \<Longrightarrow> one_entry p (snd (deny E ev d reason q))"
  by (simp add: deny_def one_entry_log)

lemma one_entry_reject: "plog q = plog p \<Longrightarrow> one_entry p (snd (reject E ev reason h extra uri q))"
  by (simp add: reject_def one_entry_deny)

lemma books_eq: "books q = books p \<Longrightarrow> plog q = plog p \<and> limiter q = limiter p"
  by (simp add: books_def)

lemma one_entry_serve_resolve: "one_entry p (snd (serve_resolve E r u h uri p))"
proof -
  obtain res p1 where l: "LookupHost E h p = (res, p1)" by (cases "LookupHost E h p")
  then have p1: "plog p1 = plog p" using books_eq [OF books_lookup [OF l]] by simp
  show ?thesis
  proof (cases "\<exists>ips. res = Inr ips \<and> ValidateIPs ips = None")
    case True
    then obtain ips where ips: "res = Inr ips" "ValidateIPs ips = None" by auto
    let ?p2 = "storeResolvedIPs E h ips p1"
    have p2: "plog ?p2 = plog p" using books_eq [OF books_steps(2) [of E h ips p1]] p1 by simp
    obtain ok p3 where r: "CheckRateLimit E h ?p2 = (ok, p3)" by (cases "CheckRateLimit E h ?p2")
    then have p3: "plog p3 = plog p" using plog_rate [of E h ?p2] p2 by simp
    have fwd: "one_entry p (snd (ForwardRequest E r' (LogDecision E ev d p3)))" for r' ev d
      using books_eq [OF books_ForwardRequest [of E r' "LogDecision E ev d p3"]]
        one_entry_log [OF p3, of E ev d] by (simp add: one_entry_def)
    show ?thesis
      using fwd one_entry_log [OF p2] one_entry_reject [OF p3] ips
      by (simp add: serve_resolve_def Let_def l r)
  next
    case False
    then show ?thesis
      using one_entry_reject [OF p1]
      by (auto simp: serve_resolve_def Let_def l split: sum.split option.split)
  qed
qed

lemma one_entry_ServeHTTP:
  "path (req_url r) \<noteq> ''/health'' \<Longrightarrow> req_method r \<noteq> ''CONNECT'' \<Longrightarrow>
   one_entry p (snd (ServeHTTP E r p))"
  by (simp add: ServeHTTP_def Let_def one_entry_deny one_entry_reject one_entry_serve_resolve
      split: sum.split prod.split)

text \<open>Requests go out only after the limiter has let the host through, and at most ten.\<close>

definition metered :: "penv \<Rightarrow> string \<Rightarrow> Proxy \<Rightarrow> Proxy \<Rightarrow> bool" where
  "metered E h p p' = (length (sent p') \<le> length (sent p) + 10
     \<and> (sent p' \<noteq> sent p \<longrightarrow> Limiter_Allow h (rl_clock E) (limiter p) = (True, limiter p')))"

lemma metered_unsent: "sent p' = sent p \<Longrightarrow> metered E h p p'"
  by (simp add: metered_def)

lemma sent_deny [simp]: "sent (snd (deny E ev d reason q)) = sent q"
  by (simp add: deny_def)

lemma sent_connect_deny [simp]: "sent (snd (connect_deny E r a reason extra q)) = sent q"
  by (simp add: connect_deny_def)

lemma sent_reject [simp]: "sent (snd (reject E ev reason h extra uri q)) = sent q"
  by (simp add: reject_def)

lemma sent_rate: "CheckRateLimit E h p = (ok, p1) \<Longrightarrow> sent p1 = sent p"
  using sent_steps(8) [of E h p] by simp

lemma sent_open_tunnel [simp]: "sent (snd (open_tunnel E r h port p)) = sent p"
  by (simp add: open_tunnel_def Let_def split: option.split)

lemma sent_connect_resolve [simp]: "sent (snd (connect_resolve E r a h port p)) = sent p"
proof -
  obtain res p1 where l: "LookupHost E h p = (res, p1)" by (cases "LookupHost E h p")
  note p1 = sent_lookup [OF l]
  have "sent (snd (let (ok, p2) = CheckRateLimit E h (storeResolvedIPs E h ips p1)
           in if \<not> ok then connect_deny E r a (RateExceeded h) [(''host'', vs h)] p2
              else open_tunnel E r h port p2)) = sent p" for ips
    using p1 sent_rate [of E h "storeResolvedIPs E h ips p1"] by (simp split: prod.split)
  then show ?thesis
    using p1 by (simp add: connect_resolve_def l split: sum.split option.split)
qed

lemma sent_handleConnect [simp]: "sent (snd (handleConnect E r p)) = sent p"
  by (rule handleConnect_after) simp_all

lemma metered_serve_resolve: "metered E h p (snd (serve_resolve E r u h uri p))"
proof -
  obtain res p1 where l: "LookupHost E h p = (res, p1)" by (cases "LookupHost E h p")
  note p1 = sent_lookup [OF l]
  have b1: "limiter p1 = limiter p" using books_eq [OF books_lookup [OF l]] by simp
  show ?thesis
  proof (cases "\<exists>ips. res = Inr ips \<and> ValidateIPs ips = None")
    case True
    then obtain ips where ips: "res = Inr ips" "ValidateIPs ips = None" by auto
    let ?p2 = "storeResolvedIPs E h ips p1"
    obtain ok p3 where r: "CheckRateLimit E h ?p2 = (ok, p3)" by (cases "CheckRateLimit E h ?p2")
    have lim: "(ok, limiter p3) = Limiter_Allow h (rl_clock E) (limiter p)"
      using limiter_rate [OF r] books_eq [OF books_steps(2) [of E h ips p1]] b1 by simp
    have p3: "sent p3 = sent p" using sent_rate [OF r] p1 by simp
    have fwd: "metered E h p (snd (ForwardRequest E r' (LogDecision E ev d p3)))" if ok for r' ev d
    proof -
      let ?p4 = "LogDecision E ev d p3" and ?p5 = "snd (ForwardRequest E r' (LogDecision E ev d p3))"
      have "Limiter_Allow h (rl_clock E) (limiter p) = (True, limiter ?p5)"
        using books_eq [OF books_ForwardRequest [of E r' ?p4]] lim that by simp
      moreover have "length (sent ?p5) \<le> length (sent p) + 10"
        using sent_ForwardRequest [of E r' ?p4] p3 by simp
      ultimately show ?thesis unfolding metered_def by blast
    qed
    show ?thesis
      using fwd p1 p3 ips metered_unsent
      by (simp add: serve_resolve_def Let_def l r)
  next
    case False
    then have "sent (snd (serve_resolve E r u h uri p)) = sent p"
      using p1 by (auto simp: serve_resolve_def Let_def l split: sum.split option.split)
    then show ?thesis by (rule metered_unsent)
  qed
qed

lemma metered_ServeHTTP:
  "sent (snd (ServeHTTP E r p)) = sent p
   \<or> (\<exists>v uri. ParseAndNormalizeURL E r = Inr (v, uri)
        \<and> metered E (Host (tenv E) (hostname v)) p (snd (ServeHTTP E r p)))"
  by (simp add: ServeHTTP_def Let_def metered_serve_resolve split: sum.split prod.split)

end
