(* ===== verification/Proxy_Pins.thy ===== *)
theory Proxy_Pins
  imports Proxy_Safety
begin

text \<open>
  What the proxy does not do: no network activity behind an active kill switch or a disabled
  program, no request in dry-run mode. Then the pinned dials: a host that is already in the
  form \<open>normalize.Host\<close> gives is dialled at the address its validation resolved. Last, the
  programmatic checks (\<open>CheckURL\<close>, \<open>RunSafeCheck\<close>) and the two header filters.
\<close>

section \<open>Closed gates\<close>

lemma kill_switch_blocks:
  "CheckKillSwitch p \<Longrightarrow> path (req_url r) \<noteq> ''/health'' \<Longrightarrow>
   \<exists>d. ServeHTTP E r p = (RDeny KillSwitchActive, LogDecision E ''block'' d p)"
  by (simp add: ServeHTTP_def handleConnect_def Let_def deny_def) blast

lemma trace_log [simp]: "trace (LogDecision E ev d p) = trace p"
  by (simp add: LogDecision_def)

lemma trace_denials [simp]:
  "trace (snd (deny E ev d reason p)) = trace p"
  "trace (snd (connect_deny E r a reason extra p)) = trace p"
  "trace (snd (reject E ev reason h extra uri p)) = trace p"
  by (simp_all add: deny_def connect_deny_def reject_def)

lemma testing_disabled_silent:
  "\<not> TestingEnabled (pconf p) \<Longrightarrow> trace (snd (ServeHTTP E r p)) = trace p"
  by (simp add: ServeHTTP_def handleConnect_def Let_def split: sum.split prod.split)

definition is_lookup :: "event \<Rightarrow> bool" where
  "is_lookup ev = (case ev of EvLookup h \<Rightarrow> True | EvProbe h \<Rightarrow> True | _ \<Rightarrow> False)"

lemma dry_run_resolve:
  assumes "DryRun (pconf p)"
  shows "step_ok is_lookup p (snd (serve_resolve E r u h uri p))"
proof -
  obtain res p1 where l: "LookupHost E h p = (res, p1)" by (cases "LookupHost E h p")
  have p1: "step_ok is_lookup p p1"
    using step_ok_lookup [of is_lookup h p E] l by (simp add: is_lookup_def)
  show ?thesis
  proof (cases "\<exists>ips. res = Inr ips \<and> ValidateIPs ips = None")
    case True
    then obtain ips where ips: "res = Inr ips" "ValidateIPs ips = None" by auto
    have p2: "step_ok is_lookup p (storeResolvedIPs E h ips p1)"
      by (rule step_ok_trans [OF p1 step_ok_store [OF ips(2)]])
    have "DryRun (pconf (storeResolvedIPs E h ips p1))"
      using assms fixed_checks(6) [OF step_ok_fixed [OF p2]] by simp
    then show ?thesis
      using step_ok_trans [OF p2 step_ok_log] ips by (simp add: serve_resolve_def Let_def l)
  next
    case False
    then show ?thesis
      using step_ok_deny [OF p1]
      by (auto simp: serve_resolve_def reject_def Let_def l split: sum.split option.split)
  qed
qed

lemma dry_run_sends_nothing:
  "DryRun (pconf p) \<Longrightarrow> req_method r \<noteq> ''CONNECT'' \<Longrightarrow> step_ok is_lookup p (snd (ServeHTTP E r p))"
  by (simp add: ServeHTTP_def Let_def reject_def step_ok_deny dry_run_resolve
      split: sum.split prod.split)

section \<open>Pinned dials\<close>

text \<open>A key of the pins as a host the transport asks for.\<close>

definition pin_host :: "string \<Rightarrow> bool" where
  "pin_host h = (CHR ''['' \<notin> set h \<and> CHR '']'' \<notin> set h)"

definition plain_port :: "string \<Rightarrow> bool" where
  "plain_port s = (CHR '':'' \<notin> set s \<and> CHR ''['' \<notin> set s \<and> CHR '']'' \<notin> set s)"

lemma default_port_plain: "plain_port (default_port s)"
  by (simp add: plain_port_def default_port_def)

text \<open>The port a URL is dialled at.\<close>

definition dial_port :: "url \<Rightarrow> string" where
  "dial_port u = (if url_port u = [] then default_port (scheme u) else url_port u)"

text \<open>The addresses a host is pinned to.\<close>

definition pinned :: "Proxy \<Rightarrow> string \<Rightarrow> string list \<Rightarrow> bool" where
  "pinned p h ips = (map_of (resolvedIPs p) h = Some ips)"

lemma DialContext_pinned:
  assumes "\<not> dialFn p" "pinned p h ips" "ips \<noteq> []"
    "canonical_host lk u = h" "pin_host h" "plain_port (url_port u)"
  shows "DialContext p (canonical_addr lk u) = DialPinned (join_host_port (hd ips) (dial_port u))"
proof -
  have "plain_port (dial_port u)" using assms(6) default_port_plain by (simp add: dial_port_def)
  then have "split_host_port (canonical_addr lk u) = Inr (h, dial_port u)"
    using assms(4,5) split_join_host_port [of h "dial_port u"]
    by (simp add: canonical_addr_def pin_host_def plain_port_def dial_port_def)
  then show ?thesis using assms(1-3) by (cases ips) (auto simp: DialContext_def pinned_def)
qed

lemma pinned_emit [simp]: "pinned (emit ev p) h ips = pinned p h ips"
  by (simp add: pinned_def emit_def)

lemma pinned_log [simp]: "pinned (LogDecision E ev d p) h ips = pinned p h ips"
  by (simp add: pinned_def LogDecision_def)

lemma pinned_lookup: "LookupHost E h p = (res, p1) \<Longrightarrow> pinned p1 = pinned p"
  by (auto simp: LookupHost_def pinned_def emit_def fun_eq_iff)

lemma pinned_store: "pinned (storeResolvedIPs E h ips p) h ips"
  by (simp add: pinned_def storeResolvedIPs_def Let_def)

lemma pinned_rate: "CheckRateLimit E h p = (ok, p1) \<Longrightarrow> pinned p1 = pinned p"
  by (auto simp: CheckRateLimit_def pinned_def fun_eq_iff split: prod.splits)

text \<open>DNS gives at least one address or an error, as Go's resolver does.\<close>

definition dns_nonempty :: "penv \<Rightarrow> bool" where
  "dns_nonempty E = (\<forall>n h. dns E n h \<noteq> Inr [])"

lemma lookup_nonempty: "dns_nonempty E \<Longrightarrow> LookupHost E h p = (Inr ips, p1) \<Longrightarrow> ips \<noteq> []"
  by (auto simp: dns_nonempty_def LookupHost_def)

text \<open>
  The answer a request is pinned to: the second lookup of \<open>ForwardRequest\<close>, number \<open>n\<close>, replaces
  the answer \<open>ips\<close> of the first when it is clean, and leaves it otherwise.
\<close>

definition repinned :: "penv \<Rightarrow> nat \<Rightarrow> string \<Rightarrow> string list \<Rightarrow> string list" where
  "repinned E n h ips =
    (if h \<noteq> [] \<and> parse_ip h = None
     then (case dns E n h of Inl _ \<Rightarrow> ips
           | Inr ips' \<Rightarrow> if ValidateIPs ips' = None then ips' else ips)
     else ips)"

definition answer_used :: "penv \<Rightarrow> Proxy \<Rightarrow> string \<Rightarrow> string list option" where
  "answer_used E p h = (case dns E (lookups p) h of Inl _ \<Rightarrow> None
     | Inr ips \<Rightarrow> if ValidateIPs ips = None then Some (repinned E (Suc (lookups p)) h ips) else None)"

lemma repinned_nonempty: "dns_nonempty E \<Longrightarrow> ips \<noteq> [] \<Longrightarrow> repinned E n h ips \<noteq> []"
  by (auto simp: repinned_def dns_nonempty_def split: sum.split)

lemma repinned_clean: "ValidateIPs ips = None \<Longrightarrow> ValidateIPs (repinned E n h ips) = None"
  by (auto simp: repinned_def split: sum.split)

lemma pinned_repin:
  assumes "h = Host (tenv E) (hostname (req_url r))" "pinned p h ips"
  shows "pinned (repin E r p) h (repinned E (lookups p) h ips)"
proof -
  obtain res p1 where l: "LookupHost E h p = (res, p1)" by (cases "LookupHost E h p")
  then have res: "dns E (lookups p) h = res" by (simp add: LookupHost_def)
  have "pinned p1 h ips" using assms(2) pinned_lookup [OF l] by simp
  then show ?thesis
    using assms(2) pinned_store
    by (cases "h = []") (simp_all add: repin_def repinned_def assms(1) [symmetric] Let_def l res
        split: sum.split option.split)
qed

text \<open>The dials of a trace.\<close>

definition dials :: "Proxy \<Rightarrow> dial list" where
  "dials p = concat (map (\<lambda>ev. case ev of EvDial u d \<Rightarrow> [d] | EvTunnel h port d \<Rightarrow> [d] | _ \<Rightarrow> []) (trace p))"

lemma dials_append: "step_ok P p p' \<Longrightarrow> \<exists>ds. dials p' = dials p @ ds"
  by (auto simp: step_ok_def dials_def)

lemma dials_emit [simp]:
  "dials (emit (EvDial v d) p) = dials p @ [d]" "dials (emit (EvSend u) p) = dials p"
  "dials (emit (EvOutgoing m hdr) p) = dials p" "dials (emit (EvLookup h) p) = dials p"
  "dials (p\<lparr> sends := n \<rparr>) = dials p" "dials (LogDecision E ev ld p) = dials p"
  "dials (storeResolvedIPs E h ips p) = dials p"
  by (simp_all add: dials_def emit_def LogDecision_def storeResolvedIPs_def Let_def)

lemma dials_lookup: "LookupHost E h p = (res, p1) \<Longrightarrow> dials p1 = dials p"
  by (auto simp: LookupHost_def dials_def emit_def)

lemma dials_repin [simp]: "dials (repin E r p) = dials p"
  by (auto simp: repin_def Let_def dest: dials_lookup split: prod.splits sum.splits option.splits)

lemma dials_validate [simp]: "dials (snd (validateRedirectTarget E u p)) = dials p"
  by (auto simp: validateRedirectTarget_def Let_def dest: dials_lookup
      split: prod.splits sum.splits option.splits)

lemma dials_round_trip: "\<exists>ds. dials (snd (round_trip E u p)) = dials p @ ds"
  by (simp add: round_trip_def Let_def)

lemma dials_client_do: "\<exists>ds. dials (snd (client_do E via u p)) = dials (snd (round_trip E u p)) @ ds"
proof (induction E via u p rule: client_do.induct)
  case (1 E via u p)
  obtain hop p1 where rt: "round_trip E u p = (hop, p1)" by (cases "round_trip E u p")
  show ?case
  proof (cases hop)
    case (HopRedirect v resp)
    obtain err p2 where vr: "validateRedirectTarget E v p1 = (err, p2)"
      by (cases "validateRedirectTarget E v p1")
    then have p2: "dials p2 = dials p1" using dials_validate [of E v p1] by simp
    have "\<exists>ds. dials (snd (client_do E (Suc via) v p2)) = dials p1 @ ds"
      if "err = None" "\<not> Suc via \<ge> 10"
      using 1 [OF rt [symmetric] refl HopRedirect vr [symmetric] refl that]
        dials_round_trip [of E v p2] p2 by auto
    then show ?thesis
      using p2 by (subst client_do.simps) (auto simp: rt HopRedirect vr split: option.splits)
  qed (subst client_do.simps, simp add: rt)+
qed

lemma client_do_dials:
  "host u \<noteq> [] \<Longrightarrow> scheme u \<in> {''http'', ''https''} \<Longrightarrow> dials (snd (client_do E via u p)) \<noteq> []"
  using dials_client_do [of E via u p] by (auto simp: round_trip_def Let_def)

text \<open>
  A URL whose dialled host is the host the pins are keyed by: \<open>u\<close> is requested, \<open>h\<close> was
  resolved.
\<close>

definition dialled_as :: "penv \<Rightarrow> url \<Rightarrow> string \<Rightarrow> bool" where
  "dialled_as E u h = (canonical_host (idna_lookup (tenv E)) u = h \<and> pin_host h \<and> plain_port (url_port u))"

text \<open>The first dial of a step, if there is one, goes to \<open>addr\<close>, a pinned address.\<close>

definition first_dial :: "string \<Rightarrow> Proxy \<Rightarrow> Proxy \<Rightarrow> bool" where
  "first_dial addr p p' = (dials p' = dials p \<or> (\<exists>ds. dials p' = dials p @ DialPinned addr # ds))"

lemma first_dial_quiet: "dials p' = dials p \<Longrightarrow> first_dial addr p p'"
  by (simp add: first_dial_def)

lemma client_do_pinned:
  assumes "\<not> dialFn p" "pinned p h ips" "ips \<noteq> []" "dialled_as E u h"
  shows "first_dial (join_host_port (hd ips) (dial_port u)) p (snd (client_do E via u p))"
proof (cases "host u = [] \<or> scheme u \<notin> {''http'', ''https''}")
  case True
  then show ?thesis by (subst client_do.simps) (simp add: round_trip_def first_dial_def)
next
  case False
  then have "dials (snd (round_trip E u p)) = dials p @ [DialPinned (join_host_port (hd ips) (dial_port u))]"
    using DialContext_pinned [OF assms(1-3)] assms(4) by (simp add: round_trip_def Let_def dialled_as_def)
  then show ?thesis using dials_client_do [of E via u p] by (auto simp: first_dial_def)
qed

lemma repin_fixed: "fixed (repin E r p) = fixed p"
  using step_ok_fixed [OF step_ok_repin [of "\<lambda>_. True"]] by simp

text \<open>The first dial of a step for \<open>v\<close>, its host being pinned to \<open>ips\<close>.\<close>

definition first_dial_for :: "url \<Rightarrow> string list \<Rightarrow> Proxy \<Rightarrow> Proxy \<Rightarrow> bool" where
  "first_dial_for v ips p p' = (dials p' = dials p
     \<or> (\<exists>w ds. url_parse (url_string v) = Inr w
          \<and> dials p' = dials p @ DialPinned (join_host_port (hd ips) (dial_port (new_request_url w))) # ds))"

lemma ForwardRequest_pinned:
  assumes "\<not> dialFn p" "pinned p h ips" "ips \<noteq> []" "dns_nonempty E"
    "h = Host (tenv E) (hostname (req_url r))"
    "\<And>w. url_parse (url_string (req_url r)) = Inr w \<Longrightarrow> dialled_as E (new_request_url w) h"
  shows "first_dial_for (req_url r) (repinned E (lookups p) h ips) p (snd (ForwardRequest E r p))"
proof (cases "url_parse (url_string (req_url r))")
  case (Inl e)
  then show ?thesis by (simp add: ForwardRequest_def first_dial_for_def)
next
  case (Inr w)
  let ?ev = "EvOutgoing (req_method r) (header_copy (stripHopByHopHeaders (req_header r)) [])"
  let ?q = "emit ?ev (repin E r p)" and ?ips = "repinned E (lookups p) h ips"
  have "dialFn ?q = dialFn p" using fixed_checks(7) [OF repin_fixed] by (simp add: emit_def)
  moreover have "pinned ?q h ?ips" using pinned_repin [OF assms(5,2)] by simp
  ultimately have c: "first_dial (join_host_port (hd ?ips) (dial_port (new_request_url w))) ?q
      (snd (client_do E 0 (new_request_url w) ?q))"
    using assms(1) repinned_nonempty [OF assms(4,3)] assms(6) [OF Inr] by (intro client_do_pinned) simp_all
  obtain res p2 where "client_do E 0 (new_request_url w) ?q = (res, p2)"
    by (cases "client_do E 0 (new_request_url w) ?q")
  then show ?thesis
    using c by (auto simp: ForwardRequest_def Inr Let_def first_dial_def first_dial_for_def split: sum.splits)
qed

lemma lookups_kept:
  "lookups (storeResolvedIPs E h ips p) = lookups p" "lookups (LogDecision E ev d p) = lookups p"
  "LookupHost E h p = (res, p1) \<Longrightarrow> lookups p1 = Suc (lookups p)"
  "CheckRateLimit E h p = (ok, p1) \<Longrightarrow> lookups p1 = lookups p"
  by (auto simp: storeResolvedIPs_def LogDecision_def LookupHost_def emit_def CheckRateLimit_def Let_def
      split: prod.splits)

text \<open>A step for \<open>v\<close> first dials the pinned address of an answer it got, or nothing.\<close>

definition dials_answer :: "penv \<Rightarrow> url \<Rightarrow> Proxy \<Rightarrow> Proxy \<Rightarrow> bool" where
  "dials_answer E v p p' = (dials p' = dials p
     \<or> (\<exists>ips. answer_used E p (Host (tenv E) (hostname v)) = Some ips \<and> first_dial_for v ips p p'))"

lemma serve_resolve_pinned:
  assumes "\<not> dialFn p" "dns_nonempty E" "h = Host (tenv E) (hostname v)"
    "\<And>w. url_parse (url_string v) = Inr w \<Longrightarrow> dialled_as E (new_request_url w) h"
  shows "dials_answer E v p (snd (serve_resolve E r v h uri p))"
proof -
  obtain res p1 where l: "LookupHost E h p = (res, p1)" by (cases "LookupHost E h p")
  note d1 = dials_lookup [OF l]
  have quiet: "dials_answer E v p (snd (reject E ev reason h extra uri q))" if "dials q = dials p"
    for ev reason extra q
    using that by (simp add: dials_answer_def reject_def deny_def)
  show ?thesis
  proof (cases "\<exists>ips. res = Inr ips \<and> ValidateIPs ips = None")
    case True
    then obtain ips where ips: "res = Inr ips" "ValidateIPs ips = None" by auto
    let ?p2 = "storeResolvedIPs E h ips p1"
    obtain ok p3 where r: "CheckRateLimit E h ?p2 = (ok, p3)" by (cases "CheckRateLimit E h ?p2")
    have d3: "dials p3 = dials p" using r d1 by (auto simp: CheckRateLimit_def dials_def
          storeResolvedIPs_def Let_def split: prod.splits)
    have n3: "lookups p3 = Suc (lookups p)"
      using lookups_kept(3) [OF l] lookups_kept(4) [OF r] by (simp add: lookups_kept)
    have pin: "pinned p3 h ips" using pinned_rate [OF r] pinned_store by simp
    have "answer_used E p h = Some (repinned E (Suc (lookups p)) h ips)"
      using l ips by (simp add: answer_used_def LookupHost_def)
    moreover have "first_dial_for v (repinned E (Suc (lookups p)) h ips) p
        (snd (ForwardRequest E (r\<lparr> req_url := v \<rparr>) (LogDecision E ev d p3)))" for ev d
    proof -
      let ?p4 = "LogDecision E ev d p3"
      have "fixed ?p4 = fixed p"
        using step_ok_store_rate [of E h p ips p1 ok p3 "\<lambda>_. True", OF l [unfolded ips] ips(2) r]
        by (simp add: step_ok_def LogDecision_def fixed_def)
      then have "\<not> dialFn ?p4" using fixed_checks(7) assms(1) by metis
      moreover have "pinned ?p4 h ips" using pin by simp
      ultimately have "first_dial_for (req_url (r\<lparr> req_url := v \<rparr>)) (repinned E (lookups ?p4) h ips)
          ?p4 (snd (ForwardRequest E (r\<lparr> req_url := v \<rparr>) ?p4))"
        using lookup_nonempty [OF assms(2) l [unfolded ips]] assms(2-4) by (intro ForwardRequest_pinned) simp_all
      then show ?thesis using d3 n3 by (simp add: first_dial_for_def lookups_kept)
    qed
    ultimately have fwd: "dials_answer E v p
        (snd (ForwardRequest E (r\<lparr> req_url := v \<rparr>) (LogDecision E ev d p3)))" for ev d
      using assms(3) by (auto simp: dials_answer_def)
    show ?thesis
      using fwd quiet [OF d3] d1 ips
      by (simp add: serve_resolve_def Let_def l r) (simp add: dials_answer_def)
  next
    case False
    then show ?thesis
      using quiet [OF d1] by (auto simp: serve_resolve_def Let_def l split: sum.split option.split)
  qed
qed

text \<open>Every URL the request stands for is dialled under the name its host normalises to.\<close>

definition pinnable :: "penv \<Rightarrow> request \<Rightarrow> bool" where
  "pinnable E r = (case ParseAndNormalizeURL E r of Inl _ \<Rightarrow> True
     | Inr (v, _) \<Rightarrow> (case url_parse (url_string v) of Inl _ \<Rightarrow> True
         | Inr w \<Rightarrow> dialled_as E (new_request_url w) (Host (tenv E) (hostname v))))"

lemma ServeHTTP_pinned:
  assumes "\<not> dialFn p" "dns_nonempty E" "req_method r \<noteq> ''CONNECT''" "pinnable E r"
  shows "dials (snd (ServeHTTP E r p)) = dials p
    \<or> (\<exists>v uri. ParseAndNormalizeURL E r = Inr (v, uri) \<and> dials_answer E v p (snd (ServeHTTP E r p)))"
proof (cases "ParseAndNormalizeURL E r")
  case (Inl e)
  then show ?thesis using assms(3) by (simp add: ServeHTTP_def deny_def)
next
  case (Inr vu)
  obtain v uri where vu: "vu = (v, uri)" by (cases vu)
  have "dials_answer E v p (snd (serve_resolve E r v (Host (tenv E) (hostname v)) uri p))"
    using assms Inr vu by (intro serve_resolve_pinned) (auto simp: pinnable_def)
  then show ?thesis
    using assms(3) Inr vu by (simp add: ServeHTTP_def Let_def deny_def reject_def)
qed

lemma ServeHTTP_first_dial:
  assumes "\<not> dialFn p" "dns_nonempty E" "req_method r \<noteq> ''CONNECT''" "pinnable E r"
  shows "dials (snd (ServeHTTP E r p)) = dials p
    \<or> (\<exists>v uri w ips ds. ParseAndNormalizeURL E r = Inr (v, uri) \<and> url_parse (url_string v) = Inr w
         \<and> answer_used E p (Host (tenv E) (hostname v)) = Some ips \<and> ValidateIPs ips = None
         \<and> dials (snd (ServeHTTP E r p)) = dials p
             @ DialPinned (join_host_port (hd ips) (dial_port (new_request_url w))) # ds)"
  using ServeHTTP_pinned [OF assms]
proof (elim disjE exE conjE)
  fix v uri assume v: "ParseAndNormalizeURL E r = Inr (v, uri)" "dials_answer E v p (snd (ServeHTTP E r p))"
  show ?thesis
  proof (cases "dials (snd (ServeHTTP E r p)) = dials p")
    case False
    then obtain ips w ds where ips: "answer_used E p (Host (tenv E) (hostname v)) = Some ips"
      "url_parse (url_string v) = Inr w"
      "dials (snd (ServeHTTP E r p)) = dials p @ DialPinned (join_host_port (hd ips) (dial_port (new_request_url w))) # ds"
      using v(2) by (auto simp: dials_answer_def first_dial_for_def)
    have "ValidateIPs ips = None"
      using ips(1) repinned_clean by (auto simp: answer_used_def split: sum.splits if_splits)
    then show ?thesis using v(1) ips by blast
  qed simp
qed simp

section \<open>Tunnels\<close>

lemma open_tunnel_RTunnel:
  assumes "open_tunnel E r h port p = (RTunnel d, p')" "\<not> dialFn p"
    "map_of (resolvedIPs p) h = Some (a # as)"
  shows "d = DialPinned (join_host_port a (itoa port))"
  using assms by (auto simp: open_tunnel_def Let_def split: if_splits option.splits)

lemma stored_pin: "map_of (resolvedIPs (storeResolvedIPs E h ips p)) h = Some ips"
  by (simp add: storeResolvedIPs_def Let_def)

lemma rate_pins: "CheckRateLimit E h p = (ok, p1) \<Longrightarrow> resolvedIPs p1 = resolvedIPs p"
  by (auto simp: CheckRateLimit_def split: prod.splits)

text \<open>The answer a tunnel relies on: not empty, and every address passes the block list.\<close>

definition clean_answer :: "penv \<Rightarrow> Proxy \<Rightarrow> string \<Rightarrow> string list \<Rightarrow> bool" where
  "clean_answer E p h ips = (dns E (lookups p) h = Inr ips \<and> ips \<noteq> [] \<and> ValidateIPs ips = None)"

lemma connect_resolve_RTunnel:
  assumes t: "connect_resolve E r a h port p = (RTunnel d, p')"
    and dial: "\<not> dialFn p" and dns: "dns_nonempty E"
  shows "\<exists>ips. clean_answer E p h ips \<and> d = DialPinned (join_host_port (hd ips) (itoa port))
    \<and> fst (Limiter_Allow h (rl_clock E) (limiter p))"
proof -
  obtain res p1 where l: "LookupHost E h p = (res, p1)" by (cases "LookupHost E h p")
  then obtain ips where ips: "res = Inr ips" "ValidateIPs ips = None"
    using t by (auto simp: connect_resolve_def connect_deny_def deny_def split: sum.splits option.splits)
  let ?p2 = "storeResolvedIPs E h ips p1"
  obtain ok p3 where r: "CheckRateLimit E h ?p2 = (ok, p3)" by (cases "CheckRateLimit E h ?p2")
  have ne: "ips \<noteq> []" using lookup_nonempty [OF dns l [unfolded ips]] .
  have ok and o: "open_tunnel E r h port p3 = (RTunnel d, p')"
    using t ips by (auto simp: connect_resolve_def connect_deny_def deny_def l r split: if_splits)
  have "\<not> dialFn p3"
    using step_ok_store_rate [of E h p ips p1 ok p3 "\<lambda>_. True", OF l [unfolded ips] ips(2) r, THEN step_ok_fixed]
      fixed_checks(7) dial by metis
  moreover have "map_of (resolvedIPs p3) h = Some (hd ips # tl ips)"
    using stored_pin rate_pins [OF r] ne by simp
  ultimately have "d = DialPinned (join_host_port (hd ips) (itoa port))"
    by (rule open_tunnel_RTunnel [OF o])
  moreover have "limiter ?p2 = limiter p"
    using books_eq [OF books_steps(2) [of E h ips p1]] books_eq [OF books_lookup [OF l]] by simp
  then have "fst (Limiter_Allow h (rl_clock E) (limiter p))"
    using limiter_rate [OF r] \<open>ok\<close> by (metis fst_conv)
  moreover have "clean_answer E p h ips"
    using l ips ne by (simp add: clean_answer_def LookupHost_def)
  ultimately show ?thesis by blast
qed

text \<open>The host, the port and the static conditions of a tunnel.\<close>

definition authority_of :: "request \<Rightarrow> string" where
  "authority_of r = (if req_host r = [] then host (req_url r) else req_host r)"

definition tunnel_permitted :: "penv \<Rightarrow> Proxy \<Rightarrow> request \<Rightarrow> string \<Rightarrow> int \<Rightarrow> bool" where
  "tunnel_permitted E p r h port =
    (\<not> CheckKillSwitch p \<and> TestingEnabled (pconf p) \<and> ValidateScheme p ''https''
     \<and> (\<exists>h0 s. split_host_port (authority_of r) = Inr (h0, s) \<and> h = Host (tenv E) h0
          \<and> ValidatePort p s ''https'' = (port, True))
     \<and> InScope (IsHostInScope (tenv E) (engine p) h))"

lemma handleConnect_RTunnel:
  assumes t: "handleConnect E r p = (RTunnel d, p')" and "\<not> dialFn p" "dns_nonempty E"
  shows "\<exists>h port ips. tunnel_permitted E p r h port \<and> clean_answer E p h ips
     \<and> d = DialPinned (join_host_port (hd ips) (itoa port))
     \<and> fst (Limiter_Allow h (rl_clock E) (limiter p))"
proof -
  obtain h0 s where
    c: "\<not> CheckKillSwitch p" "TestingEnabled (pconf p)" "ValidateScheme p ''https''"
      "split_host_port (authority_of r) = Inr (h0, s)"
      "snd (ValidatePort p s ''https'')" "fst (CheckHostScope E p (Host (tenv E) h0))"
      "connect_resolve E r (authority_of r) (Host (tenv E) h0) (fst (ValidatePort p s ''https'')) p
        = (RTunnel d, p')"
    using t by (auto simp: handleConnect_def Let_def connect_deny_def deny_def
        authority_of_def [symmetric] split: if_splits sum.splits prod.splits)
  then have "tunnel_permitted E p r (Host (tenv E) h0) (fst (ValidatePort p s ''https''))"
    by (auto simp: tunnel_permitted_def CheckHostScope_def Let_def prod_eq_iff)
  then show ?thesis using connect_resolve_RTunnel [OF c(7) assms(2,3)] by blast
qed

section \<open>The programmatic checks\<close>

lemma check_scope_Allowed:
  "Allowed (check_scope E raw u h p) \<longleftrightarrow>
     InScope (IsURLInScope (tenv E) (engine p) raw (PSchemes (pconf p)) (PPorts (pconf p)))
     \<and> \<not> CheckPathExclusion E p h (path u)"
  by (simp add: check_scope_def Let_def refused_def)

lemma check_scope_probe: "ProbeHost E h p = (res, p1) \<Longrightarrow> check_scope E raw u h p1 = check_scope E raw u h p"
proof -
  assume "ProbeHost E h p = (res, p1)"
  then have f: "fixed p1 = fixed p" by (auto simp: ProbeHost_def emit_def fixed_def)
  then have "engine p1 = engine p" by (simp add: fixed_def)
  then show ?thesis unfolding check_scope_def by (simp only: fixed_checks(4,6) [OF f])
qed

text \<open>The addresses a check relies on: the literal, or what the lookup gave.\<close>

definition addresses_ok :: "penv \<Rightarrow> Proxy \<Rightarrow> string \<Rightarrow> bool" where
  "addresses_ok E p h = (case parse_ip h of
     Some a \<Rightarrow> \<not> proxy_isBlockedIP (Some a)
   | None \<Rightarrow> (case dns E (lookups p) h of Inl _ \<Rightarrow> False | Inr ips \<Rightarrow> ValidateIPs ips = None))"

lemma CheckURL_Allowed:
  "Allowed (fst (CheckURL E raw p)) \<longleftrightarrow>
     (\<exists>u. url_parse raw = Inr u \<and> hostname u \<noteq> [] \<and> \<not> CheckKillSwitch p \<and> TestingEnabled (pconf p)
        \<and> ValidateScheme p (scheme u) \<and> snd (ValidatePort p (url_port u) (scheme u))
        \<and> addresses_ok E p (Host (tenv E) (hostname u))
        \<and> InScope (IsURLInScope (tenv E) (engine p) raw (PSchemes (pconf p)) (PPorts (pconf p)))
        \<and> \<not> CheckPathExclusion E p (Host (tenv E) (hostname u)) (path u))"
proof (cases "url_parse raw")
  case (Inl e)
  then show ?thesis by (simp add: CheckURL_def refused_def)
next
  case (Inr u)
  let ?h = "Host (tenv E) (hostname u)"
  obtain res p1 where l: "ProbeHost E ?h p = (res, p1)" by (cases "ProbeHost E ?h p")
  then have res: "dns E (lookups p) ?h = res" by (simp add: ProbeHost_def)
  show ?thesis
    using Inr check_scope_probe [OF l, of raw u]
    by (simp add: CheckURL_def Let_def l res refused_def addresses_ok_def check_scope_Allowed
        split: option.split sum.split)
qed

text \<open>A check changes nothing but the record of its lookup.\<close>

lemma CheckURL_pure:
  "snd (CheckURL E raw p) = p
   \<or> TestingEnabled (pconf p) \<and> (\<exists>h. snd (CheckURL E raw p) = snd (ProbeHost E h p))"
proof (cases "url_parse raw")
  case (Inr u)
  let ?h = "Host (tenv E) (hostname u)"
  obtain res p1 where l: "ProbeHost E ?h p = (res, p1)" by (cases "ProbeHost E ?h p")
  have "snd (CheckURL E raw p) = p \<or> TestingEnabled (pconf p) \<and> snd (CheckURL E raw p) = p1"
    by (simp add: CheckURL_def Inr Let_def l split: option.split sum.split)
  then show ?thesis using l by (metis snd_conv)
qed (simp add: CheckURL_def)

lemma RunSafeCheck_urls:
  "map CRurl (fst (RunSafeCheck E us p)) = us"
proof (induction us arbitrary: p)
  case (Cons u us)
  have "CRurl (fst (CheckURL E u p)) = u"
    by (simp add: CheckURL_def refused_def check_scope_def Let_def
        split: sum.split option.split prod.split)
  then show ?case using Cons [of "snd (CheckURL E u p)"]
    by (simp add: Let_def case_prod_beta)
qed simp

lemma RunSafeCheck_probes:
  "(\<And>h. TestingEnabled (pconf p) \<Longrightarrow> P (EvProbe h)) \<Longrightarrow>
   step_ok P p (snd (RunSafeCheck E us p)) \<and> books (snd (RunSafeCheck E us p)) = books p
   \<and> resolvedIPs (snd (RunSafeCheck E us p)) = resolvedIPs p"
proof (induction us arbitrary: p)
  case (Cons u us)
  let ?p1 = "snd (CheckURL E u p)"
  have l: "step_ok P p (snd (ProbeHost E h p))" if "TestingEnabled (pconf p)" for h
    using Cons.prems [OF that] by (rule step_ok_probe)
  have r: "resolvedIPs (snd (ProbeHost E h p)) = resolvedIPs p" "books (snd (ProbeHost E h p)) = books p" for h
    by (simp_all add: ProbeHost_def emit_def books_def)
  have s: "step_ok P p ?p1 \<and> books ?p1 = books p \<and> resolvedIPs ?p1 = resolvedIPs p"
    using CheckURL_pure [of E u p] l r by auto
  then have "pconf ?p1 = pconf p" using fixed_checks(6) step_ok_fixed by blast
  then show ?case
    using Cons.IH [of ?p1] Cons.prems s step_ok_trans by (auto simp: Let_def split: prod.split)
qed simp

lemma RunSafeCheck_steps:
  "step_ok is_lookup p (snd (RunSafeCheck E us p)) \<and> books (snd (RunSafeCheck E us p)) = books p
   \<and> resolvedIPs (snd (RunSafeCheck E us p)) = resolvedIPs p"
  by (rule RunSafeCheck_probes) (simp add: is_lookup_def)

section \<open>Header filters\<close>

lemma RedactResponseHeaders_map:
  "map_of (RedactResponseHeaders h) k =
    (if k \<in> {''Authorization'', ''Cookie'', ''Set-Cookie''} then None else map_of h k)"
  by (simp add: RedactResponseHeaders_def go_eval)

lemma canonical_hopByHop:
  "canonical_key ` set hopByHop = {''Connection'', ''Keep-Alive'', ''Proxy-Authenticate'',
     ''Proxy-Authorization'', ''Te'', ''Trailer'', ''Transfer-Encoding'', ''Upgrade''}"
  by (simp add: hopByHop_def go_eval)

lemma stripHopByHopHeaders_map:
  "map_of (stripHopByHopHeaders h) k =
    (if k \<in> canonical_key ` (set hopByHop \<union> set (connection_names h)) then None else map_of h k)"
  unfolding stripHopByHopHeaders_def by (simp add: fold_header_del image_Un)

lemma fold_header_del_subset: "set (fold header_del ks h) \<subseteq> set h"
proof (induction ks arbitrary: h)
  case (Cons k ks)
  have "set (header_del k h) \<subseteq> set h" by (auto simp: header_del_def AList.delete_eq)
  then show ?case using Cons [of "header_del k h"] by simp
qed simp

lemma outgoing_header:
  assumes "canonical_header h"
    and "k \<in> canonical_key ` (set hopByHop \<union> set (connection_names h))"
  shows "map_of (header_copy (stripHopByHopHeaders h) []) k = None"
proof (rule ccontr)
  let ?s = "stripHopByHopHeaders h"
  assume "map_of (header_copy ?s []) k \<noteq> None"
  then have "k \<in> canonical_key ` fst ` set ?s" using header_copy_keys [of ?s "[]" k] by simp
  moreover have "set ?s \<subseteq> set h"
    unfolding stripHopByHopHeaders_def
    by (rule subset_trans [OF fold_header_del_subset fold_header_del_subset])
  ultimately have "k \<in> fst ` set ?s" using assms(1) by (auto simp: canonical_header_def)
  then have "map_of ?s k \<noteq> None" by (simp add: map_of_eq_None_iff)
  then show False using assms(2) by (simp add: stripHopByHopHeaders_map)
qed

section \<open>Runs that pass every layer\<close>

lemma ServeHTTP_resolves:
  assumes "path (req_url r) \<noteq> ''/health''" "req_method r \<noteq> ''CONNECT''"
    "\<not> CheckKillSwitch p" "TestingEnabled (pconf p)"
    "ParseAndNormalizeURL E r = Inr (v, uri)" "url_permitted E p v"
  shows "ServeHTTP E r p = serve_resolve E r v (Host (tenv E) (hostname v)) uri p"
  using assms by (simp add: ServeHTTP_def url_permitted_def CheckHostScope_def Let_def)

lemma validate_redirect_ok:
  assumes "url_permitted E p u" "Host (tenv E) (hostname u) = h" "h \<noteq> []"
    "LookupHost E h p = (Inr ips, p1)" "ValidateIPs ips = None"
  shows "validateRedirectTarget E u p = (None, storeResolvedIPs E h ips p1)"
  using assms by (simp add: validateRedirectTarget_def url_permitted_def CheckHostScope_def Let_def)

lemma repin_ok:
  assumes "Host (tenv E) (hostname (req_url r)) = h" "h \<noteq> []" "parse_ip h = None"
    "LookupHost E h p = (Inr ips, p1)" "ValidateIPs ips = None"
  shows "repin E r p = storeResolvedIPs E h ips p1"
  using assms by (simp add: repin_def Let_def)

end
