(* ===== verification/Proxy_Demo.thy ===== *)
theory Proxy_Demo
  imports Proxy_Pins
begin

text \<open>
  A concrete program, environment and request on which the proxy forwards: the inputs of the
  witnesses. The upstream answers the first request with a redirect inside the scope and the
  second with a page.
\<close>



definition demo_scope :: ScopeConfig where
  "demo_scope = \<lparr>
    Include = [\<lparr> RuleType = ''exact_host'', RuleValue = ''a.io'', RuleHost = [], IncludeApex = False \<rparr>],
    Exclude = [\<lparr> RuleType = ''path_prefix'', RuleValue = ''/adm'', RuleHost = ''a.io'',
                 IncludeApex = False \<rparr>] \<rparr>"

definition demo_limits :: LimitsConfig where
  "demo_limits = \<lparr> RequestsPerSecondPerHost = 2, MaxConcurrency = 4, MaxResponseBytes = 4096,
     AllowedSchemes = [''https''], AllowedPorts = [443], MaxRequestsPerJob = 0, MaxCrawlDepth = 0 \<rparr>"

definition demo_config :: ProxyConfig where
  "demo_config = \<lparr> ListenAddr = [], ProgramID = ''p'', ScopeCfg = demo_scope, PLimits = demo_limits,
     PSchemes = [''https''], PPorts = [443], DryRun = False, TestingEnabled = True \<rparr>"

definition demo_proxy :: Proxy where
  "demo_proxy = NewProxy demo_config None"

definition demo_target :: string where "demo_target = ''https://a.io/y''"

definition demo_url :: url where
  "demo_url = (case url_parse demo_target of Inr u \<Rightarrow> u | Inl _ \<Rightarrow> empty_url)"

definition demo_env :: penv where
  "demo_env = \<lparr> tenv = ascii_env,
     dns = (\<lambda>n h. Inr [''93.184.216.34'']), evict = (\<lambda>_. 0),
     upstream = (\<lambda>n d u. if n = 0 then HopRedirect demo_url \<lparr> status = 302, resp_header = [], resp_body = [] \<rparr>
        else HopDone \<lparr> status = 200, resp_header = [(''Set-Cookie'', [''s''])], resp_body = ''ok'' \<rparr>),
     msg = (\<lambda>_. []), tunnel_ok = (\<lambda>_. True), hijack_err = None, write_200_ok = True,
     valid_method = (\<lambda>_. True), rl_clock = (0, 0, 0), log_id = ''1'', log_now = 0 \<rparr>"

definition demo_request :: request where
  "demo_request = \<lparr> req_method = ''GET'', req_url = empty_url\<lparr> path := ''/x'' \<rparr>, req_host = ''a.io'',
     req_tls = True, req_header = [(''Connection'', [''X-A'']), (''X-A'', [''1''])], req_body = [],
     req_hijackable = True \<rparr>"

lemma demo_proxy_ok: "resolved_ok demo_proxy"
  by (simp add: resolved_ok_def demo_proxy_def NewProxy_def)

lemma demo_url_eq: "demo_url = empty_url\<lparr> scheme := ''https'', host := ''a.io'', path := ''/y'' \<rparr>"
  by (simp add: demo_url_def demo_target_def go_eval)
lemma demo_parse:
  "ParseAndNormalizeURL demo_env demo_request
    = Inr (demo_url\<lparr> path := ''/x'' \<rparr>, ''https://a.io/x'')"
  unfolding demo_url_eq
  by (simp add: demo_env_def demo_request_def ParseAndNormalizeURL_def go_eval)
lemmas demo_defs = demo_env_def demo_request_def demo_proxy_def NewProxy_def demo_config_def demo_scope_def NewEngine_def demo_limits_def NewPerHostLimiter_def new_switch_def NewLogger_def
lemma demo_permitted: "url_permitted demo_env demo_proxy demo_url"
   "url_permitted demo_env demo_proxy (demo_url\<lparr> path := ''/x'' \<rparr>)"
  unfolding demo_url_eq
  by (simp_all add: url_permitted_def demo_defs go_eval)
definition demo_x :: url where "demo_x = demo_url\<lparr> path := ''/x'' \<rparr>"
lemma demo_serve: "ServeHTTP demo_env demo_request demo_proxy = serve_resolve demo_env demo_request demo_x ''a.io'' ''https://a.io/x'' demo_proxy"
proof -
  have s: "path (req_url demo_request) \<noteq> ''/health''" "req_method demo_request \<noteq> ''CONNECT''"
    "\<not> CheckKillSwitch demo_proxy" "TestingEnabled (pconf demo_proxy)"
    by (simp_all add: demo_defs go_eval)
  have h: "Host (tenv demo_env) (hostname demo_x) = ''a.io''"
    by (simp add: demo_x_def demo_url_eq demo_env_def go_eval)
  show ?thesis using ServeHTTP_resolves [OF s demo_parse, folded demo_x_def] demo_permitted(2)[folded demo_x_def] by (simp add: h)
qed
definition demo_pinned :: Proxy where
  "demo_pinned = snd (CheckRateLimit demo_env ''a.io'' (storeResolvedIPs demo_env ''a.io'' [''93.184.216.34''] (snd (LookupHost demo_env ''a.io'' demo_proxy))))"
lemma demo_dns: "LookupHost demo_env h p = (Inr [''93.184.216.34''], snd (LookupHost demo_env h p))"
  by (simp add: LookupHost_def demo_env_def)
lemma demo_rate: "fst (CheckRateLimit demo_env ''a.io'' (storeResolvedIPs demo_env ''a.io'' [''93.184.216.34''] (snd (LookupHost demo_env ''a.io'' demo_proxy))))"
  by (simp add: demo_defs go_eval seconds_of_def)
lemma demo_ips: "ValidateIPs [''93.184.216.34''] = None"
  by (simp add: go_eval)
lemma demo_resolve: "\<exists>d. serve_resolve demo_env demo_request demo_x ''a.io'' ''https://a.io/x'' demo_proxy =
   ForwardRequest demo_env (demo_request\<lparr> req_url := demo_x \<rparr>) (LogDecision demo_env ''allow'' d demo_pinned)"
proof -
  have dry: "\<not> DryRun (pconf (storeResolvedIPs demo_env ''a.io'' [''93.184.216.34''] (snd (LookupHost demo_env ''a.io'' demo_proxy))))"
    by (simp add: demo_defs go_eval)
  have r: "CheckRateLimit demo_env ''a.io'' (storeResolvedIPs demo_env ''a.io'' [''93.184.216.34''] (snd (LookupHost demo_env ''a.io'' demo_proxy)))
    = (True, demo_pinned)" using demo_rate by (simp add: demo_pinned_def prod_eq_iff)
  show ?thesis unfolding serve_resolve_def Let_def by (subst demo_dns) (simp add: demo_ips dry r, blast)
qed
lemma demo_reparse: "url_parse (url_string demo_x) = Inr demo_x"
  by (simp add: demo_x_def demo_url_eq go_eval)
lemma demo_new: "new_request_url demo_x = demo_x"
  by (simp add: demo_x_def demo_url_eq go_eval)
definition page :: http_response where
  "page = \<lparr> status = 200, resp_header = [(''Set-Cookie'', [''s''])], resp_body = ''ok'' \<rparr>"
definition moved :: http_response where
  "moved = \<lparr> status = 302, resp_header = [], resp_body = [] \<rparr>"

lemma demo_round:
  assumes "u \<in> {demo_x, demo_url}"
  shows "\<exists>q'. round_trip demo_env u q = (if sends q = 0 then HopRedirect demo_url moved else HopDone page, q')
    \<and> sent q' = sent q @ [u] \<and> sends q' = Suc (sends q) \<and> fixed q' = fixed q"
  using assms
  by (auto simp: demo_x_def demo_url_eq round_trip_def demo_env_def Let_def empty_url_def moved_def page_def emit_def sent_def fixed_def)

lemma demo_client:
  assumes "sends q = 0" "fixed q = fixed demo_proxy"
  shows "\<exists>q'. client_do demo_env 0 demo_x q = (Inr page, q') \<and> sent q' = sent q @ [demo_x, demo_url]"
proof -
  obtain q1 where q1: "round_trip demo_env demo_x q = (HopRedirect demo_url moved, q1)"
    "sent q1 = sent q @ [demo_x]" "sends q1 = 1" "fixed q1 = fixed demo_proxy"
    using demo_round [of demo_x q] assms by auto
  have h: "Host (tenv demo_env) (hostname demo_url) = ''a.io''"
    by (simp add: demo_url_eq demo_env_def go_eval)
  define q2 where "q2 = storeResolvedIPs demo_env ''a.io'' [''93.184.216.34''] (snd (LookupHost demo_env ''a.io'' q1))"
  have v: "validateRedirectTarget demo_env demo_url q1 = (None, q2)"
    unfolding q2_def
    using demo_permitted(1) fixed_permitted(1) [OF q1(4), of demo_env] demo_ips
    by (intro validate_redirect_ok [OF _ h _ demo_dns]) simp_all
  have q2: "sends q2 = 1" "sent q2 = sent q @ [demo_x]"
    using q1 by (simp_all add: q2_def) (simp add: storeResolvedIPs_def LookupHost_def emit_def Let_def)
  obtain q3 where q3: "round_trip demo_env demo_url q2 = (HopDone page, q3)"
    "sent q3 = sent q2 @ [demo_url]"
    using demo_round [of demo_url q2] q2 by auto
  have "client_do demo_env 1 demo_url q2 = (Inr page, q3)"
    by (subst client_do.simps) (simp add: q3)
  then have "client_do demo_env 0 demo_x q = (Inr page, q3)"
    by (subst client_do.simps) (simp add: q1 v)
  then show ?thesis using q3 q2 by simp
qed

lemma demo_pinned_eqs: "sends demo_pinned = 0" "fixed demo_pinned = fixed demo_proxy" "sent demo_pinned = []"
proof -
  let ?q = "storeResolvedIPs demo_env ''a.io'' [''93.184.216.34''] (snd (LookupHost demo_env ''a.io'' demo_proxy))"
  have "step_ok (\<lambda>_. True) demo_proxy demo_pinned"
    unfolding demo_pinned_def
    by (rule step_ok_trans [OF step_ok_trans [OF step_ok_lookup step_ok_store] step_ok_rate]) (simp_all add: demo_ips)
  then show "fixed demo_pinned = fixed demo_proxy" by (rule step_ok_fixed)
  show "sends demo_pinned = 0"
    by (simp add: demo_pinned_def CheckRateLimit_def storeResolvedIPs_def LookupHost_def emit_def Let_def demo_proxy_def NewProxy_def split: prod.split)
  show "sent demo_pinned = []"
    by (simp add: demo_pinned_def) (simp add: sent_def demo_proxy_def NewProxy_def)
qed

lemma demo_redacted: "RedactResponseHeaders (header_copy (resp_header page) []) = []"
  by (simp add: page_def go_eval)

theorem demo_run:
  "sent (snd (ServeHTTP demo_env demo_request demo_proxy)) = [demo_x, demo_url]"
  "fst (ServeHTTP demo_env demo_request demo_proxy) = RForward 200 [] ''ok''"
  "dials (snd (ServeHTTP demo_env demo_request demo_proxy)) \<noteq> []"
proof -
  obtain d where d: "ServeHTTP demo_env demo_request demo_proxy =
     ForwardRequest demo_env (demo_request\<lparr> req_url := demo_x \<rparr>) (LogDecision demo_env ''allow'' d demo_pinned)"
    using demo_serve demo_resolve by auto
  let ?p = "LogDecision demo_env ''allow'' d demo_pinned"
  let ?r = "demo_request\<lparr> req_url := demo_x \<rparr>"
  let ?q = "emit (EvOutgoing (req_method ?r) (header_copy (stripHopByHopHeaders (req_header ?r)) [])) (repin demo_env ?r ?p)"
  have h: "Host (tenv demo_env) (hostname demo_x) = ''a.io''"
    by (simp add: demo_x_def demo_url_eq demo_env_def go_eval)
  have rep: "repin demo_env ?r ?p = storeResolvedIPs demo_env ''a.io'' [''93.184.216.34''] (snd (LookupHost demo_env ''a.io'' ?p))"
    by (rule repin_ok [OF _ _ _ demo_dns demo_ips]) (simp_all add: h, simp add: go_eval)
  have 0: "sends ?q = 0" using demo_pinned_eqs(1)
    by (simp add: rep) (simp add: emit_def storeResolvedIPs_def LookupHost_def LogDecision_def Let_def)
  have f: "fixed ?q = fixed demo_proxy"
    using demo_pinned_eqs(2) by (simp add: rep) (simp add: fixed_def emit_def storeResolvedIPs_def LookupHost_def LogDecision_def Let_def)
  have s: "sent ?q = []" using demo_pinned_eqs(3) by (simp add: rep)
  obtain q' where "client_do demo_env 0 demo_x ?q = (Inr page, q')" "sent q' = [demo_x, demo_url]"
    using demo_client [OF 0 f] s by auto
  moreover have "dials (snd (client_do demo_env 0 demo_x ?q)) \<noteq> []"
    by (rule client_do_dials) (simp_all add: demo_x_def demo_url_eq)
  moreover have "valid_method demo_env m" for m by (simp add: demo_env_def)
  ultimately show "sent (snd (ServeHTTP demo_env demo_request demo_proxy)) = [demo_x, demo_url]"
    "fst (ServeHTTP demo_env demo_request demo_proxy) = RForward 200 [] ''ok''"
    "dials (snd (ServeHTTP demo_env demo_request demo_proxy)) \<noteq> []"
    unfolding d by (simp_all add: ForwardRequest_def demo_reparse demo_new Let_def demo_redacted) (simp_all add: page_def)
qed
end
