(* ===== verification/Gateway.thy ===== *)
theory Gateway
  imports Proxy_Demo
begin

text \<open>
  The proxy as a state machine: \<open>gw_op\<close> are the calls its clients make (requests, programmatic
  checks, the kill switch, the limiter resets), \<open>gw_reach\<close> the states any sequence of them
  reaches from \<open>NewProxy\<close>, each call in an environment of its own. Calls are atomic here:
  the handlers of concurrent requests share only state that has a lock of its own. The
  invariant \<open>gw_inv\<close> composes the invariants of the components with the safety of the trace.
\<close>

section \<open>Calls and reachable states\<close>

datatype gw_op =
    GwServe request
  | GwCheck "string list"
  | GwKill instant string
  | GwUnkill
  | GwReset string
  | GwResetAll

fun gw_apply :: "penv \<Rightarrow> gw_op \<Rightarrow> Proxy \<Rightarrow> Proxy" where
  "gw_apply E (GwServe r) p = snd (ServeHTTP E r p)"
| "gw_apply E (GwCheck urls) p = snd (RunSafeCheck E urls p)"
| "gw_apply E (GwKill t who) p = p\<lparr> switch := Activate t who (switch p) \<rparr>"
| "gw_apply E GwUnkill p = p\<lparr> switch := Deactivate (switch p) \<rparr>"
| "gw_apply E (GwReset h) p = p\<lparr> limiter := Reset h (limiter p) \<rparr>"
| "gw_apply E GwResetAll p = p\<lparr> limiter := ResetAll (limiter p) \<rparr>"

definition gw_run :: "(penv \<times> gw_op) list \<Rightarrow> Proxy \<Rightarrow> Proxy" where
  "gw_run ops p = fold (\<lambda>(E, op). gw_apply E op) ops p"

inductive gw_reach :: "penv \<Rightarrow> ProxyConfig \<Rightarrow> Proxy \<Rightarrow> bool" for E0 cfg where
  start: "pred_option logger_ok l \<Longrightarrow> gw_reach E0 cfg (NewProxy cfg l)"
| step: "gw_reach E0 cfg p \<Longrightarrow> tenv E = tenv E0 \<Longrightarrow> gw_reach E0 cfg (gw_apply E op p)"

text \<open>What the checks of a proxy read: its engine and its configuration.\<close>

lemma event_permitted_cong:
  assumes "tenv E = tenv E'" "engine p = engine p'" "pconf p = pconf p'" "dialFn p = dialFn p'"
  shows "event_permitted E p = event_permitted E' p'"
proof -
  have "url_permitted E p = url_permitted E' p'"
    by (auto simp: url_permitted_def ValidateScheme_def ValidatePort_def CheckPathExclusion_def assms
        Let_def fun_eq_iff split: option.splits)
  moreover have "ValidateScheme p = ValidateScheme p'" "ValidatePort p = ValidatePort p'"
    by (auto simp: ValidateScheme_def ValidatePort_def assms fun_eq_iff split: option.splits)
  ultimately have "event_permitted E p ev = event_permitted E' p' ev" for ev
    by (cases ev) (simp_all add: event_permitted_def send_permitted_def host_permitted_def assms
        dial_permitted_cong [OF assms(4)])
  then show ?thesis by (rule ext)
qed

definition gw_inv :: "penv \<Rightarrow> ProxyConfig \<Rightarrow> Proxy \<Rightarrow> bool" where
  "gw_inv E cfg p =
    (engine p = engine (NewProxy cfg None) \<and> pconf p = pconf (NewProxy cfg None) \<and> \<not> dialFn p
     \<and> resolved_ok p \<and> logger_ok (plog p) \<and> switch_ok (switch p)
     \<and> list_all (event_permitted E (NewProxy cfg None)) (trace p))"

lemma gw_inv_start: "pred_option logger_ok l \<Longrightarrow> gw_inv E cfg (NewProxy cfg l)"
  by (cases l) (simp_all add: gw_inv_def NewProxy_def resolved_ok_def switch_ok_def new_switch_def)

text \<open>A permitted step with a log that grows by entries keeps the invariant.\<close>

lemma gw_inv_step:
  assumes "gw_inv E0 cfg p" "tenv E = tenv E0" "step_ok (event_permitted E p) p p'" "logger_ok (plog p')"
  shows "gw_inv E0 cfg p'"
proof -
  have f: "fixed p' = fixed p" using assms(3) by (rule step_ok_fixed)
  have "event_permitted E p = event_permitted E0 (NewProxy cfg None)"
    using assms(1,2) by (intro event_permitted_cong) (simp_all add: gw_inv_def NewProxy_def)
  then show ?thesis using assms f
    by (auto simp: gw_inv_def step_ok_def fixed_def)
qed

lemma append_entry_ok: "logger_ok l \<Longrightarrow> logger_ok (append_entry e l)"
  by (rule logger_ring.push_ok)

text \<open>A call logs at most one entry.\<close>

definition logs_once :: "Proxy \<Rightarrow> Proxy \<Rightarrow> bool" where
  "logs_once p p' = (plog p' = plog p \<or> one_entry p p')"

lemma logs_once_ok: "logs_once p p' \<Longrightarrow> logger_ok (plog p) \<Longrightarrow> logger_ok (plog p')"
  by (auto simp: logs_once_def one_entry_def append_entry_ok)

lemma logs_once_refl [simp]: "plog q = plog p \<Longrightarrow> logs_once p q"
  by (simp add: logs_once_def)

lemma logs_once_deny [simp]:
  "plog q = plog p \<Longrightarrow> logs_once p (snd (deny E ev d reason q))"
  "plog q = plog p \<Longrightarrow> logs_once p (snd (connect_deny E r a reason extra q))"
  by (simp_all add: logs_once_def connect_deny_def one_entry_deny)

lemma plog_open_tunnel [simp]: "plog (snd (open_tunnel E r h port p)) = plog p"
  by (simp add: open_tunnel_def emit_def Let_def split: option.split)

lemma plog_lookup: "LookupHost E h p = (res, p1) \<Longrightarrow> plog p1 = plog p"
  by (auto simp: LookupHost_def emit_def)

lemma plog_store [simp]: "plog (storeResolvedIPs E h ips p) = plog p"
  by (simp add: storeResolvedIPs_def Let_def)

lemma plog_check_rate: "CheckRateLimit E h p = (ok, p1) \<Longrightarrow> plog p1 = plog p"
  using plog_rate [of E h p] by simp

lemma logs_once_connect_resolve: "logs_once p (snd (connect_resolve E r a h port p))"
  by (auto simp: connect_resolve_def plog_lookup plog_check_rate split: prod.split sum.split option.split)

lemma logs_once_handleConnect: "logs_once p (snd (handleConnect E r p))"
  by (rule handleConnect_after) (simp_all add: logs_once_connect_resolve)

lemma logs_once_ServeHTTP: "logs_once p (snd (ServeHTTP E r p))"
proof -
  consider "path (req_url r) = ''/health''" | "req_method r = ''CONNECT''" "path (req_url r) \<noteq> ''/health''"
    | "path (req_url r) \<noteq> ''/health''" "req_method r \<noteq> ''CONNECT''" by blast
  then show ?thesis
  proof cases
    case 1 then show ?thesis by (simp add: ServeHTTP_def)
  next
    case 2 then show ?thesis by (simp add: ServeHTTP_def logs_once_handleConnect)
  next
    case 3 then show ?thesis by (simp add: logs_once_def one_entry_ServeHTTP)
  qed
qed

lemma step_ok_weaken: "step_ok P p p' \<Longrightarrow> (\<And>ev. P ev \<Longrightarrow> Q ev) \<Longrightarrow> step_ok Q p p'"
  by (auto simp: step_ok_def list_all_iff)

lemma gw_inv_apply:
  assumes inv: "gw_inv E0 cfg p" and E: "tenv E = tenv E0"
  shows "gw_inv E0 cfg (gw_apply E op p)"
proof (cases op)
  case (GwServe r)
  have "step_ok (event_permitted E p) p (snd (ServeHTTP E r p))"
    using inv by (intro step_ok_ServeHTTP) (simp add: gw_inv_def)
  moreover have "logger_ok (plog (snd (ServeHTTP E r p)))"
    using logs_once_ok [OF logs_once_ServeHTTP] inv by (simp add: gw_inv_def)
  ultimately show ?thesis unfolding GwServe gw_apply.simps by (rule gw_inv_step [OF inv E])
next
  case (GwCheck urls)
  have s: "step_ok (event_permitted E p) p (snd (RunSafeCheck E urls p))"
    "books (snd (RunSafeCheck E urls p)) = books p"
    using RunSafeCheck_probes [of p "event_permitted E p" E urls] by (simp_all add: event_permitted_def)
  note s(1)
  moreover have "logger_ok (plog (snd (RunSafeCheck E urls p)))"
    using books_eq [OF s(2)] inv by (simp add: gw_inv_def)
  ultimately show ?thesis unfolding GwCheck gw_apply.simps by (rule gw_inv_step [OF inv E])
next
  case (GwKill t who)
  then show ?thesis using inv by (cases "activated (switch p)")
    (auto simp: gw_inv_def resolved_ok_def switch_ok_def Activate_def)
qed (use inv in \<open>simp_all add: gw_inv_def resolved_ok_def switch_ok_def Deactivate_def\<close>)

lemma gw_reach_inv: "gw_reach E cfg p \<Longrightarrow> gw_inv E cfg p"
  by (induction rule: gw_reach.induct) (simp_all add: gw_inv_start gw_inv_apply)

text \<open>Behind an active kill switch nothing leaves the process until somebody opens it.\<close>

lemma killed_serve:
  assumes "CheckKillSwitch p"
  shows "trace (snd (ServeHTTP E r p)) = trace p \<and> switch (snd (ServeHTTP E r p)) = switch p"
proof (cases "path (req_url r) = ''/health''")
  case True then show ?thesis by (simp add: ServeHTTP_def)
next
  case False
  then show ?thesis using kill_switch_blocks [OF assms False, of E] by (auto simp: LogDecision_def)
qed

lemma killed_check: "CheckKillSwitch p \<Longrightarrow> snd (CheckURL E raw p) = p"
  by (simp add: CheckURL_def Let_def split: sum.split)

lemma killed_checks: "CheckKillSwitch p \<Longrightarrow> snd (RunSafeCheck E urls p) = p"
  by (induction urls) (simp_all add: split_beta killed_check)

lemma killed_apply:
  assumes "CheckKillSwitch p" "op \<noteq> GwUnkill"
  shows "trace (gw_apply E op p) = trace p \<and> CheckKillSwitch (gw_apply E op p)"
  using assms killed_serve [OF assms(1), of E] killed_checks [OF assms(1), of E]
  by (cases op) (simp_all add: CheckKillSwitch_def IsActive_def Activate_def)

lemma killed_run:
  "CheckKillSwitch p \<Longrightarrow> list_all (\<lambda>(E, op). op \<noteq> GwUnkill) ops \<Longrightarrow>
   trace (gw_run ops p) = trace p \<and> CheckKillSwitch (gw_run ops p)"
proof (induction ops arbitrary: p)
  case (Cons x ops)
  obtain E op where x: "x = (E, op)" by (cases x)
  have "op \<noteq> GwUnkill" using Cons.prems(2) by (simp add: x)
  note k = killed_apply [OF Cons.prems(1) this, of E]
  then show ?case using Cons.IH [of "gw_apply E op p"] Cons.prems(2) by (simp add: gw_run_def x)
qed (simp add: gw_run_def)

section \<open>Redirects\<close>

text \<open>What a redirect target has to satisfy, and the lookup that decides it.\<close>

definition redirect_ok :: "penv \<Rightarrow> Proxy \<Rightarrow> url \<Rightarrow> bool" where
  "redirect_ok E p u =
    (let h = Host (tenv E) (hostname u)
     in h \<noteq> [] \<and> url_permitted E p u
        \<and> (case dns E (lookups p) h of Inl _ \<Rightarrow> False | Inr ips \<Rightarrow> ValidateIPs ips = None))"

lemma redirect_ok_iff: "fst (validateRedirectTarget E u p) = None \<longleftrightarrow> redirect_ok E p u"
  by (auto simp: validateRedirectTarget_def redirect_ok_def url_permitted_def LookupHost_def
      CheckHostScope_def Let_def split: sum.split option.split)

text \<open>The kill switch and the limiter are not part of it.\<close>

lemma redirect_ignores_switch:
  "redirect_ok E (p\<lparr> switch := s, limiter := l \<rparr>) u = redirect_ok E p u"
  by (simp add: redirect_ok_def url_permitted_def ValidateScheme_def ValidatePort_def
      CheckPathExclusion_def Let_def split: option.split)

lemma validate_redirect_store:
  assumes "redirect_ok E p u" "h = Host (tenv E) (hostname u)"
  shows "\<exists>ips. dns E (lookups p) h = Inr ips
    \<and> validateRedirectTarget E u p = (None, storeResolvedIPs E h ips (snd (LookupHost E h p)))"
proof -
  from assms obtain ips where ips: "dns E (lookups p) h = Inr ips" "ValidateIPs ips = None"
    by (auto simp: redirect_ok_def Let_def split: sum.splits)
  have "LookupHost E h p = (Inr ips, snd (LookupHost E h p))" using ips by (simp add: LookupHost_def)
  then show ?thesis
    using validate_redirect_ok [of E p u h ips "snd (LookupHost E h p)"] assms ips
    by (auto simp: redirect_ok_def Let_def)
qed

lemma sent_redirect: "round_trip E u p = (HopRedirect v resp, p1) \<Longrightarrow> sent p1 = sent p @ [u]"
  by (auto simp: round_trip_def Let_def split: if_splits)

lemma client_do_followed:
  assumes "round_trip E u p = (HopRedirect v resp, p1)" "redirect_ok E p1 v" "Suc via < 10"
  shows "\<exists>ips q. dns E (lookups p1) (Host (tenv E) (hostname v)) = Inr ips
    \<and> client_do E via u p = client_do E (Suc via) v q
    \<and> pinned q (Host (tenv E) (hostname v)) ips \<and> sent q = sent p @ [u]"
proof -
  let ?h = "Host (tenv E) (hostname v)"
  obtain ips where ips: "dns E (lookups p1) ?h = Inr ips"
    "validateRedirectTarget E v p1 = (None, storeResolvedIPs E ?h ips (snd (LookupHost E ?h p1)))"
    using validate_redirect_store [OF assms(2) refl] by blast
  have "client_do E via u p = client_do E (Suc via) v (storeResolvedIPs E ?h ips (snd (LookupHost E ?h p1)))"
    using assms(1,3) ips(2) by (subst client_do.simps) simp
  then show ?thesis using ips(1) pinned_store sent_redirect [OF assms(1)] by fastforce
qed

lemma client_do_stopped:
  assumes "round_trip E u p = (HopRedirect v resp, p1)" "\<not> (redirect_ok E p1 v \<and> Suc via < 10)"
  shows "sent (snd (client_do E via u p)) = sent p @ [u]
    \<and> (if redirect_ok E p1 v then fst (client_do E via u p) = Inr resp
       else \<exists>e. fst (client_do E via u p) = Inl (RedirectError e))"
proof -
  obtain err p2 where vr: "validateRedirectTarget E v p1 = (err, p2)"
    by (cases "validateRedirectTarget E v p1")
  have "sent p2 = sent p @ [u]"
    using sent_validate_redirect [of E v p1] vr sent_redirect [OF assms(1)] by simp
  moreover have "err = None \<longleftrightarrow> redirect_ok E p1 v" using redirect_ok_iff [of E v p1] vr by simp
  ultimately show ?thesis
    using assms by (cases err) (subst client_do.simps, simp add: vr)+
qed

section \<open>The entries of a CONNECT\<close>

text \<open>The outcomes of a CONNECT that passed the checks: nothing is logged for them.\<close>

definition unlogged :: "response \<Rightarrow> bool" where
  "unlogged x = (case x of RTunnel d \<Rightarrow> True | RTunnelFailed d \<Rightarrow> True | RNoTunnel \<Rightarrow> True
     | RDeny reason \<Rightarrow> (case reason of NotHijacker \<Rightarrow> True | HijackFailed e \<Rightarrow> True | _ \<Rightarrow> False)
     | _ \<Rightarrow> False)"

definition connect_logged :: "Proxy \<Rightarrow> response \<times> Proxy \<Rightarrow> bool" where
  "connect_logged p x = (if unlogged (fst x) then plog (snd x) = plog p else one_entry p (snd x))"

lemma connect_logged_deny [simp]:
  "plog q = plog p \<Longrightarrow> \<not> unlogged (RDeny reason) \<Longrightarrow> connect_logged p (deny E ev d reason q)"
  "plog q = plog p \<Longrightarrow> \<not> unlogged (RDeny reason) \<Longrightarrow> connect_logged p (connect_deny E r a reason extra q)"
  by (simp_all add: connect_logged_def connect_deny_def one_entry_deny) (simp_all add: deny_def)

lemma connect_logged_tunnel: "plog q = plog p \<Longrightarrow> connect_logged p (open_tunnel E r h port q)"
  by (auto simp: connect_logged_def)
    (auto simp: open_tunnel_def unlogged_def Let_def split: option.splits if_splits)

lemma connect_logged_resolve: "connect_logged p (connect_resolve E r a h port p)"
proof -
  have d: "\<not> unlogged (RDeny reason)"
    if "reason = DNSFailed h e \<or> reason = ResolvesBlocked h e \<or> reason = RateExceeded h" for reason e
    using that by (auto simp: unlogged_def)
  show ?thesis
    by (auto simp: connect_resolve_def plog_lookup plog_check_rate connect_logged_tunnel d
        split: prod.split sum.split option.split)
qed

lemma connect_logged_handle: "connect_logged p (handleConnect E r p)"
  by (auto simp: handleConnect_def Let_def connect_logged_resolve unlogged_def
      split: prod.split sum.split)

section \<open>Requests that pass every layer\<close>

text \<open>What holds of a request that reaches the forwarding step.\<close>

definition request_passes :: "penv \<Rightarrow> request \<Rightarrow> Proxy \<Rightarrow> url \<Rightarrow> string \<Rightarrow> string list \<Rightarrow> bool" where
  "request_passes E r p v uri ips =
    (path (req_url r) \<noteq> ''/health'' \<and> req_method r \<noteq> ''CONNECT'' \<and> \<not> CheckKillSwitch p
     \<and> TestingEnabled (pconf p) \<and> \<not> DryRun (pconf p)
     \<and> ParseAndNormalizeURL E r = Inr (v, uri) \<and> url_permitted E p v
     \<and> clean_answer E p (Host (tenv E) (hostname v)) ips)"

definition at_forward :: "penv \<Rightarrow> string \<Rightarrow> string list \<Rightarrow> Proxy \<Rightarrow> Proxy" where
  "at_forward E h ips p = snd (CheckRateLimit E h (storeResolvedIPs E h ips (snd (LookupHost E h p))))"

lemma at_forward_state:
  "limiter (at_forward E h ips p) = snd (Limiter_Allow h (rl_clock E) (limiter p))"
  "map_of (resolvedIPs (at_forward E h ips p)) h = Some ips"
  "sent (at_forward E h ips p) = sent p" "plog (at_forward E h ips p) = plog p"
  by (simp_all add: at_forward_def CheckRateLimit_def storeResolvedIPs_def LookupHost_def emit_def
      sent_def Let_def split_beta)

lemma serve_resolve_forwards:
  assumes "\<not> DryRun (pconf p)" "clean_answer E p h ips" "fst (Limiter_Allow h (rl_clock E) (limiter p))"
  shows "\<exists>d. serve_resolve E r v h uri p
    = ForwardRequest E (r\<lparr> req_url := v \<rparr>) (LogDecision E ''allow'' d (at_forward E h ips p))"
proof -
  let ?p1 = "snd (LookupHost E h p)" let ?p2 = "storeResolvedIPs E h ips ?p1"
  have l: "LookupHost E h p = (Inr ips, ?p1)"
    using assms(2) by (simp add: LookupHost_def clean_answer_def)
  have lim: "limiter ?p2 = limiter p"
    by (simp add: storeResolvedIPs_def LookupHost_def emit_def Let_def)
  have r: "CheckRateLimit E h ?p2 = (True, at_forward E h ips p)"
    using assms(3) by (simp add: at_forward_def CheckRateLimit_def lim split_beta)
  have "\<not> DryRun (pconf ?p2)"
    using assms(1) by (simp add: storeResolvedIPs_def LookupHost_def emit_def Let_def)
  then show ?thesis using assms(2)
    by (subst serve_resolve_def, subst l) (auto simp: r clean_answer_def Let_def)
qed

lemma passes_forwards:
  assumes "request_passes E r p v uri ips"
    "fst (Limiter_Allow (Host (tenv E) (hostname v)) (rl_clock E) (limiter p))"
  shows "\<exists>d. ServeHTTP E r p = ForwardRequest E (r\<lparr> req_url := v \<rparr>)
    (LogDecision E ''allow'' d (at_forward E (Host (tenv E) (hostname v)) ips p))"
  using serve_resolve_forwards [OF _ _ assms(2), of ips r v uri] ServeHTTP_resolves [of r p E v uri] assms(1)
  unfolding request_passes_def by metis

lemma demo_passes: "request_passes demo_env demo_request demo_proxy demo_x ''https://a.io/x'' [''93.184.216.34'']"
  using demo_permitted(2)
  by (simp add: request_passes_def demo_parse demo_x_def clean_answer_def demo_ips)
    (simp add: demo_defs CheckKillSwitch_def IsActive_def)

definition demo_connect :: request where
  "demo_connect = demo_request\<lparr> req_method := ''CONNECT'', req_host := ''a.io:443'' \<rparr>"

lemma demo_connect_static:
  "handleConnect demo_env demo_connect demo_proxy
    = connect_resolve demo_env demo_connect ''a.io:443'' ''a.io'' 443 demo_proxy"
proof -
  have "split_host_port ''a.io:443'' = Inr (''a.io'', ''443'')" "Host (tenv demo_env) ''a.io'' = ''a.io''"
    by (simp_all add: demo_env_def go_eval)
  moreover have "\<not> CheckKillSwitch demo_proxy" "TestingEnabled (pconf demo_proxy)"
    "ValidateScheme demo_proxy ''https''" "ValidatePort demo_proxy ''443'' ''https'' = (443, True)"
    by (simp_all add: demo_defs go_eval)
  moreover have "fst (CheckHostScope demo_env demo_proxy ''a.io'')"
    by (simp add: demo_defs go_eval)
  moreover have "req_host demo_connect = ''a.io:443''"
    by (simp add: demo_connect_def demo_request_def)
  ultimately show ?thesis by (simp add: handleConnect_def)
qed

lemma demo_tunnel:
  "fst (handleConnect demo_env demo_connect demo_proxy) = RTunnel (DialPinned ''93.184.216.34:443'')"
proof -
  let ?q = "storeResolvedIPs demo_env ''a.io'' [''93.184.216.34'']
    (snd (LookupHost demo_env ''a.io'' demo_proxy))"
  have r: "CheckRateLimit demo_env ''a.io'' ?q = (True, demo_pinned)"
    using demo_rate by (simp add: demo_pinned_def prod_eq_iff)
  have "map_of (resolvedIPs demo_pinned) ''a.io'' = Some [''93.184.216.34'']" "\<not> dialFn demo_pinned"
    by (simp_all add: demo_pinned_def rate_pins [OF prod.collapse [symmetric]] stored_pin)
      (simp add: demo_defs go_eval CheckRateLimit_def split_beta)
  then have o: "fst (open_tunnel demo_env demo_connect ''a.io'' 443 demo_pinned)
      = RTunnel (DialPinned ''93.184.216.34:443'')"
    by (simp add: open_tunnel_def demo_connect_def demo_request_def demo_env_def) (simp add: go_eval)
  show ?thesis unfolding demo_connect_static connect_resolve_def
    by (subst demo_dns) (simp add: demo_ips r o)
qed

lemma demo_dials: "\<not> dialFn demo_proxy"
  by (simp add: demo_proxy_def NewProxy_def)

lemma demo_answers: "dns_nonempty demo_env"
  by (simp add: dns_nonempty_def demo_env_def)

end
