(* ===== verification/Go_Utf8.thy ===== *)
theory Go_Utf8
  imports Go_Strings
begin

text \<open>
  Strings that pass through \<open>encoding/json\<close>: every byte that is not part of a valid UTF-8 sequence
  comes back as the replacement character. \<open>json_string\<close> is what a string reads as after it has been
  written and read; decoding inverts encoding, so a second round changes nothing.
\<close>

section \<open>Encoding and decoding a rune\<close>

definition valid_rune :: "nat \<Rightarrow> bool" where
  "valid_rune r = (r \<le> 0x10FFFF \<and> \<not> (0xD800 \<le> r \<and> r \<le> 0xDFFF))"

text \<open>The runes of two, three and four bytes.\<close>

definition rune2 :: "nat \<Rightarrow> nat \<Rightarrow> nat" where "rune2 b0 b1 = (b0 - 0xC0) * 64 + (b1 - 0x80)"

definition rune3 :: "nat \<Rightarrow> nat \<Rightarrow> nat \<Rightarrow> nat" where
  "rune3 b0 b1 b2 = (b0 - 0xE0) * 4096 + (b1 - 0x80) * 64 + (b2 - 0x80)"

definition rune4 :: "nat \<Rightarrow> nat \<Rightarrow> nat \<Rightarrow> nat \<Rightarrow> nat" where
  "rune4 b0 b1 b2 b3 = (b0 - 0xF0) * 262144 + (b1 - 0x80) * 4096 + (b2 - 0x80) * 64 + (b3 - 0x80)"

lemmas decode_rune_eq = decode_rune.simps(2) [folded rune2_def rune3_def rune4_def]

lemma rune2_valid: "b0 \<le> 0xDF \<Longrightarrow> b1 \<le> 0xBF \<Longrightarrow> valid_rune (rune2 b0 b1)"
proof -
  assume "b0 \<le> 0xDF" "b1 \<le> 0xBF"
  then have "b0 - 0xC0 \<le> 31" "b1 - 0x80 \<le> 63" by simp_all
  then show ?thesis unfolding valid_rune_def rune2_def by linarith
qed

lemma rune3_valid:
  assumes "0xE0 \<le> b0" "b0 \<le> 0xEF" "0x80 \<le> b1" "b1 \<le> (if b0 = 0xED then 0x9F else 0xBF)" "0x80 \<le> b2" "b2 \<le> 0xBF"
  shows "valid_rune (rune3 b0 b1 b2)"
proof -
  obtain x y z where e: "b0 = 0xE0 + x" "b1 = 0x80 + y" "b2 = 0x80 + z"
    using assms(1,3,5) by (metis le_Suc_ex)
  then have "x \<le> 15" "y \<le> 63" "z \<le> 63" "x = 13 \<longrightarrow> y \<le> 31" using assms by (auto split: if_splits)
  then show ?thesis unfolding valid_rune_def e rune3_def by (cases "x \<le> 12"; cases "x = 13") auto
qed

lemma rune4_valid:
  assumes "0xF0 \<le> b0" "b0 \<le> 0xF4" "(if b0 = 0xF0 then 0x90 else 0x80) \<le> b1" "b1 \<le> (if b0 = 0xF4 then 0x8F else 0xBF)"
    "0x80 \<le> b2" "b2 \<le> 0xBF" "0x80 \<le> b3" "b3 \<le> 0xBF"
  shows "valid_rune (rune4 b0 b1 b2 b3)"
proof -
  have "0x80 \<le> b1" using assms(3) by (simp split: if_splits)
  then obtain x y z w where e: "b0 = 0xF0 + x" "b1 = 0x80 + y" "b2 = 0x80 + z" "b3 = 0x80 + w"
    using assms(1,5,7) by (metis le_Suc_ex)
  then have "x \<le> 4" "y \<le> 63" "z \<le> 63" "w \<le> 63" "x = 0 \<longrightarrow> 16 \<le> y" "x = 4 \<longrightarrow> y \<le> 15"
    using assms by (auto split: if_splits)
  then show ?thesis unfolding valid_rune_def e rune4_def by (cases "x = 0"; cases "x = 4") auto
qed

lemma decode_rune_valid: "valid_rune (fst (decode_rune s))"
proof (cases s)
  case (Cons c t)
  have err: "valid_rune rune_error" by (simp add: valid_rune_def rune_error_def)
  have one: "b < 0x80 \<Longrightarrow> valid_rune b" for b by (simp add: valid_rune_def)
  show ?thesis
    unfolding Cons
    by (auto simp: decode_rune_eq between_def err one rune2_valid rune3_valid rune4_valid Let_def
        split: list.split)
qed (simp add: valid_rune_def rune_error_def)

lemma decode2:
  assumes "2 \<le> x" "x < 32" "y < 64"
  shows "decode_rune (map char_of [0xC0 + x, 0x80 + y] @ s) = (x * 64 + y, 2)"
  using assms by (simp add: decode_rune.simps(2) between_def Let_def)

lemma decode3:
  assumes "x < 16" "y < 64" "z < 64" "x = 0 \<Longrightarrow> 32 \<le> y" "x = 13 \<Longrightarrow> y < 32"
  shows "decode_rune (map char_of [0xE0 + x, 0x80 + y, 0x80 + z] @ s) = (x * 4096 + y * 64 + z, 3)"
  using assms by (cases "x = 0"; cases "x = 13") (simp_all add: decode_rune.simps(2) between_def Let_def)

lemma decode4:
  assumes "x < 5" "y < 64" "z < 64" "w < 64" "x = 0 \<Longrightarrow> 16 \<le> y" "x = 4 \<Longrightarrow> y < 16"
  shows "decode_rune (map char_of [0xF0 + x, 0x80 + y, 0x80 + z, 0x80 + w] @ s)
    = (x * 262144 + y * 4096 + z * 64 + w, 4)"
  using assms by (cases "x = 0"; cases "x = 4") (simp_all add: decode_rune.simps(2) between_def Let_def)

lemma digits64: "r div 64 mod 64 * 64 + r mod 64 = r mod (4096 :: nat)" "r div 4096 = r div 64 div (64 :: nat)"
  "r div 262144 = r div 4096 div (64 :: nat)"
  using mod_mult2_eq [of r 64 64] by (simp_all add: div_mult2_eq [symmetric])

lemma decode_encode:
  assumes "valid_rune r"
  shows "decode_rune (encode_rune r @ s) = (r, length (encode_rune r))"
proof -
  have r: "r \<le> 0x10FFFF" "\<not> (0xD800 \<le> r \<and> r \<le> 0xDFFF)" using assms by (auto simp: valid_rune_def)
  have plain: "encode_rune r = map char_of
       (if r < 0x80 then [r]
        else if r < 0x800 then [0xC0 + r div 64, 0x80 + r mod 64]
        else if r < 0x10000 then [0xE0 + r div 4096, 0x80 + r div 64 mod 64, 0x80 + r mod 64]
        else [0xF0 + r div 262144, 0x80 + r div 4096 mod 64, 0x80 + r div 64 mod 64, 0x80 + r mod 64])"
  proof -
    have "(r > 0x10FFFF \<or> (0xD800 \<le> r \<and> r \<le> 0xDFFF)) = False" using r by auto
    then show ?thesis unfolding encode_rune_def by (simp only: if_False Let_def)
  qed
  let ?x = "r div 64" and ?y = "r div 4096" and ?z = "r div 262144"
  have m: "r = ?x * 64 + r mod 64" "r = ?y * 4096 + (?x mod 64 * 64 + r mod 64)"
    "r = ?z * 262144 + (?y mod 64 * 4096 + (?x mod 64 * 64 + r mod 64))"
    using digits64 [of r] div_mult_mod_eq [of r 64] div_mult_mod_eq [of r 4096] div_mult_mod_eq [of r 262144]
      mod_mult2_eq [of r 4096 64] by simp_all
  consider "r < 0x80" | "0x80 \<le> r" "r < 0x800" | "0x800 \<le> r" "r < 0x10000" | "0x10000 \<le> r" by linarith
  then show ?thesis
  proof cases
    case 1
    then show ?thesis by (simp add: encode_rune_def)
  next
    case 2
    then have e: "encode_rune r = map char_of [0xC0 + ?x, 0x80 + r mod 64]" by (simp add: plain)
    have "2 \<le> ?x" "?x < 32" using 2 by linarith+
    then show ?thesis unfolding e using decode2 [of ?x "r mod 64" s] by simp
  next
    case 3
    then have e: "encode_rune r = map char_of [0xE0 + ?y, 0x80 + ?x mod 64, 0x80 + r mod 64]"
      by (simp add: plain)
    have l: "r mod 64 < 64" "?x mod 64 < 64" by simp_all
    have "?y < 16" "?y = 0 \<Longrightarrow> 32 \<le> ?x mod 64" "?y = 13 \<Longrightarrow> ?x mod 64 < 32"
      using 3 r m(2) l by linarith+
    then have "decode_rune (encode_rune r @ s) = (?y * 4096 + ?x mod 64 * 64 + r mod 64, 3)"
      unfolding e using l by (intro decode3) auto
    then show ?thesis using m(2) by (simp add: e)
  next
    case 4
    then have e: "encode_rune r = map char_of [0xF0 + ?z, 0x80 + ?y mod 64, 0x80 + ?x mod 64, 0x80 + r mod 64]"
      by (simp add: plain)
    have l: "r mod 64 < 64" "?x mod 64 < 64" "?y mod 64 < 64" by simp_all
    have "?z < 5" "?z = 0 \<Longrightarrow> 16 \<le> ?y mod 64" "?z = 4 \<Longrightarrow> ?y mod 64 < 16"
      using 4 r m(3) l by linarith+
    then have "decode_rune (encode_rune r @ s) = (?z * 262144 + ?y mod 64 * 4096 + ?x mod 64 * 64 + r mod 64, 4)"
      unfolding e using l by (intro decode4) auto
    then show ?thesis using m(3) by (simp add: e)
  qed
qed

section \<open>Strings through the codec\<close>

definition json_string :: "string \<Rightarrow> string" where
  "json_string s = concat (map encode_rune (runes s))"

definition valid_utf8 :: "string \<Rightarrow> bool" where
  "valid_utf8 s = (json_string s = s)"

lemma json_string_ascii: "is_ascii s \<Longrightarrow> json_string s = s"
  by (induction s) (auto simp: json_string_def runes_def encode_rune_def)

lemma runes_valid: "r \<in> set (runes s) \<Longrightarrow> valid_rune r"
proof (induction s rule: chunks.induct)
  case (2 c s)
  obtain q n where d: "decode_rune (c # s) = (q, n)" by fastforce
  have "valid_rune q" using decode_rune_valid [of "c # s"] by (simp add: d)
  then show ?case using 2 d by (auto simp: runes_def chunks.simps(2))
qed (simp add: runes_def)

lemma encode_nonempty: "0 < length (encode_rune r)"
  by (simp add: encode_rune_def Let_def)

lemma runes_encode: "valid_rune r \<Longrightarrow> runes (encode_rune r @ s) = r # runes s"
proof -
  assume v: "valid_rune r"
  obtain c t where ct: "encode_rune r = c # t" using encode_nonempty [of r] by (cases "encode_rune r") auto
  have "decode_rune (c # t @ s) = (r, Suc (length t))" using decode_encode [OF v, of s] by (simp add: ct)
  then show ?thesis by (simp add: runes_def ct chunks.simps(2))
qed

lemma runes_json: "list_all valid_rune rs \<Longrightarrow> runes (concat (map encode_rune rs)) = rs"
  by (induction rs) (simp_all add: runes_encode, simp add: runes_def)

lemma json_string_idem [simp]: "json_string (json_string s) = json_string s"
  using runes_json [of "runes s"] runes_valid [of _ s] by (simp add: json_string_def list_all_iff)

lemma valid_json_string [simp]: "valid_utf8 (json_string s)"
  by (simp add: valid_utf8_def)

end
