(* ===== verification/Queue.thy ===== *)
theory Queue
  imports Prelude Go_Time Go_Utf8
begin

text \<open>
  \<open>internal/queue/queue.go\<close>: the task queue. The state is the JSON-lines file and the lock
  file. A line of the file is \<open>JLine\<close> with the task it decodes to, \<open>JBlank\<close> (only white
  space) or \<open>JBad\<close> (not a task); a task that is saved is stored as it reads back, its strings made
  valid UTF-8 by the JSON codec (\<open>stored\<close>). The temporary file is not part of the state: what it
  holds matters only when it is renamed. \<open>line_len\<close> is the length \<open>json.Marshal\<close> gives a task, which
  matters because \<open>bufio.Scanner\<close> refuses a line of 65536 bytes or more. The clock readings,
  the fresh identifier and the failures of the file system of one call are its \<open>q_env\<close>.
\<close>

section \<open>Data\<close>

record Task =
  TID :: string
  Target :: string
  TType :: string
  Priority :: int
  TStatus :: string
  Dependencies :: "string list"
  CreatedAt :: instant
  UpdatedAt :: instant
  TError :: string

datatype line = JLine Task | JBlank | JBad

record Queue =
  qfile :: "line list option" \<comment> \<open>\<open>None\<close>: the file does not exist\<close>
  qlock :: "instant option"   \<comment> \<open>modification time of the lock file\<close>

datatype save_stage = MkdirAll | CreateTemp | Marshal | WriteTemp | Sync | CloseTemp | Rename

record q_env =
  scopeValidator :: "(string \<Rightarrow> bool) option"
  line_len :: "Task \<Rightarrow> nat"
  lock_now :: instant
  now :: instant
  new_uuid :: string
  lock_create_ok :: bool   \<comment> \<open>the lock file can be created when it is absent\<close>
  open_fails :: bool       \<comment> \<open>opening the file fails for another reason than absence\<close>
  read_fails :: bool       \<comment> \<open>reading fails after the last complete line\<close>
  save_fails :: "save_stage option"

datatype q_err =
    CannotAcquireLock
  | OutOfScope string
  | InvalidType string
  | InvalidPriority int
  | OpenFailed
  | UnmarshalFailed
  | ReadFailed
  | TaskExists string
  | TaskNotFound string
  | SaveFailed save_stage

section \<open>The lock file\<close>

definition newLockFile :: "q_env \<Rightarrow> Queue \<Rightarrow> (q_err, Queue) result" where
  "newLockFile Q s =
    (case qlock s of
       None \<Rightarrow> if lock_create_ok Q then Inr (s\<lparr> qlock := Some (lock_now Q) \<rparr>)
               else Inl CannotAcquireLock
     | Some mtime \<Rightarrow>
       if lock_now Q - mtime > 30 * second
       then (if lock_create_ok Q then Inr (s\<lparr> qlock := Some (lock_now Q) \<rparr>)
             else Inl CannotAcquireLock)
       else Inl CannotAcquireLock)"

definition unlock :: "Queue \<Rightarrow> Queue" where
  "unlock s = s\<lparr> qlock := None \<rparr>"

text \<open>A stale lock that cannot be taken over has been removed already.\<close>

definition failed_lock :: "q_env \<Rightarrow> Queue \<Rightarrow> Queue" where
  "failed_lock Q s =
    (case qlock s of Some mtime \<Rightarrow> if lock_now Q - mtime > 30 * second then unlock s else s
     | None \<Rightarrow> s)"

text \<open>The frame of every operation: acquire, \<open>defer unlock()\<close>, body.\<close>

definition with_lock ::
  "q_env \<Rightarrow> (Queue \<Rightarrow> (q_err, 'a) result \<times> Queue) \<Rightarrow> Queue \<Rightarrow> (q_err, 'a) result \<times> Queue" where
  "with_lock Q body s =
    (case newLockFile Q s of
       Inl e \<Rightarrow> (Inl e, failed_lock Q s)
     | Inr s1 \<Rightarrow> (let (r, s2) = body s1 in (r, unlock s2)))"

section \<open>Loading and saving\<close>

definition max_line :: nat where "max_line = 65536"

fun scan_lines :: "q_env \<Rightarrow> line list \<Rightarrow> (q_err, Task list) result" where
  "scan_lines Q [] = (if read_fails Q then Inl ReadFailed else Inr [])"
| "scan_lines Q (JBlank # ls) = scan_lines Q ls"
| "scan_lines Q (JBad # ls) = Inl UnmarshalFailed"
| "scan_lines Q (JLine t # ls) =
    (if line_len Q t \<ge> max_line then Inl ReadFailed
     else (case scan_lines Q ls of Inl e \<Rightarrow> Inl e | Inr ts \<Rightarrow> Inr (t # ts)))"

definition loadTasks :: "q_env \<Rightarrow> Queue \<Rightarrow> (q_err, Task list) result" where
  "loadTasks Q s =
    (if open_fails Q then Inl OpenFailed
     else (case qfile s of None \<Rightarrow> Inr [] | Some ls \<Rightarrow> scan_lines Q ls))"

text \<open>A task written with \<open>json.Marshal\<close> and read back.\<close>

definition stored :: "Task \<Rightarrow> Task" where
  "stored t = t\<lparr> TID := json_string (TID t), Target := json_string (Target t),
     TType := json_string (TType t), TStatus := json_string (TStatus t),
     Dependencies := map json_string (Dependencies t), TError := json_string (TError t) \<rparr>"

definition save_lines :: "Task list \<Rightarrow> line list" where
  "save_lines ts = map (\<lambda>t. JLine (stored t)) ts"

text \<open>The queue file changes only at the rename, after every other stage.\<close>

definition saveTasks :: "q_env \<Rightarrow> Task list \<Rightarrow> Queue \<Rightarrow> (q_err, unit) result \<times> Queue" where
  "saveTasks Q ts s =
    (case save_fails Q of Some st \<Rightarrow> (Inl (SaveFailed st), s)
     | None \<Rightarrow> (Inr (), s\<lparr> qfile := Some (save_lines ts) \<rparr>))"

section \<open>Operations\<close>

definition NewQueue :: "Queue" where
  "NewQueue = \<lparr> qfile = None, qlock = None \<rparr>"

definition valid_types :: "string list" where
  "valid_types = [''recon'', ''vuln'', ''payload'', ''analyze'']"

definition with_defaults :: "q_env \<Rightarrow> Task \<Rightarrow> Task" where
  "with_defaults Q t =
    (let t1 = (if TID t = [] then t\<lparr> TID := new_uuid Q \<rparr> else t);
         t2 = (if TStatus t1 = [] then t1\<lparr> TStatus := ''pending'' \<rparr> else t1)
     in t2\<lparr> CreatedAt := now Q, UpdatedAt := now Q \<rparr>)"

definition add_body :: "q_env \<Rightarrow> Task \<Rightarrow> Queue \<Rightarrow> (q_err, unit) result \<times> Queue" where
  "add_body Q task s =
    (if (case scopeValidator Q of None \<Rightarrow> False | Some v \<Rightarrow> \<not> v (Target task))
     then (Inl (OutOfScope (Target task)), s)
     else if TType task \<notin> set valid_types then (Inl (InvalidType (TType task)), s)
     else if Priority task < 1 \<or> Priority task > 5 then (Inl (InvalidPriority (Priority task)), s)
     else (let t = with_defaults Q task in
       case loadTasks Q s of Inl e \<Rightarrow> (Inl e, s)
       | Inr tasks \<Rightarrow>
         if TID t \<in> TID ` set tasks then (Inl (TaskExists (TID t)), s)
         else saveTasks Q (tasks @ [t]) s))"

definition Queue_Add :: "q_env \<Rightarrow> Task \<Rightarrow> Queue \<Rightarrow> (q_err, unit) result \<times> Queue" where
  "Queue_Add Q task = with_lock Q (add_body Q task)"

definition Queue_List :: "q_env \<Rightarrow> string \<Rightarrow> Queue \<Rightarrow> (q_err, Task list) result \<times> Queue" where
  "Queue_List Q status = with_lock Q (\<lambda>s.
    (case loadTasks Q s of Inl e \<Rightarrow> (Inl e, s)
     | Inr tasks \<Rightarrow>
       (Inr (if status = [] then tasks else filter (\<lambda>t. TStatus t = status) tasks), s)))"

definition Get :: "q_env \<Rightarrow> string \<Rightarrow> Queue \<Rightarrow> (q_err, Task) result \<times> Queue" where
  "Get Q i = with_lock Q (\<lambda>s.
    (case loadTasks Q s of Inl e \<Rightarrow> (Inl e, s)
     | Inr tasks \<Rightarrow> (case find (\<lambda>t. TID t = i) tasks of
         Some t \<Rightarrow> (Inr t, s) | None \<Rightarrow> (Inl (TaskNotFound i), s))))"

text \<open>One round of the selection loop of \<open>Next\<close>; \<open>None\<close> is \<open>bestIdx = -1\<close>.\<close>

definition pick :: "Task list \<Rightarrow> nat option \<Rightarrow> nat \<Rightarrow> nat option" where
  "pick tasks best i =
    (let t = tasks ! i in
     if TStatus t \<noteq> ''pending'' then best
     else (case best of None \<Rightarrow> Some i
       | Some b \<Rightarrow>
         if Priority t > Priority (tasks ! b) then Some i
         else if Priority t = Priority (tasks ! b)
           \<and> CreatedAt t < CreatedAt (tasks ! b) then Some i
         else Some b))"

definition best_index :: "Task list \<Rightarrow> nat option" where
  "best_index tasks = foldl (pick tasks) None [0..<length tasks]"

definition Next :: "q_env \<Rightarrow> Queue \<Rightarrow> (q_err, Task option) result \<times> Queue" where
  "Next Q = with_lock Q (\<lambda>s.
    (case loadTasks Q s of Inl e \<Rightarrow> (Inl e, s)
     | Inr tasks \<Rightarrow>
       (case best_index tasks of None \<Rightarrow> (Inr None, s)
        | Some b \<Rightarrow>
          (let t = (tasks ! b)\<lparr> TStatus := ''running'', UpdatedAt := now Q \<rparr>
           in case saveTasks Q (tasks[b := t]) s of
                (Inl e, s') \<Rightarrow> (Inl e, s') | (Inr _, s') \<Rightarrow> (Inr (Some t), s')))))"

text \<open>\<open>for i, t := range tasks { if t.ID == id { ...; found = true; break } }\<close>\<close>

fun update_first :: "string \<Rightarrow> (Task \<Rightarrow> Task) \<Rightarrow> Task list \<Rightarrow> Task list option" where
  "update_first i f [] = None"
| "update_first i f (t # ts) =
    (if TID t = i then Some (f t # ts)
     else (case update_first i f ts of None \<Rightarrow> None | Some ts' \<Rightarrow> Some (t # ts')))"

definition update_task ::
  "q_env \<Rightarrow> string \<Rightarrow> (Task \<Rightarrow> Task) \<Rightarrow> Queue \<Rightarrow> (q_err, unit) result \<times> Queue" where
  "update_task Q i f = with_lock Q (\<lambda>s.
    (case loadTasks Q s of Inl e \<Rightarrow> (Inl e, s)
     | Inr tasks \<Rightarrow> (case update_first i f tasks of
         None \<Rightarrow> (Inl (TaskNotFound i), s) | Some ts \<Rightarrow> saveTasks Q ts s)))"

definition Start :: "q_env \<Rightarrow> string \<Rightarrow> Queue \<Rightarrow> (q_err, unit) result \<times> Queue" where
  "Start Q i = update_task Q i (\<lambda>t. t\<lparr> TStatus := ''running'', UpdatedAt := now Q \<rparr>)"

definition Complete :: "q_env \<Rightarrow> string \<Rightarrow> Queue \<Rightarrow> (q_err, unit) result \<times> Queue" where
  "Complete Q i = update_task Q i (\<lambda>t. t\<lparr> TStatus := ''done'', UpdatedAt := now Q \<rparr>)"

definition Fail :: "q_env \<Rightarrow> string \<Rightarrow> string option \<Rightarrow> Queue \<Rightarrow> (q_err, unit) result \<times> Queue" where
  "Fail Q i taskErr = update_task Q i (\<lambda>t.
    (case taskErr of Some m \<Rightarrow> t\<lparr> TStatus := ''failed'', TError := m, UpdatedAt := now Q \<rparr>
     | None \<Rightarrow> t\<lparr> TStatus := ''failed'', UpdatedAt := now Q \<rparr>))"

definition Retry :: "q_env \<Rightarrow> string \<Rightarrow> Queue \<Rightarrow> (q_err, unit) result \<times> Queue" where
  "Retry Q i = update_task Q i (\<lambda>t. t\<lparr> TStatus := ''pending'', TError := [], UpdatedAt := now Q \<rparr>)"

section \<open>The file as a list of tasks\<close>

text \<open>The abstraction of the file: the tasks of its lines, in order.\<close>

fun line_task :: "line \<Rightarrow> Task list" where
  "line_task (JLine t) = [t]"
| "line_task JBlank = []"
| "line_task JBad = []"

definition tasks_of :: "Queue \<Rightarrow> Task list" where
  "tasks_of s = (case qfile s of None \<Rightarrow> [] | Some ls \<Rightarrow> concat (map line_task ls))"

lemma scan_lines_Inr: "scan_lines Q ls = Inr ts \<Longrightarrow> ts = concat (map line_task ls)"
  by (induction Q ls arbitrary: ts rule: scan_lines.induct)
    (auto split: if_splits sum.splits)

lemma loadTasks_Inr: "loadTasks Q s = Inr ts \<Longrightarrow> ts = tasks_of s"
  by (auto simp: loadTasks_def tasks_of_def scan_lines_Inr split: if_splits option.splits)

text \<open>When loading works: no failure, no foreign line, and every line fits the scanner.\<close>

definition readable :: "q_env \<Rightarrow> Queue \<Rightarrow> bool" where
  "readable Q s = (\<not> open_fails Q \<and> (case qfile s of None \<Rightarrow> True
     | Some ls \<Rightarrow> \<not> read_fails Q \<and> JBad \<notin> set ls
         \<and> list_all (\<lambda>t. line_len Q t < max_line) (concat (map line_task ls))))"

lemma scan_lines_ok:
  "\<not> read_fails Q \<Longrightarrow> JBad \<notin> set ls \<Longrightarrow>
   list_all (\<lambda>t. line_len Q t < max_line) (concat (map line_task ls)) \<Longrightarrow>
   scan_lines Q ls = Inr (concat (map line_task ls))"
  by (induction Q ls rule: scan_lines.induct) auto

lemma loadTasks_ok: "readable Q s \<Longrightarrow> loadTasks Q s = Inr (tasks_of s)"
  by (auto simp: loadTasks_def readable_def tasks_of_def scan_lines_ok split: option.splits)

lemma scan_lines_long:
  "JLine t \<in> set ls \<Longrightarrow> line_len Q t \<ge> max_line \<Longrightarrow> is_err (scan_lines Q ls)"
proof (induction ls)
  case (Cons l ls)
  then show ?case by (cases l) (auto split: sum.splits)
qed simp

lemma tasks_of_saved [simp]:
  "tasks_of (s\<lparr> qfile := Some (save_lines ts) \<rparr>) = map stored ts" "tasks_of (unlock s) = tasks_of s"
  "tasks_of (s\<lparr> qlock := l \<rparr>) = tasks_of s" "tasks_of \<lparr> qfile = Some (save_lines ts), qlock = l \<rparr> = map stored ts"
  "JBad \<notin> set (save_lines ts)"
  by (induction ts) (auto simp: tasks_of_def unlock_def save_lines_def)

lemma tasks_of_qfile: "qfile s = qfile s' \<Longrightarrow> tasks_of s = tasks_of s'"
  by (simp add: tasks_of_def)

section \<open>The frame\<close>

lemma newLockFile_Inr:
  "newLockFile Q s = Inr s1 \<Longrightarrow> s1 = s\<lparr> qlock := Some (lock_now Q) \<rparr>"
  by (auto simp: newLockFile_def split: option.splits if_splits)

lemma failed_lock_qfile [simp]: "qfile (failed_lock Q s) = qfile s"
  by (simp add: failed_lock_def unlock_def split: option.splits)

lemma with_lock_unlocks:
  "newLockFile Q s = Inr s1 \<Longrightarrow> qlock (snd (with_lock Q body s)) = None"
  by (simp add: with_lock_def unlock_def split: prod.splits)

text \<open>What any operation does to the file its body decides, run on the same file.\<close>

lemma with_lock_file:
  assumes "\<And>s1. qfile s1 = qfile s \<Longrightarrow> P (qfile (snd (body s1)))" "P (qfile s)"
  shows "P (qfile (snd (with_lock Q body s)))"
proof (cases "newLockFile Q s")
  case (Inr s1)
  then have "qfile s1 = qfile s" by (auto dest: newLockFile_Inr)
  then show ?thesis
    using assms(1) [of s1] Inr by (auto simp: with_lock_def unlock_def split: prod.splits)
qed (simp add: with_lock_def assms)

lemma with_lock_error:
  assumes "\<And>s1 e. qfile s1 = qfile s \<Longrightarrow> fst (body s1) = Inl e \<Longrightarrow> qfile (snd (body s1)) = qfile s1"
    and "fst (with_lock Q body s) = Inl e"
  shows "qfile (snd (with_lock Q body s)) = qfile s"
proof (cases "newLockFile Q s")
  case (Inr s1)
  then have "s1 = s\<lparr> qlock := Some (lock_now Q) \<rparr>" by (rule newLockFile_Inr)
  then show ?thesis
    using assms(2) assms(1) [of s1] Inr by (auto simp: with_lock_def unlock_def split: prod.splits)
qed (simp add: with_lock_def)

section \<open>One operation on the file\<close>

text \<open>A body either leaves the file or saves the tasks it loaded, changed by \<open>g\<close>.\<close>

definition saves :: "Queue \<Rightarrow> Queue \<Rightarrow> (Task list \<Rightarrow> Task list) \<Rightarrow> bool" where
  "saves s s' g = (qfile s' = qfile s \<or> qfile s' = Some (save_lines (g (tasks_of s))))"

lemma saveTasks_saves: "saves s (snd (saveTasks Q ts s)) (\<lambda>_. ts)"
  by (simp add: saves_def saveTasks_def split: option.splits)

lemma saveTasks_error: "fst (saveTasks Q ts s) = Inl e \<Longrightarrow> snd (saveTasks Q ts s) = s"
  by (auto simp: saveTasks_def split: option.splits)

lemma update_first_map:
  "update_first i f ts = (if i \<in> TID ` set ts
     then Some (takeWhile (\<lambda>t. TID t \<noteq> i) ts @ f (hd (dropWhile (\<lambda>t. TID t \<noteq> i) ts))
                # tl (dropWhile (\<lambda>t. TID t \<noteq> i) ts))
     else None)"
  by (induction ts) auto

lemma update_first_distinct:
  "distinct (map TID ts) \<Longrightarrow> update_first i f ts = (if i \<in> TID ` set ts
     then Some (map (\<lambda>t. if TID t = i then f t else t) ts) else None)"
proof (induction ts)
  case (Cons a ts)
  have "TID a = i \<Longrightarrow> map (\<lambda>t. if TID t = i then f t else t) ts = ts"
    using Cons.prems by (intro map_idI) (metis distinct.simps(2) image_eqI list.set_map list.simps(9))
  then show ?case using Cons by auto
qed simp

lemma update_first_set:
  "update_first i f ts = Some ts' \<Longrightarrow> set ts' \<subseteq> set ts \<union> f ` set ts"
  by (induction ts arbitrary: ts') (auto split: if_splits option.splits)

lemma update_first_ids:
  "update_first i f ts = Some ts' \<Longrightarrow> (\<And>t. TID (f t) = TID t) \<Longrightarrow> map TID ts' = map TID ts"
  by (induction ts arbitrary: ts') (auto split: if_splits option.splits)

section \<open>The selection of Next\<close>

text \<open>Higher priority first, then the earlier creation time.\<close>

datatype rank = Rank (rank_prio: int) (rank_time: instant)

instantiation rank :: linorder
begin

definition less_eq_rank :: "rank \<Rightarrow> rank \<Rightarrow> bool" where
  "less_eq_rank a b = (rank_prio a > rank_prio b
     \<or> (rank_prio a = rank_prio b \<and> rank_time a \<le> rank_time b))"

definition less_rank :: "rank \<Rightarrow> rank \<Rightarrow> bool" where
  "less_rank a b = (rank_prio a > rank_prio b
     \<or> (rank_prio a = rank_prio b \<and> rank_time a < rank_time b))"

instance
  by standard (auto simp: less_eq_rank_def less_rank_def rank.expand)

end

definition rank :: "Task \<Rightarrow> rank" where
  "rank t = Rank (Priority t) (CreatedAt t)"

definition pending :: "Task \<Rightarrow> bool" where
  "pending t = (TStatus t = ''pending'')"

lemma pick_rank:
  "pick tasks best i = (if \<not> pending (tasks ! i) then best
     else (case best of None \<Rightarrow> Some i
       | Some b \<Rightarrow> if rank (tasks ! i) < rank (tasks ! b) then Some i else Some b))"
  by (auto simp: pick_def pending_def rank_def less_rank_def Let_def split: option.splits)

text \<open>The index the loop has after the first \<open>n\<close> tasks.\<close>

definition best_of :: "Task list \<Rightarrow> nat \<Rightarrow> nat option \<Rightarrow> bool" where
  "best_of tasks n best =
    (case best of
       None \<Rightarrow> \<forall>j<n. \<not> pending (tasks ! j)
     | Some b \<Rightarrow> b < n \<and> pending (tasks ! b)
         \<and> (\<forall>j<n. pending (tasks ! j) \<longrightarrow> rank (tasks ! b) \<le> rank (tasks ! j))
         \<and> (\<forall>j<b. pending (tasks ! j) \<longrightarrow> rank (tasks ! b) < rank (tasks ! j)))"

lemma best_of_pick: "best_of tasks n best \<Longrightarrow> best_of tasks (Suc n) (pick tasks best n)"
  by (auto simp: best_of_def pick_rank less_Suc_eq split: option.splits if_splits)

lemma best_of_fold: "best_of tasks n (foldl (pick tasks) None [0..<n])"
  by (induction n) (simp_all add: best_of_pick, simp add: best_of_def)

lemma best_index_best: "best_of tasks (length tasks) (best_index tasks)"
  unfolding best_index_def by (rule best_of_fold)

section \<open>Invariant of the queue\<close>

definition valid_task :: "Task \<Rightarrow> bool" where
  "valid_task t = (TType t \<in> set valid_types \<and> 1 \<le> Priority t \<and> Priority t \<le> 5)"

text \<open>The tasks are valid and, where \<open>u\<close> asks for it, their ids are valid UTF-8 and distinct.\<close>

definition ok_tasks :: "bool \<Rightarrow> Task list \<Rightarrow> bool" where
  "ok_tasks u ts = (list_all valid_task ts
     \<and> (u \<longrightarrow> distinct (map TID ts) \<and> list_all (\<lambda>t. valid_utf8 (TID t)) ts))"

lemma valid_task_stored: "valid_task t \<Longrightarrow> valid_task (stored t)"
  by (auto simp: valid_task_def stored_def valid_types_def json_string_ascii byte_def)

lemma ok_tasks_stored: "ok_tasks u ts \<Longrightarrow> ok_tasks u (map stored ts)"
proof -
  assume ok: "ok_tasks u ts"
  have ids: "distinct (map (TID \<circ> stored) ts)" if u
  proof -
    have "map (TID \<circ> stored) ts = map TID ts"
      using ok that by (auto simp: ok_tasks_def list_all_iff stored_def valid_utf8_def)
    moreover have "distinct (map TID ts)" using ok that by (simp add: ok_tasks_def)
    ultimately show ?thesis by (simp only:)
  qed
  moreover have "list_all valid_task (map stored ts)"
    using ok valid_task_stored by (auto simp: ok_tasks_def list_all_iff)
  moreover have "list_all (\<lambda>t. valid_utf8 (TID t)) (map stored ts)"
    by (simp add: list_all_iff stored_def)
  ultimately show ?thesis using ok ids by (cases u) (simp_all add: ok_tasks_def)
qed

definition queue_inv :: "bool \<Rightarrow> Queue \<Rightarrow> bool" where
  "queue_inv u s = ((case qfile s of None \<Rightarrow> True | Some ls \<Rightarrow> JBad \<notin> set ls) \<and> ok_tasks u (tasks_of s))"

definition inv_file :: "bool \<Rightarrow> line list option \<Rightarrow> bool" where
  "inv_file u f = queue_inv u \<lparr> qfile = f, qlock = None \<rparr>"

lemma queue_inv_file: "queue_inv u s = inv_file u (qfile s)"
  by (simp add: queue_inv_def inv_file_def tasks_of_def)

lemma inv_file_saved:
  "ok_tasks u ts \<Longrightarrow> inv_file u (Some (save_lines ts))"
  by (simp add: inv_file_def queue_inv_def ok_tasks_stored)

lemma inv_file_save:
  "inv_file u (qfile s) \<Longrightarrow> ok_tasks u ts \<Longrightarrow> inv_file u (qfile (snd (saveTasks Q ts s)))"
  using saveTasks_saves [of s Q ts] by (auto simp: saves_def inv_file_saved)

lemma with_lock_inv:
  assumes "queue_inv u s"
    and "\<And>s1. queue_inv u s1 \<Longrightarrow> inv_file u (qfile (snd (body s1)))"
  shows "queue_inv u (snd (with_lock Q body s))"
  unfolding queue_inv_file
  using assms by (intro with_lock_file [where P = "inv_file u"]) (simp_all add: queue_inv_file)

lemma loaded_inv:
  "queue_inv u s \<Longrightarrow> loadTasks Q s = Inr ts \<Longrightarrow> ok_tasks u ts"
  by (auto simp: queue_inv_def dest: loadTasks_Inr)

lemma with_defaults_simps [simp]:
  "TType (with_defaults Q t) = TType t" "Priority (with_defaults Q t) = Priority t"
  "Target (with_defaults Q t) = Target t" "TError (with_defaults Q t) = TError t"
  by (simp_all add: with_defaults_def Let_def)

lemma Queue_Add_inv:
  assumes "queue_inv u s" "u \<Longrightarrow> valid_utf8 (TID (with_defaults Q t))"
  shows "queue_inv u (snd (Queue_Add Q t s))"
  unfolding Queue_Add_def
proof (rule with_lock_inv [OF assms(1)])
  fix s1 assume s1: "queue_inv u s1"
  have inv: "inv_file u (qfile s1)" using s1 by (simp add: queue_inv_file)
  have save: "inv_file u (qfile (snd (saveTasks Q (ts @ [with_defaults Q t]) s1)))"
    if "loadTasks Q s1 = Inr ts" "valid_task t" "TID (with_defaults Q t) \<notin> TID ` set ts" for ts
    using loaded_inv [OF s1 that(1)] that(2,3) assms(2)
    by (intro inv_file_save [OF inv]) (auto simp: ok_tasks_def valid_task_def)
  show "inv_file u (qfile (snd (add_body Q t s1)))"
  proof (cases "loadTasks Q s1")
    case (Inl e)
    then show ?thesis using inv by (simp add: add_body_def Let_def)
  next
    case (Inr ts)
    have "valid_task t" if "TType t \<in> set valid_types" "\<not> (Priority t < 1 \<or> Priority t > 5)"
      using that by (simp add: valid_task_def)
    then show ?thesis using inv save [OF Inr] Inr by (simp add: add_body_def Let_def)
  qed
qed

lemma update_task_inv:
  assumes "queue_inv u s" "\<And>t. TID (f t) = TID t" "\<And>t. valid_task (f t) = valid_task t"
  shows "queue_inv u (snd (update_task Q i f s))"
  unfolding update_task_def
proof (rule with_lock_inv [OF assms(1)])
  fix s1 assume s1: "queue_inv u s1"
  have "ok_tasks u ts'"
    if "loadTasks Q s1 = Inr ts" "update_first i f ts = Some ts'" for ts ts'
    using loaded_inv [OF s1 that(1)] update_first_ids [OF that(2) assms(2)]
      update_first_set [OF that(2)] assms(2,3) by (auto simp: ok_tasks_def list_all_iff)
  then show "inv_file u (qfile (snd (case loadTasks Q s1 of Inl e \<Rightarrow> (Inl e, s1)
     | Inr tasks \<Rightarrow> (case update_first i f tasks of
         None \<Rightarrow> (Inl (TaskNotFound i), s1) | Some ts \<Rightarrow> saveTasks Q ts s1))))"
    using s1 by (auto simp: queue_inv_file split: sum.splits option.splits intro!: inv_file_save)
qed

lemma Next_inv: "queue_inv u s \<Longrightarrow> queue_inv u (snd (Next Q s))"
  unfolding Next_def
proof (rule with_lock_inv)
  fix s1 assume s1: "queue_inv u s1"
  let ?new = "\<lambda>ts b. ts[b := (ts ! b)\<lparr> TStatus := ''running'', UpdatedAt := now Q \<rparr>]"
  have "ok_tasks u (?new ts b)"
    if "loadTasks Q s1 = Inr ts" "best_index ts = Some b" for ts b
  proof -
    have b: "b < length ts" using best_index_best [of ts] that(2) by (simp add: best_of_def)
    have "map TID (?new ts b) = map TID ts"
      using b by (simp add: map_update list_update_same_conv)
    moreover have "list_all valid_task (?new ts b)"
      using loaded_inv [OF s1 that(1)] b
      by (auto simp: ok_tasks_def list_all_iff valid_task_def dest!: set_update_subset_insert [THEN subsetD])
    moreover have "list_all (\<lambda>t. valid_utf8 (TID t)) (?new ts b)" if u
      using loaded_inv [OF s1 \<open>loadTasks Q s1 = Inr ts\<close>] b that
      by (auto simp: ok_tasks_def list_all_iff dest!: set_update_subset_insert [THEN subsetD])
    ultimately show ?thesis using loaded_inv [OF s1 that(1)] by (auto simp: ok_tasks_def)
  qed
  then show "inv_file u (qfile (snd (case loadTasks Q s1 of Inl e \<Rightarrow> (Inl e, s1)
     | Inr tasks \<Rightarrow>
       (case best_index tasks of None \<Rightarrow> (Inr None, s1)
        | Some b \<Rightarrow>
          (let t = (tasks ! b)\<lparr> TStatus := ''running'', UpdatedAt := now Q \<rparr>
           in case saveTasks Q (tasks[b := t]) s1 of
                (Inl e, s') \<Rightarrow> (Inl e, s') | (Inr _, s') \<Rightarrow> (Inr (Some t), s'))))))"
    using s1 inv_file_save [of u s1]
    by (auto simp: queue_inv_file Let_def split: sum.splits option.splits prod.splits) (metis snd_conv)+
qed

section \<open>Any sequence of operations\<close>

datatype q_op = OpAdd Task | OpList string | OpGet string | OpNext | OpStart string
  | OpComplete string | OpFail string "string option" | OpRetry string

definition error_of :: "('e, 'a) result \<Rightarrow> 'e option" where
  "error_of r = (case r of Inl e \<Rightarrow> Some e | Inr _ \<Rightarrow> None)"

fun run_op :: "q_env \<Rightarrow> q_op \<Rightarrow> Queue \<Rightarrow> q_err option \<times> Queue" where
  "run_op Q (OpAdd t) s = map_prod error_of id (Queue_Add Q t s)"
| "run_op Q (OpList st) s = map_prod error_of id (Queue_List Q st s)"
| "run_op Q (OpGet i) s = map_prod error_of id (Get Q i s)"
| "run_op Q OpNext s = map_prod error_of id (Next Q s)"
| "run_op Q (OpStart i) s = map_prod error_of id (Start Q i s)"
| "run_op Q (OpComplete i) s = map_prod error_of id (Complete Q i s)"
| "run_op Q (OpFail i m) s = map_prod error_of id (Fail Q i m s)"
| "run_op Q (OpRetry i) s = map_prod error_of id (Retry Q i s)"

text \<open>The state after a sequence of operations, each with its environment.\<close>

definition q_run :: "(q_env \<times> q_op) list \<Rightarrow> Queue \<Rightarrow> Queue" where
  "q_run ops s = fold (\<lambda>(Q, op) s. snd (run_op Q op s)) ops s"

text \<open>The id an \<open>Add\<close> gives its task is valid UTF-8.\<close>

definition valid_ids :: "q_env \<Rightarrow> q_op \<Rightarrow> bool" where
  "valid_ids Q op = (case op of OpAdd t \<Rightarrow> valid_utf8 (TID (with_defaults Q t)) | _ \<Rightarrow> True)"

lemma Queue_List_file: "qfile (snd (Queue_List Q st s)) = qfile s"
  unfolding Queue_List_def
  by (rule with_lock_file [where P = "\<lambda>f. f = qfile s"]) (auto split: sum.splits)

lemma Get_file: "qfile (snd (Get Q i s)) = qfile s"
  unfolding Get_def
  by (rule with_lock_file [where P = "\<lambda>f. f = qfile s"]) (auto split: sum.splits option.splits)

lemma reader_inv:
  "queue_inv u (snd (Queue_List Q st s)) = queue_inv u s" "queue_inv u (snd (Get Q i s)) = queue_inv u s"
  by (simp_all add: queue_inv_file Queue_List_file Get_file)

lemma run_op_inv:
  assumes inv: "queue_inv u s" and ids: "u \<Longrightarrow> valid_ids Q op"
  shows "queue_inv u (snd (run_op Q op s))"
proof (cases op)
  case (OpAdd t)
  then show ?thesis using Queue_Add_inv [OF inv, of Q t] ids by (simp add: valid_ids_def)
next
  case (OpFail i m)
  then show ?thesis
    using inv by (cases m) (simp_all add: Fail_def update_task_inv valid_task_def)
qed (use inv in \<open>simp_all add: Next_inv Start_def Complete_def Retry_def update_task_inv
    valid_task_def reader_inv\<close>)

lemma q_run_inv:
  "queue_inv u s \<Longrightarrow> (u \<Longrightarrow> list_all (\<lambda>(Q, op). valid_ids Q op) ops) \<Longrightarrow> queue_inv u (q_run ops s)"
proof (induction ops arbitrary: s)
  case (Cons x ops)
  obtain Q op where x: "x = (Q, op)" by (cases x)
  have "queue_inv u (snd (run_op Q op s))" using Cons.prems by (intro run_op_inv) (auto simp: x)
  then show ?case using Cons.IH [of "snd (run_op Q op s)"] Cons.prems(2) by (auto simp: q_run_def x)
qed (simp add: q_run_def)

lemma new_queue_inv: "queue_inv u NewQueue"
  by (simp add: queue_inv_def NewQueue_def tasks_of_def ok_tasks_def)

text \<open>An operation that reports an error has not changed the file.\<close>

lemma update_task_error:
  "fst (update_task Q i f s) = Inl e \<Longrightarrow> qfile (snd (update_task Q i f s)) = qfile s"
  unfolding update_task_def
  by (rule with_lock_error, auto split: sum.splits option.splits dest: saveTasks_error)

lemma Queue_Add_error:
  "fst (Queue_Add Q t s) = Inl e \<Longrightarrow> qfile (snd (Queue_Add Q t s)) = qfile s"
  unfolding Queue_Add_def
  by (rule with_lock_error)
    (auto simp: add_body_def Let_def split: sum.splits if_splits dest: saveTasks_error)

lemma Next_error: "fst (Next Q s) = Inl e \<Longrightarrow> qfile (snd (Next Q s)) = qfile s"
  unfolding Next_def
  by (rule with_lock_error)
    (auto simp: Let_def saveTasks_def split: sum.splits option.splits prod.splits)

lemma run_op_error: "fst (run_op Q op s) = Some e \<Longrightarrow> qfile (snd (run_op Q op s)) = qfile s"
  by (cases op) (auto simp: error_of_def Queue_List_file Get_file Start_def Complete_def Fail_def
      Retry_def split: sum.splits intro: update_task_error Queue_Add_error Next_error)

section \<open>Functional behaviour\<close>

text \<open>The operation runs on a readable file with the lock free.\<close>

definition undisturbed :: "q_env \<Rightarrow> Queue \<Rightarrow> bool" where
  "undisturbed Q s = (readable Q s \<and> save_fails Q = None \<and> newLockFile Q s = Inr (s\<lparr> qlock := Some (lock_now Q) \<rparr>))"

lemma readable_lock [simp]: "readable Q (s\<lparr> qlock := l \<rparr>) = readable Q s"
  by (simp add: readable_def)

lemma Next_None:
  "undisturbed Q s \<Longrightarrow> best_index (tasks_of s) = None \<Longrightarrow>
   Next Q s = (Inr None, unlock s)"
  by (simp add: Next_def with_lock_def undisturbed_def loadTasks_ok unlock_def)

lemma Next_Some:
  "undisturbed Q s \<Longrightarrow> best_index (tasks_of s) = Some b \<Longrightarrow>
   t = (tasks_of s ! b)\<lparr> TStatus := ''running'', UpdatedAt := now Q \<rparr> \<Longrightarrow>
   Next Q s = (Inr (Some t), \<lparr> qfile = Some (save_lines ((tasks_of s)[b := t])), qlock = None \<rparr>)"
  by (simp add: Next_def with_lock_def undisturbed_def loadTasks_ok unlock_def saveTasks_def
      Let_def)

lemma Queue_Add_undisturbed:
  assumes "undisturbed Q s"
  shows "Queue_Add Q t s =
    (if (\<exists>v. scopeValidator Q = Some v \<and> \<not> v (Target t))
     then (Inl (OutOfScope (Target t)), unlock s)
     else if TType t \<notin> set valid_types then (Inl (InvalidType (TType t)), unlock s)
     else if Priority t < 1 \<or> Priority t > 5 then (Inl (InvalidPriority (Priority t)), unlock s)
     else if TID (with_defaults Q t) \<in> TID ` set (tasks_of s)
     then (Inl (TaskExists (TID (with_defaults Q t))), unlock s)
     else (Inr (), \<lparr> qfile = Some (save_lines (tasks_of s @ [with_defaults Q t])), qlock = None \<rparr>))"
  using assms
  by (simp add: Queue_Add_def with_lock_def undisturbed_def add_body_def Let_def loadTasks_ok
      saveTasks_def unlock_def split: option.splits)

lemma update_task_undisturbed:
  assumes "undisturbed Q s"
  shows "update_task Q i f s =
    (case update_first i f (tasks_of s) of
       None \<Rightarrow> (Inl (TaskNotFound i), unlock s)
     | Some ts \<Rightarrow> (Inr (), \<lparr> qfile = Some (save_lines ts), qlock = None \<rparr>))"
  using assms
  by (simp add: update_task_def with_lock_def undisturbed_def loadTasks_ok saveTasks_def
      unlock_def split: option.splits)

text \<open>One line too long for the scanner, and every later operation fails.\<close>

lemma long_line_err:
  assumes "\<exists>t. JLine t \<in> set ls \<and> line_len Q t \<ge> max_line" "qfile s = Some ls"
  shows "is_err (loadTasks Q s)"
  using assms scan_lines_long by (auto simp: loadTasks_def)

lemmas [go_eval] = newLockFile_def unlock_def failed_lock_def with_lock_def max_line_def
  loadTasks_def stored_def save_lines_def saveTasks_def NewQueue_def valid_types_def with_defaults_def add_body_def
  Queue_Add_def Queue_List_def Get_def pick_def best_index_def Next_def update_task_def Start_def
  Complete_def Fail_def Retry_def error_of_def tasks_of_def

section \<open>Properties\<close>


definition demo_q :: q_env where
  "demo_q = \<lparr> scopeValidator = None, line_len = (\<lambda>_. 100), lock_now = 0, now = 7, new_uuid = ''u'',
     lock_create_ok = True, open_fails = False, read_fails = False, save_fails = None \<rparr>"

definition demo_task :: Task where
  "demo_task = \<lparr> TID = ''t'', Target = ''a.io'', TType = ''recon'', Priority = 3, TStatus = [],
     Dependencies = [], CreatedAt = 0, UpdatedAt = 0, TError = [] \<rparr>"


text \<open>An id that is not valid UTF-8 differs from what the file holds: the same task is added twice.\<close>

lemma same_id_twice:
  assumes "\<not> valid_utf8 i"
  shows "map TID (tasks_of (q_run (replicate 2 (demo_q, OpAdd (demo_task\<lparr> TID := i \<rparr>))) NewQueue))
    = [json_string i, json_string i]"
proof -
  have i: "i \<noteq> []" "json_string i \<noteq> i" using assms by (auto simp: valid_utf8_def json_string_ascii)
  let ?t = "demo_task\<lparr> TID := i \<rparr>" let ?d = "with_defaults demo_q ?t"
  have d: "TID ?d = i" using i by (simp add: with_defaults_def Let_def)
  have t: "scopeValidator demo_q = None" "TType ?t \<in> set valid_types" "Priority ?t = 3"
    by (simp_all add: demo_q_def demo_task_def valid_types_def)
  have u: "undisturbed demo_q \<lparr> qfile = f, qlock = None \<rparr>" if "f = None \<or> f = Some (save_lines ts)" for f ts
    using that by (auto simp: undisturbed_def readable_def newLockFile_def demo_q_def max_line_def save_lines_def list_all_iff)
  have 1: "snd (Queue_Add demo_q ?t NewQueue) = \<lparr> qfile = Some (save_lines [?d]), qlock = None \<rparr>"
    using Queue_Add_undisturbed [OF u [of None "[]"], of ?t] t by (simp add: NewQueue_def tasks_of_def)
  have "TID (stored ?d) \<noteq> TID ?d" using d i by (simp add: stored_def)
  then have 2: "snd (Queue_Add demo_q ?t \<lparr> qfile = Some (save_lines [?d]), qlock = None \<rparr>)
      = \<lparr> qfile = Some (save_lines [stored ?d, ?d]), qlock = None \<rparr>"
    using Queue_Add_undisturbed [OF u [of "Some (save_lines [?d])" "[?d]"], of ?t] t by simp
  show ?thesis by (simp add: numeral_2_eq_2 q_run_def 1 2) (simp add: stored_def d)
qed

lemma lone_byte_invalid: "\<not> valid_utf8 [CHR 0xFF]"
  by (simp add: valid_utf8_def json_string_def go_eval)

lemma tasks_of_lines [simp]: "tasks_of \<lparr> qfile = Some (map JLine ts), qlock = l \<rparr> = ts"
  by (induction ts) (simp_all add: tasks_of_def)

text \<open>
  C28: Next takes the pending task with the largest priority number, the oldest of those and
  the first of those in the file, marks it running and returns it, the others being kept as
  the file stores them; it returns none exactly when nothing is pending.
\<close>

theorem next_is_best:
  assumes "undisturbed Q s"
  shows "case best_index (tasks_of s) of
      None \<Rightarrow> Next Q s = (Inr None, unlock s) \<and> \<not> list_ex pending (tasks_of s)
    | Some b \<Rightarrow> b < length (tasks_of s) \<and> pending (tasks_of s ! b)
        \<and> list_all (\<lambda>t. pending t \<longrightarrow> rank (tasks_of s ! b) \<le> rank t) (tasks_of s)
        \<and> list_all (\<lambda>t. pending t \<longrightarrow> rank (tasks_of s ! b) < rank t) (take b (tasks_of s))
        \<and> (\<exists>t. t = (tasks_of s ! b)\<lparr> TStatus := ''running'', UpdatedAt := now Q \<rparr>
             \<and> fst (Next Q s) = Inr (Some t) \<and> tasks_of (snd (Next Q s)) = map stored ((tasks_of s)[b := t]))"
proof (cases "best_index (tasks_of s)")
  case None
  then show ?thesis using Next_None [OF assms None] best_index_best [of "tasks_of s"]
    by (auto simp: best_of_def list_ex_iff in_set_conv_nth)
next
  case (Some b)
  have "best_of (tasks_of s) (length (tasks_of s)) (Some b)"
    using best_index_best [of "tasks_of s"] Some by simp
  then show ?thesis using Next_Some [OF assms Some refl] Some
    by (auto simp: best_of_def list_all_iff in_set_conv_nth)
qed

definition demo_pending :: "string \<Rightarrow> int \<Rightarrow> Task" where
  "demo_pending i n = demo_task\<lparr> TID := i, Priority := n, TStatus := ''pending'' \<rparr>"

definition demo_queue :: Queue where
  "demo_queue = \<lparr> qfile = Some (map JLine [demo_pending ''a'' 1, demo_pending ''b'' 5]), qlock = None \<rparr>"

lemma demo_undisturbed: "undisturbed demo_q demo_queue"
  by (simp add: undisturbed_def readable_def newLockFile_def demo_q_def demo_queue_def max_line_def)

lemma demo_tasks: "tasks_of demo_queue = [demo_pending ''a'' 1, demo_pending ''b'' 5]"
  unfolding demo_queue_def by (rule tasks_of_lines)

theorem next_is_best_witness:
  "fst (Next demo_q demo_queue)
    = Inr (Some ((demo_pending ''b'' 5)\<lparr> TStatus := ''running'', UpdatedAt := 7 \<rparr>))"
proof -
  have b: "best_index (tasks_of demo_queue) = Some 1"
    unfolding demo_tasks by (simp add: go_eval demo_pending_def demo_task_def)
  show ?thesis using next_is_best [OF demo_undisturbed] unfolding b
    by (simp add: demo_tasks demo_q_def)
qed

text \<open>
  Add rejects a target out of scope, an unknown type, a priority out of range and a
  known id, in this order, and otherwise appends the task with its defaults filled in.
\<close>

theorem add_appends:
  assumes "undisturbed Q s"
  shows "Queue_Add Q t s =
    (if (\<exists>v. scopeValidator Q = Some v \<and> \<not> v (Target t))
     then (Inl (OutOfScope (Target t)), unlock s)
     else if TType t \<notin> set valid_types then (Inl (InvalidType (TType t)), unlock s)
     else if Priority t < 1 \<or> Priority t > 5 then (Inl (InvalidPriority (Priority t)), unlock s)
     else if TID (with_defaults Q t) \<in> TID ` set (tasks_of s)
     then (Inl (TaskExists (TID (with_defaults Q t))), unlock s)
     else (Inr (), \<lparr> qfile = Some (save_lines (tasks_of s @ [with_defaults Q t])), qlock = None \<rparr>))"
  by (rule Queue_Add_undisturbed [OF assms])

theorem add_appends_witness:
  "tasks_of (snd (Queue_Add demo_q demo_task demo_queue))
    = [demo_pending ''a'' 1, demo_pending ''b'' 5, with_defaults demo_q demo_task]"
proof -
  have st: "stored (demo_pending ''a'' 1) = demo_pending ''a'' 1" "stored (demo_pending ''b'' 5) = demo_pending ''b'' 5"
    "stored (with_defaults demo_q demo_task) = with_defaults demo_q demo_task"
    by (simp_all add: stored_def demo_pending_def demo_task_def with_defaults_def json_string_ascii byte_def Let_def)
  have "TID (with_defaults demo_q demo_task) = ''t''" "scopeValidator demo_q = None"
    "TType demo_task \<in> set valid_types" "Priority demo_task = 3"
    by (simp_all add: demo_q_def demo_task_def valid_types_def with_defaults_def)
  moreover have "TID ` set (tasks_of demo_queue) = {''a'', ''b''}"
    by (simp add: demo_tasks demo_pending_def)
  ultimately have "snd (Queue_Add demo_q demo_task demo_queue) = \<lparr> qfile = Some (save_lines
      (tasks_of demo_queue @ [with_defaults demo_q demo_task])), qlock = None \<rparr>"
    unfolding add_appends [OF demo_undisturbed] by simp
  then show ?thesis by (simp only: tasks_of_saved) (simp add: demo_tasks st)
qed

text \<open>
  C29: an operation that reports an error, at whatever stage, has left the queue file as it
  was.
\<close>

theorem errors_leave_the_file:
  assumes "fst (run_op Q op s) = Some e"
  shows "qfile (snd (run_op Q op s)) = qfile s"
  by (rule run_op_error [OF assms])

theorem errors_leave_the_file_witness:
  "qfile (snd (run_op (demo_q\<lparr> save_fails := Some Sync \<rparr>) (OpRetry ''a'') demo_queue)) = qfile demo_queue"
  by (rule errors_leave_the_file [where e = "SaveFailed Sync"])
    (simp add: go_eval demo_q_def demo_queue_def demo_pending_def demo_task_def update_task_def)

definition status_op :: "q_op \<Rightarrow> (string \<times> string \<times> string option) option" where
  "status_op op = (case op of
     OpStart i \<Rightarrow> Some (i, ''running'', None) | OpComplete i \<Rightarrow> Some (i, ''done'', None)
   | OpFail i m \<Rightarrow> Some (i, ''failed'', m) | OpRetry i \<Rightarrow> Some (i, ''pending'', Some [])
   | _ \<Rightarrow> None)"

definition restatus :: "instant \<Rightarrow> string \<Rightarrow> string option \<Rightarrow> Task \<Rightarrow> Task" where
  "restatus t st err x = x\<lparr> TStatus := st, UpdatedAt := t,
     TError := (case err of None \<Rightarrow> TError x | Some m \<Rightarrow> m) \<rparr>"

text \<open>
  Start, Complete, Fail and Retry change status, error and update time of exactly the
  named task, or report that there is no such task.
\<close>

theorem status_changes:
  assumes "undisturbed Q s" "queue_inv True s" "status_op op = Some (i, st, err)"
  shows "run_op Q op s =
    (if i \<in> TID ` set (tasks_of s)
     then (None, \<lparr> qfile = Some (save_lines (map (\<lambda>t. if TID t = i then restatus (now Q) st err t else t)
                   (tasks_of s))), qlock = None \<rparr>)
     else (Some (TaskNotFound i), unlock s))"
proof -
  have d: "distinct (map TID (tasks_of s))" using assms(2) by (simp add: queue_inv_def ok_tasks_def)
  show ?thesis using assms(3)
    by (cases op) (auto simp: status_op_def Start_def Complete_def Fail_def Retry_def
        update_task_undisturbed [OF assms(1)] update_first_distinct [OF d] error_of_def restatus_def
        intro!: arg_cong [where f = save_lines] map_cong split: option.splits)
qed

theorem status_changes_witness:
  "tasks_of (snd (run_op demo_q (OpFail ''a'' (Some ''e'')) demo_queue))
   = [(demo_pending ''a'' 1)\<lparr> TStatus := ''failed'', UpdatedAt := 7, TError := ''e'' \<rparr>, demo_pending ''b'' 5]"
proof -
  have "queue_inv True demo_queue"
    by (simp add: queue_inv_def demo_tasks)
      (simp add: ok_tasks_def valid_utf8_def json_string_ascii byte_def demo_queue_def demo_pending_def demo_task_def
        valid_task_def valid_types_def)
  from status_changes [OF demo_undisturbed this, of "OpFail ''a'' (Some ''e'')" "''a''" "''failed''" "Some ''e''"]
  have "snd (run_op demo_q (OpFail ''a'' (Some ''e'')) demo_queue)
    = \<lparr> qfile = Some (save_lines (map (\<lambda>t. if TID t = ''a'' then restatus 7 ''failed'' (Some ''e'') t else t)
         (tasks_of demo_queue))), qlock = None \<rparr>"
    by (simp add: status_op_def demo_tasks demo_pending_def demo_q_def)
  then show ?thesis by (simp only: tasks_of_saved) (simp add: demo_tasks restatus_def demo_pending_def demo_task_def
      stored_def json_string_ascii byte_def)
qed

end
