(* ===== verification/Store.thy ===== *)
theory Store
  imports Audit_Log
begin

text \<open>
  \<open>internal/db/store.go\<close> and \<open>store_default.go\<close>: the in-memory store and the choice of the
  backend of a build without the \<open>postgres\<close> tag. A zero \<open>time.Time\<close> is \<open>None\<close>; the maps
  keyed by program are association lists read with an empty default, as Go's maps are. The
  clock reading and the random identifier of a call are its arguments.
\<close>

section \<open>Data\<close>

record Asset =
  AHost :: string
  ASource :: string
  FirstSeen :: "instant option"
  LastSeen :: "instant option"
  AInScope :: bool
  Tech :: "string list"

record Finding =
  FID :: string
  FTitle :: string
  FSeverity :: string
  FHost :: string
  FStatus :: string
  PoCRef :: string
  Created :: "instant option"

record TestedEndpoint =
  TEHost :: string
  TEEndpoint :: string
  TECheck :: string
  TEResult :: string
  TestedAt :: "instant option"

record MemoryStore =
  logger :: Logger
  assets :: "(string, Asset list) gomap"
  findings :: "(string, Finding list) gomap"
  tested :: "(string, TestedEndpoint list) gomap"

record StoreConfig =
  PostgreSQLEnabled :: bool
  SConnString :: string
  SMaxConns :: int

definition at_key :: "string \<Rightarrow> (string, 'a list) gomap \<Rightarrow> 'a list" where
  "at_key k m = (case map_of m k of None \<Rightarrow> [] | Some xs \<Rightarrow> xs)"

lemma at_key_update [simp]: "at_key k' (AList.update k xs m) = (if k' = k then xs else at_key k' m)"
  by (simp add: at_key_def)

section \<open>The store\<close>

definition NewMemoryStore :: "int \<Rightarrow> MemoryStore" where
  "NewMemoryStore n =
    \<lparr> logger = NewLogger (if n < 1 then 1000 else n), assets = [], findings = [], tested = [] \<rparr>"

definition LogEntry ::
  "string \<Rightarrow> instant \<Rightarrow> string \<Rightarrow> string \<Rightarrow> data option \<Rightarrow> MemoryStore \<Rightarrow> Entry \<times> MemoryStore" where
  "LogEntry i now component eventType d s =
    (let (e, l) = Log i now component eventType d (logger s) in (e, s\<lparr> logger := l \<rparr>))"

definition RecentEntries :: "int \<Rightarrow> MemoryStore \<Rightarrow> Entry list" where
  "RecentEntries n s = Recent n (logger s)"

definition SearchEntries :: "string \<Rightarrow> string \<Rightarrow> MemoryStore \<Rightarrow> Entry list" where
  "SearchEntries eventType component s = Search eventType component (logger s)"

definition Store_RedactEntry :: "string \<Rightarrow> string list \<Rightarrow> MemoryStore \<Rightarrow> Entry option" where
  "Store_RedactEntry entryID fs s = Redact entryID fs (logger s)"

definition mergeSource :: "string \<Rightarrow> string \<Rightarrow> string" where
  "mergeSource a b = (if a = [] then b else if b = [] then a else if a = b then a
     else a @ '','' @ b)"

text \<open>The two loops share the map \<open>seen\<close>; it holds exactly what \<open>out\<close> holds.\<close>

definition add_unseen :: "string \<Rightarrow> string list \<Rightarrow> string list" where
  "add_unseen t out = (if t \<in> set out then out else out @ [t])"

definition mergeTech :: "string list \<Rightarrow> string list \<Rightarrow> string list" where
  "mergeTech a b = fold add_unseen b (fold add_unseen a [])"

text \<open>\<open>time.Time.Before\<close>; the zero time precedes every instant the program reads.\<close>

definition before :: "instant option \<Rightarrow> instant option \<Rightarrow> bool" where
  "before a b = (case (a, b) of (Some x, Some y) \<Rightarrow> x < y | (None, Some _) \<Rightarrow> True | _ \<Rightarrow> False)"

definition merge_asset :: "instant \<Rightarrow> Asset \<Rightarrow> Asset \<Rightarrow> Asset" where
  "merge_asset now a e =
    (let e1 = e\<lparr> LastSeen := Some now \<rparr>;
         e2 = e1\<lparr> ASource := mergeSource (ASource e1) (ASource a) \<rparr>;
         e3 = (if before (FirstSeen a) (FirstSeen e2) then e2\<lparr> FirstSeen := FirstSeen a \<rparr> else e2);
         e4 = (if AInScope a then e3\<lparr> AInScope := True \<rparr> else e3)
     in e4\<lparr> Tech := mergeTech (Tech e4) (Tech a) \<rparr>)"

fun merge_into :: "instant \<Rightarrow> Asset \<Rightarrow> Asset list \<Rightarrow> Asset list option" where
  "merge_into now a [] = None"
| "merge_into now a (e # es) =
    (if AHost e = AHost a then Some (merge_asset now a e # es)
     else (case merge_into now a es of None \<Rightarrow> None | Some es' \<Rightarrow> Some (e # es')))"

definition stamp_asset :: "instant \<Rightarrow> Asset \<Rightarrow> Asset" where
  "stamp_asset now a =
    (let a1 = a\<lparr> LastSeen := Some now \<rparr>
     in if FirstSeen a1 = None then a1\<lparr> FirstSeen := Some now \<rparr> else a1)"

definition upsert :: "instant \<Rightarrow> Asset \<Rightarrow> Asset list \<Rightarrow> Asset list" where
  "upsert now a0 existing =
    (let a = stamp_asset now a0
     in case merge_into now a existing of Some es \<Rightarrow> es | None \<Rightarrow> existing @ [a])"

definition RecordAssets :: "instant \<Rightarrow> string \<Rightarrow> Asset list \<Rightarrow> MemoryStore \<Rightarrow> MemoryStore" where
  "RecordAssets now program as s =
    s\<lparr> assets := AList.update program (fold (upsert now) as (at_key program (assets s))) (assets s) \<rparr>"

definition GetAssets :: "string \<Rightarrow> MemoryStore \<Rightarrow> Asset list" where
  "GetAssets program s = at_key program (assets s)"

definition fill_finding :: "string \<Rightarrow> instant \<Rightarrow> Finding \<Rightarrow> Finding" where
  "fill_finding i now f =
    (let f1 = (if FID f = [] then f\<lparr> FID := i \<rparr> else f);
         f2 = (if Created f1 = None then f1\<lparr> Created := Some now \<rparr> else f1)
     in if FStatus f2 = [] then f2\<lparr> FStatus := ''open'' \<rparr> else f2)"

text \<open>The caller's finding is changed through the pointer: it is returned.\<close>

definition RecordFinding ::
  "string \<Rightarrow> instant \<Rightarrow> string \<Rightarrow> Finding \<Rightarrow> MemoryStore \<Rightarrow> Finding \<times> MemoryStore" where
  "RecordFinding i now program f s =
    (let f' = fill_finding i now f
     in (f', s\<lparr> findings := AList.update program (at_key program (findings s) @ [f']) (findings s) \<rparr>))"

definition GetFindings :: "string \<Rightarrow> MemoryStore \<Rightarrow> Finding list" where
  "GetFindings program s = at_key program (findings s)"

definition MarkTested :: "instant \<Rightarrow> string \<Rightarrow> TestedEndpoint \<Rightarrow> MemoryStore \<Rightarrow> MemoryStore" where
  "MarkTested now program te s =
    (let te' = (if TestedAt te = None then te\<lparr> TestedAt := Some now \<rparr> else te)
     in s\<lparr> tested := AList.update program (at_key program (tested s) @ [te']) (tested s) \<rparr>)"

definition GetTested :: "string \<Rightarrow> MemoryStore \<Rightarrow> TestedEndpoint list" where
  "GetTested program s = at_key program (tested s)"

datatype store_err = PostgresNotBuilt

text \<open>\<open>getenv\<close> is the process environment.\<close>

definition NewConfiguredStore ::
  "(string \<Rightarrow> string) \<Rightarrow> StoreConfig \<Rightarrow> (store_err, MemoryStore) result" where
  "NewConfiguredStore getenv cfg =
    (if PostgreSQLEnabled cfg \<or> SConnString cfg \<noteq> [] \<or> getenv ''DATABASE_URL'' \<noteq> []
        \<or> getenv ''SCOPEPILOT_POSTGRES_ENABLED'' = ''true''
     then Inl PostgresNotBuilt else Inr (NewMemoryStore 5000))"

section \<open>The audit part is a bounded log\<close>

definition push_entry :: "Entry \<Rightarrow> MemoryStore \<Rightarrow> MemoryStore" where
  "push_entry e s = s\<lparr> logger := append_entry e (logger s) \<rparr>"

lemma LogEntry_push:
  "LogEntry i now c ev d s = (new_entry i now c ev d, push_entry (new_entry i now c ev d) s)"
  by (simp add: LogEntry_def Log_def push_entry_def Let_def)

interpretation store_recent: recent_log push_entry "\<lambda>s. entries (logger s)"
  "\<lambda>s. maxEntries (logger s)" "\<lambda>s. logger_ok (logger s)" RecentEntries
  by unfold_locales
    (auto simp: push_entry_def RecentEntries_def Recent_rev logger_ring.push_ok
      logger_ring.push_cap logger_ring.push_items dest: logger_ring.ok_cap)

section \<open>Merging\<close>

lemma fold_add_unseen:
  "distinct out \<Longrightarrow> distinct (fold add_unseen ts out) \<and> set (fold add_unseen ts out) = set out \<union> set ts"
  by (induction ts arbitrary: out) (auto simp: add_unseen_def)

lemma mergeTech_set: "distinct (mergeTech a b) \<and> set (mergeTech a b) = set a \<union> set b"
  using fold_add_unseen [of "[]" a] fold_add_unseen [of "fold add_unseen a []" b]
  by (simp add: mergeTech_def)

lemma merge_asset_host [simp]: "AHost (merge_asset now a e) = AHost e"
  by (simp add: merge_asset_def Let_def)

lemma stamp_asset_host [simp]: "AHost (stamp_asset now a) = AHost a"
  by (simp add: stamp_asset_def Let_def)

lemma merge_into_None: "merge_into now a es = None \<longleftrightarrow> AHost a \<notin> AHost ` set es"
  by (induction es) (auto split: option.splits)

lemma merge_into_hosts: "merge_into now a es = Some es' \<Longrightarrow> map AHost es' = map AHost es"
  by (induction es arbitrary: es') (auto split: if_splits option.splits)

lemma merge_into_find:
  "merge_into now a es = Some es' \<Longrightarrow>
   find (\<lambda>e. AHost e = h) es' =
     (if h = AHost a then map_option (merge_asset now a) (find (\<lambda>e. AHost e = h) es)
      else find (\<lambda>e. AHost e = h) es)"
  by (induction es arbitrary: es') (auto split: if_splits option.splits)

lemma upsert_hosts:
  "map AHost (upsert now a es) =
    (if AHost a \<in> AHost ` set es then map AHost es else map AHost es @ [AHost a])"
  using merge_into_None [of now "stamp_asset now a" es]
  by (auto simp: upsert_def Let_def merge_into_hosts split: option.splits)

lemma find_append: "find P (xs @ ys) = (case find P xs of Some x \<Rightarrow> Some x | None \<Rightarrow> find P ys)"
  by (induction xs) auto

lemma upsert_find:
  "find (\<lambda>e. AHost e = h) (upsert now a es) =
    (if h \<noteq> AHost a then find (\<lambda>e. AHost e = h) es
     else Some (case find (\<lambda>e. AHost e = h) es of
       Some e \<Rightarrow> merge_asset now (stamp_asset now a) e | None \<Rightarrow> stamp_asset now a))"
proof (cases "merge_into now (stamp_asset now a) es")
  case None
  then have "AHost a \<notin> AHost ` set es" by (simp add: merge_into_None)
  then have "find (\<lambda>e. AHost e = AHost a) es = None"
    by (metis (mono_tags, lifting) find_None_iff image_eqI)
  then show ?thesis using None by (auto simp: upsert_def find_append split: option.splits)
next
  case (Some es')
  then have "AHost a \<in> AHost ` set es"
    using merge_into_None [of now "stamp_asset now a" es] by auto
  then have "find (\<lambda>e. AHost e = AHost a) es \<noteq> None" by (auto simp: find_None_iff)
  then show ?thesis
    using Some merge_into_find [OF Some, of h] by (auto simp: upsert_def)
qed

lemma fold_upsert_distinct:
  "distinct (map AHost es) \<Longrightarrow> distinct (map AHost (fold (upsert now) as es))"
  by (induction as arbitrary: es) (auto simp: upsert_hosts)

lemma fold_upsert_hosts:
  "AHost ` set (fold (upsert now) as es) = AHost ` set es \<union> AHost ` set as"
proof (induction as arbitrary: es)
  case (Cons a as)
  have "AHost ` set (upsert now a es) = insert (AHost a) (AHost ` set es)"
    using arg_cong [OF upsert_hosts [of now a es], of set] by (auto split: if_splits)
  then show ?case using Cons by auto
qed simp

definition store_inv :: "MemoryStore \<Rightarrow> bool" where
  "store_inv s = (logger_ok (logger s) \<and> amap_ok (assets s)
     \<and> (\<forall>p. distinct (map AHost (at_key p (assets s)))))"

lemma store_inv_new [simp]: "store_inv (NewMemoryStore n)"
  by (simp add: store_inv_def NewMemoryStore_def at_key_def)

lemma RecordAssets_inv: "store_inv s \<Longrightarrow> store_inv (RecordAssets now p as s)"
  by (simp add: store_inv_def RecordAssets_def fold_upsert_distinct)

lemma LogEntry_inv: "store_inv s \<Longrightarrow> store_inv (snd (LogEntry i now c ev d s))"
  by (simp add: LogEntry_push store_inv_def push_entry_def logger_ring.push_ok)

lemmas [go_eval] = at_key_def NewMemoryStore_def LogEntry_def RecentEntries_def
  SearchEntries_def Store_RedactEntry_def mergeSource_def add_unseen_def mergeTech_def before_def
  merge_asset_def stamp_asset_def upsert_def RecordAssets_def GetAssets_def fill_finding_def
  RecordFinding_def GetFindings_def MarkTested_def GetTested_def NewConfiguredStore_def

section \<open>Properties\<close>

text \<open>
  recording an asset merges it into the asset of the same host, or adds it with its
  times filled in, and leaves the other hosts alone.
\<close>

theorem recorded_asset:
  "find (\<lambda>e. AHost e = h) (GetAssets p (RecordAssets t p [a] s)) =
    (if h \<noteq> AHost a then find (\<lambda>e. AHost e = h) (GetAssets p s)
     else Some (case find (\<lambda>e. AHost e = h) (GetAssets p s) of
       Some e \<Rightarrow> merge_asset t (stamp_asset t a) e | None \<Rightarrow> stamp_asset t a))"
  by (simp add: GetAssets_def RecordAssets_def upsert_find)

text \<open>
  recording keeps one asset per host, the hosts of a program are the old ones and the
  recorded ones, and other programs are untouched.
\<close>

theorem recorded_hosts:
  assumes "store_inv s"
  shows "store_inv (RecordAssets t p as s)
    \<and> AHost ` set (GetAssets p (RecordAssets t p as s)) = AHost ` set (GetAssets p s) \<union> AHost ` set as
    \<and> (\<forall>q. q \<noteq> p \<longrightarrow> GetAssets q (RecordAssets t p as s) = GetAssets q s)"
  using RecordAssets_inv [OF assms] by (simp add: GetAssets_def RecordAssets_def fold_upsert_hosts)

theorem recorded_hosts_witness:
  "AHost ` set (GetAssets ''p'' (RecordAssets 0 ''p'' [\<lparr> AHost = ''a.io'', ASource = [], FirstSeen = None,
     LastSeen = None, AInScope = True, Tech = [] \<rparr>] (NewMemoryStore 5))) = {''a.io''}"
  using recorded_hosts [OF store_inv_new [of 5], of 0 "''p''" "[\<lparr> AHost = ''a.io'', ASource = [], FirstSeen = None,
     LastSeen = None, AInScope = True, Tech = [] \<rparr>]"]
  by (simp add: GetAssets_def NewMemoryStore_def at_key_def)

text \<open>
  merging assets takes the union of the technologies without repetition, keeps the
  host, and an asset stays in scope once it was.
\<close>

theorem merged_tech:
  "distinct (Tech (merge_asset t a e)) \<and> set (Tech (merge_asset t a e)) = set (Tech e) \<union> set (Tech a)
   \<and> AHost (merge_asset t a e) = AHost e
   \<and> (AInScope (merge_asset t a e) \<longleftrightarrow> AInScope e \<or> AInScope a)"
  using mergeTech_set by (auto simp: merge_asset_def Let_def)

theorem mergeSource_repeats: "mergeSource (mergeSource ''a'' ''b'') ''b'' = ''a,b,b''"
  by (simp add: mergeSource_def)

end
