(* ===== verification/Go_Json.thy ===== *)
theory Go_Json
  imports Go_Strings
begin

text \<open>
  \<open>encoding/json\<close> as the program uses it: the scanner and decoder for JSON text (literals,
  escapes, surrogate pairs, replacement of malformed UTF-8, the nesting limit), the printer
  with HTML escaping, and the decoding of an object into the fields of a struct, whose names
  match up to case folding. The parser is fuelled; \<open>parse_val_fuel\<close> shows that the fuel
  \<open>json_parse\<close> gives is enough, and \<open>json_round_trip\<close> that printing ASCII values and parsing them
  are inverse.
\<close>

section \<open>Values and lexical scanning\<close>

text \<open>A number keeps its literal; an object keeps its members in order, duplicates included.\<close>

datatype json =
    JNull
  | JBool bool
  | JNum string
  | JStr string
  | JArr "json list"
  | JObj "(string \<times> json) list"

definition skip_ws :: "string \<Rightarrow> string" where
  "skip_ws s = dropWhile (\<lambda>c. byte c = 32 \<or> byte c = 9 \<or> byte c = 10 \<or> byte c = 13) s"

definition hex_nibble :: "char \<Rightarrow> nat option" where
  "hex_nibble c =
    (if between 48 57 c then Some (byte c - 48)
     else if between 97 102 c then Some (byte c - 87)
     else if between 65 70 c then Some (byte c - 55) else None)"

fun hex4 :: "string \<Rightarrow> nat option" where
  "hex4 (a # b # c # d # s) =
    (case (hex_nibble a, hex_nibble b, hex_nibble c, hex_nibble d) of
       (Some w, Some x, Some y, Some z) \<Rightarrow> Some (((w * 16 + x) * 16 + y) * 16 + z)
     | _ \<Rightarrow> None)"
| "hex4 s = None"

abbreviation dquote :: char where "dquote \<equiv> CHR 0x22"
abbreviation backslash :: char where "backslash \<equiv> CHR 0x5C"

text \<open>The text of a string literal after its opening quote, and what follows the closing one.\<close>

definition prepend :: "string \<Rightarrow> (string \<times> string) option \<Rightarrow> (string \<times> string) option" where
  "prepend p r = map_option (\<lambda>(u, t). (p @ u, t)) r"

fun scan_str :: "string \<Rightarrow> (string \<times> string) option" where
  "scan_str [] = None"
| "scan_str (c # s) =
    (if c = dquote then Some ([], s)
     else if byte c < 32 then None
     else if c = backslash then
       (case s of [] \<Rightarrow> None
        | e # t \<Rightarrow>
          if e \<in> set ''bfnrt/'' \<or> e = dquote \<or> e = backslash then prepend [c, e] (scan_str t)
          else if e = CHR ''u'' \<and> hex4 t \<noteq> None
          then prepend (c # e # take 4 t) (scan_str (drop 4 t)) else None)
     else prepend [c] (scan_str s))"

definition is_surrogate :: "nat \<Rightarrow> bool" where
  "is_surrogate r = (0xD800 \<le> r \<and> r < 0xE000)"

definition surrogate_pair :: "nat \<Rightarrow> nat \<Rightarrow> nat option" where
  "surrogate_pair r r2 =
    (if 0xD800 \<le> r \<and> r < 0xDC00 \<and> 0xDC00 \<le> r2 \<and> r2 < 0xE000
     then Some ((r - 0xD800) * 1024 + (r2 - 0xDC00) + 0x10000) else None)"

definition escape_char :: "char \<Rightarrow> char" where
  "escape_char e =
    (if e = CHR ''b'' then char_of (8::nat) else if e = CHR ''f'' then char_of (12::nat)
     else if e = CHR ''n'' then char_of (10::nat) else if e = CHR ''r'' then char_of (13::nat)
     else if e = CHR ''t'' then char_of (9::nat) else e)"

text \<open>\<open>\<backslash>uXXXX\<close> at the start of a string: \<open>getu4\<close>.\<close>

definition getu4 :: "string \<Rightarrow> nat option" where
  "getu4 s = (case s of a # b # t \<Rightarrow> if a = backslash \<and> b = CHR ''u'' then hex4 t else None | _ \<Rightarrow> None)"

text \<open>The bytes a literal stands for; malformed UTF-8 becomes the replacement character.\<close>

fun unquote :: "string \<Rightarrow> string" where
  "unquote [] = []"
| "unquote (c # s) =
    (if c = backslash then
       (case getu4 (c # s) of
          Some r \<Rightarrow>
            if is_surrogate r then
              (case (case getu4 (drop 5 s) of None \<Rightarrow> None | Some r2 \<Rightarrow> surrogate_pair r r2) of
                 Some x \<Rightarrow> encode_rune x @ unquote (drop 11 s)
               | None \<Rightarrow> encode_rune rune_error @ unquote (drop 5 s))
            else encode_rune r @ unquote (drop 5 s)
        | None \<Rightarrow> (case s of [] \<Rightarrow> [] | e # t \<Rightarrow> escape_char e # unquote t))
     else if byte c < 128 then c # unquote s
     else (let (r, n) = decode_rune (c # s) in encode_rune r @ unquote (drop (n - 1) s)))"

definition digit_run :: "string \<Rightarrow> string \<times> string" where
  "digit_run s = (takeWhile is_digit s, dropWhile is_digit s)"

definition scan_int :: "string \<Rightarrow> (string \<times> string) option" where
  "scan_int s =
    (case s of [] \<Rightarrow> None
     | c # t \<Rightarrow> if c = CHR ''0'' then Some ([c], t)
               else if is_digit c then Some (digit_run s) else None)"

definition scan_frac :: "string \<Rightarrow> (string \<times> string) option" where
  "scan_frac s =
    (case s of c # t \<Rightarrow>
       if c = CHR ''.''
       then (let (ds, u) = digit_run t in if ds = [] then None else Some (c # ds, u))
       else Some ([], s)
     | [] \<Rightarrow> Some ([], s))"

definition scan_exp :: "string \<Rightarrow> (string \<times> string) option" where
  "scan_exp s =
    (case s of c # t \<Rightarrow>
       if c = CHR ''e'' \<or> c = CHR ''E'' then
         (let sign = (case t of g # _ \<Rightarrow> if g = CHR ''+'' \<or> g = CHR ''-'' then [g] else [] | [] \<Rightarrow> []);
              (ds, u) = digit_run (drop (length sign) t)
          in if ds = [] then None else Some (c # sign @ ds, u))
       else Some ([], s)
     | [] \<Rightarrow> Some ([], s))"

definition scan_num :: "string \<Rightarrow> (string \<times> string) option" where
  "scan_num s =
    (let sign = (case s of c # _ \<Rightarrow> if c = CHR ''-'' then [c] else [] | [] \<Rightarrow> []) in
     case scan_int (drop (length sign) s) of None \<Rightarrow> None
     | Some (i, t) \<Rightarrow>
       (case scan_frac t of None \<Rightarrow> None
        | Some (f, u) \<Rightarrow>
          (case scan_exp u of None \<Rightarrow> None | Some (e, v) \<Rightarrow> Some (sign @ i @ f @ e, v))))"

section \<open>Parsing\<close>

definition max_depth :: nat where "max_depth = 10000"

text \<open>
  The fuel bounds the number of nested calls; \<open>json_parse\<close> gives two units per byte, which is
  enough (\<open>parse_val_fuel\<close>).
\<close>

fun parse_val :: "nat \<Rightarrow> nat \<Rightarrow> string \<Rightarrow> (json \<times> string) option"
and parse_elems :: "nat \<Rightarrow> nat \<Rightarrow> string \<Rightarrow> (json list \<times> string) option"
and parse_members :: "nat \<Rightarrow> nat \<Rightarrow> string \<Rightarrow> ((string \<times> json) list \<times> string) option" where
  "parse_val 0 d s = None"
| "parse_val (Suc f) d s =
    (case skip_ws s of [] \<Rightarrow> None
     | c # t \<Rightarrow>
       if c = CHR ''{'' then
         (if d \<ge> max_depth then None
          else if has_prefix (skip_ws t) ''}'' then Some (JObj [], tl (skip_ws t))
          else map_option (\<lambda>(ms, r). (JObj ms, r)) (parse_members f (Suc d) t))
       else if c = CHR ''['' then
         (if d \<ge> max_depth then None
          else if has_prefix (skip_ws t) '']'' then Some (JArr [], tl (skip_ws t))
          else map_option (\<lambda>(vs, r). (JArr vs, r)) (parse_elems f (Suc d) t))
       else if c = dquote then map_option (\<lambda>(u, r). (JStr (unquote u), r)) (scan_str t)
       else if has_prefix (c # t) ''true'' then Some (JBool True, drop 3 t)
       else if has_prefix (c # t) ''false'' then Some (JBool False, drop 4 t)
       else if has_prefix (c # t) ''null'' then Some (JNull, drop 3 t)
       else map_option (\<lambda>(n, r). (JNum n, r)) (scan_num (c # t)))"
| "parse_elems 0 d s = None"
| "parse_elems (Suc f) d s =
    (case parse_val f d s of None \<Rightarrow> None
     | Some (v, r) \<Rightarrow>
       (case skip_ws r of [] \<Rightarrow> None
        | c # t \<Rightarrow>
          if c = CHR '']'' then Some ([v], t)
          else if c = CHR '','' then map_option (\<lambda>(vs, u). (v # vs, u)) (parse_elems f d t)
          else None))"
| "parse_members 0 d s = None"
| "parse_members (Suc f) d s =
    (case skip_ws s of [] \<Rightarrow> None
     | q # t \<Rightarrow> if q \<noteq> dquote then None else
       (case scan_str t of None \<Rightarrow> None
        | Some (k, u) \<Rightarrow>
          (case skip_ws u of [] \<Rightarrow> None
           | c # w \<Rightarrow> if c \<noteq> CHR '':'' then None else
             (case parse_val f d w of None \<Rightarrow> None
              | Some (v, r) \<Rightarrow>
                (case skip_ws r of [] \<Rightarrow> None
                 | e # x \<Rightarrow>
                   if e = CHR ''}'' then Some ([(unquote k, v)], x)
                   else if e = CHR '','' then
                     map_option (\<lambda>(ms, y). ((unquote k, v) # ms, y)) (parse_members f d x)
                   else None)))))"

text \<open>\<open>json.Unmarshal\<close> wants one value and nothing after it; a \<open>Decoder\<close> reads the first.\<close>

definition json_parse :: "string \<Rightarrow> json option" where
  "json_parse s =
    (case parse_val (2 * length s + 2) 0 s of None \<Rightarrow> None
     | Some (v, r) \<Rightarrow> if skip_ws r = [] then Some v else None)"

definition json_decode :: "string \<Rightarrow> json option" where
  "json_decode s = map_option fst (parse_val (2 * length s + 2) 0 s)"

section \<open>Printing\<close>

definition nibble_char :: "nat \<Rightarrow> char" where
  "nibble_char n = char_of (if n < 10 then 48 + n else 87 + n)"

definition u_escape :: "nat \<Rightarrow> string" where
  "u_escape n = [backslash, CHR ''u'', nibble_char (n div 4096 mod 16), nibble_char (n div 256 mod 16),
     nibble_char (n div 16 mod 16), nibble_char (n mod 16)]"

text \<open>One rune of a string, with \<open>escapeHTML\<close> on, as \<open>Marshal\<close> has it.\<close>

definition quote_chunk :: "nat \<times> string \<Rightarrow> string" where
  "quote_chunk rb =
    (let (r, bs) = rb in
     if r < 128 then
       (if r = 0x22 \<or> r = 0x5C then [backslash, char_of r]
        else if r = 8 then [backslash, CHR ''b''] else if r = 12 then [backslash, CHR ''f'']
        else if r = 10 then [backslash, CHR ''n''] else if r = 13 then [backslash, CHR ''r'']
        else if r = 9 then [backslash, CHR ''t'']
        else if r < 32 \<or> r = 0x3C \<or> r = 0x3E \<or> r = 0x26 then u_escape r
        else [char_of r])
     else if r = rune_error \<and> length bs = 1 then u_escape rune_error
     else if r = 0x2028 \<or> r = 0x2029 then u_escape r
     else bs)"

definition json_quote :: "string \<Rightarrow> string" where
  "json_quote s = dquote # concat (map quote_chunk (chunks s)) @ [dquote]"

fun json_print :: "json \<Rightarrow> string" where
  "json_print JNull = ''null''"
| "json_print (JBool b) = (if b then ''true'' else ''false'')"
| "json_print (JNum n) = n"
| "json_print (JStr s) = json_quote s"
| "json_print (JArr vs) = ''['' @ join '','' (map json_print vs) @ '']''"
| "json_print (JObj ms) =
    ''{'' @ join '','' (map (\<lambda>(k, v). json_quote k @ '':'' @ json_print v) ms) @ ''}''"


section \<open>The fuel is enough\<close>

lemma skip_ws_le: "length (skip_ws s) \<le> length s"
  by (simp add: skip_ws_def length_dropWhile_le)

lemma prepend_Some [simp]: "prepend p r = Some (u, t) \<longleftrightarrow> (\<exists>v. r = Some (v, t) \<and> u = p @ v)"
  by (auto simp: prepend_def)

lemma scan_str_step:
  assumes "scan_str (c # s) = Some (u, r)"
  shows "r = s \<or> (\<exists>t v. length t \<le> length s \<and> scan_str t = Some (v, r))"
proof -
  have "scan_str s = Some (v, r) \<Longrightarrow> ?thesis" "scan_str (tl s) = Some (v, r) \<Longrightarrow> ?thesis"
    "scan_str (drop 4 (tl s)) = Some (v, r) \<Longrightarrow> ?thesis" for v
    by force+
  then show ?thesis using assms by (cases s) (auto split: if_splits)
qed

lemma scan_str_rest: "scan_str s = Some (u, r) \<Longrightarrow> length r < length s"
proof (induction "length s" arbitrary: s u rule: less_induct)
  case less
  then obtain c s' where s: "s = c # s'" by (cases s) auto
  from scan_str_step [OF less.prems [unfolded s]] show ?case
  proof
    assume "\<exists>t v. length t \<le> length s' \<and> scan_str t = Some (v, r)"
    then obtain t v where t: "length t \<le> length s'" "scan_str t = Some (v, r)" by blast
    show ?thesis using less.hyps [OF _ t(2)] t(1) s by simp
  qed (simp add: s)
qed

text \<open>Numbers: what is scanned is a prefix of the input.\<close>

lemma digit_run_split: "digit_run s = (ds, r) \<Longrightarrow> s = ds @ r"
  by (auto simp: digit_run_def)

lemma scan_int_split: "scan_int s = Some (i, t) \<Longrightarrow> s = i @ t \<and> i \<noteq> []"
  by (auto simp: scan_int_def digit_run_def split: list.splits if_splits)

lemma scan_frac_split: "scan_frac s = Some (f, t) \<Longrightarrow> s = f @ t"
  by (auto simp: scan_frac_def Let_def dest: digit_run_split split: list.splits if_splits prod.splits)

lemma scan_exp_split: "scan_exp s = Some (e, t) \<Longrightarrow> s = e @ t"
  by (auto simp: scan_exp_def Let_def dest: digit_run_split split: list.splits if_splits prod.splits)

lemma scan_num_split: "scan_num s = Some (n, r) \<Longrightarrow> s = n @ r \<and> n \<noteq> []"
  by (cases s) (auto simp: scan_num_def Let_def split: option.splits if_splits
      dest!: scan_int_split scan_frac_split scan_exp_split)

lemma scan_num_rest: "scan_num s = Some (n, r) \<Longrightarrow> length r < length s"
  using scan_num_split [of s n r] by auto

lemma skip_ws_Cons: "skip_ws s = c # t \<Longrightarrow> length t < length s"
  using skip_ws_le [of s] by simp

text \<open>One step of the value parser, by the first character.\<close>

lemma parse_val_step:
  assumes "parse_val (Suc f) d s = Some (v, r)"
  obtains t :: string where "length t < length s" "length r \<le> length t"
  | t ms where "length t < length s" "parse_members f (Suc d) t = Some (ms, r)"
  | t vs where "length t < length s" "parse_elems f (Suc d) t = Some (vs, r)"
  | t u where "length t < length s" "scan_str t = Some (u, r)"
  | t n where "length t \<le> length s" "scan_num t = Some (n, r)"
proof -
  obtain c t where s: "skip_ws s = c # t" using assms by (auto split: list.splits)
  have t: "length t < length s" by (rule skip_ws_Cons [OF s])
  have short: "length (tl (skip_ws t)) \<le> length t" "length (drop 3 t) \<le> length t" "length (drop 4 t) \<le> length t"
    using skip_ws_le [of t] by simp_all
  have ct: "length (c # t) \<le> length s" using t by simp
  note p = assms [unfolded parse_val.simps s list.case]
  show ?thesis
  proof (cases "c = CHR ''{'' \<or> c = CHR ''['' \<or> c = dquote")
    case True
    with p t short that(2,3,4) that(1) [OF t] show ?thesis
      by (auto simp del: has_prefix.simps split: if_splits)
  next
    case False
    with p t short that(1) [OF t] that(5) [OF ct] show ?thesis
      by (auto simp del: has_prefix.simps split: if_splits)
  qed
qed

lemma parse_json_rest:
  "parse_val f d s = Some (v, r) \<Longrightarrow> length r < length s"
  "parse_elems f d s = Some (vs, r) \<Longrightarrow> length r < length s"
  "parse_members f d s = Some (ms, r) \<Longrightarrow> length r < length s"
proof (induction f arbitrary: d s v r vs ms)
  case (Suc f)
  { case 1
    then show ?case
    proof (cases rule: parse_val_step)
      case (1 t) then show ?thesis by simp
    next
      case (2 t ms) then show ?thesis using Suc.IH(3) [OF 2(2)] by simp
    next
      case (3 t vs) then show ?thesis using Suc.IH(2) [OF 3(2)] by simp
    next
      case (4 t u) then show ?thesis using scan_str_rest [OF 4(2)] by simp
    next
      case (5 t n) then show ?thesis using scan_num_rest [OF 5(2)] by simp
    qed
  next
    case 2
    then obtain v' q c t where v: "parse_val f d s = Some (v', q)" and q: "skip_ws q = c # t"
      and r: "r = t \<or> (\<exists>ws. parse_elems f d t = Some (ws, r))"
      by (auto split: option.splits list.splits if_splits)
    show ?case using Suc.IH(1) [OF v] skip_ws_Cons [OF q] r by (auto dest: Suc.IH(2))
  next
    case 3
    then obtain q t k u c w v' p e x where q: "skip_ws s = q # t" and k: "scan_str t = Some (k, u)"
      and u: "skip_ws u = c # w" and v: "parse_val f d w = Some (v', p)" and p: "skip_ws p = e # x"
      and r: "r = x \<or> (\<exists>ws. parse_members f d x = Some (ws, r))"
      by (auto split: option.splits list.splits if_splits)
    show ?case using skip_ws_Cons [OF q] scan_str_rest [OF k] skip_ws_Cons [OF u] Suc.IH(1) [OF v]
        skip_ws_Cons [OF p] r by (auto dest: Suc.IH(3))
  }
qed simp_all


lemma parse_fuel_step:
  "2 * length s < f \<Longrightarrow> parse_val (Suc f) d s = parse_val f d s"
  "2 * length s + 1 < f \<Longrightarrow> parse_elems (Suc f) d s = parse_elems f d s"
  "2 * length s < f \<Longrightarrow> parse_members (Suc f) d s = parse_members f d s"
proof (induction f arbitrary: d s)
  case (Suc f)
  { case 1
    show ?case
    proof (cases "skip_ws s")
      case (Cons c t)
      have t: "length t < length s" by (rule skip_ws_Cons [OF Cons])
      have "parse_members (Suc f) (Suc d) t = parse_members f (Suc d) t"
        "parse_elems (Suc f) (Suc d) t = parse_elems f (Suc d) t"
        using Suc.IH(3) [of t "Suc d"] Suc.IH(2) [of t "Suc d"] 1 t by simp_all
      then show ?thesis unfolding parse_val.simps Cons list.case by (simp only:)
    qed simp
  next
    case 2
    have v: "parse_val (Suc f) d s = parse_val f d s" using Suc.IH(1) [of s d] 2 by simp
    have e: "parse_elems (Suc f) d t = parse_elems f d t" if "parse_val f d s = Some (x, r)" "skip_ws r = c # t" for x r c t
      using Suc.IH(2) [of t d] 2 parse_json_rest(1) [OF that(1)] skip_ws_Cons [OF that(2)] by simp
    show ?case unfolding parse_elems.simps(2) [of "Suc f" d s] parse_elems.simps(2) [of f d s] v
      by (auto simp: e simp del: parse_val.simps parse_elems.simps split: option.split list.split)
  next
    case 3
    have v: "parse_val (Suc f) d w = parse_val f d w"
      if "skip_ws s = q # t" "scan_str t = Some (k, u)" "skip_ws u = c # w" for q t k u c w
      using Suc.IH(1) [of w d] 3 skip_ws_Cons [OF that(1)] scan_str_rest [OF that(2)] skip_ws_Cons [OF that(3)]
      by simp
    have m: "parse_members (Suc f) d x = parse_members f d x"
      if "skip_ws s = q # t" "scan_str t = Some (k, u)" "skip_ws u = c # w" "parse_val f d w = Some (y, p)"
        "skip_ws p = e # x" for q t k u c w y p e x
      using Suc.IH(3) [of x d] 3 skip_ws_Cons [OF that(1)] scan_str_rest [OF that(2)] skip_ws_Cons [OF that(3)]
        parse_json_rest(1) [OF that(4)] skip_ws_Cons [OF that(5)]
      by simp
    show ?case unfolding parse_members.simps(2) [of "Suc f" d s] parse_members.simps(2) [of f d s]
      by (auto simp: v m simp del: parse_val.simps parse_members.simps split: option.split list.split)
  }
qed simp_all


lemma parse_val_fuel: "2 * length s < f \<Longrightarrow> parse_val f d s = parse_val (2 * length s + 1) d s"
proof (induction f)
  case (Suc f)
  then show ?case using parse_fuel_step(1) [of s f d] by (cases "f = 2 * length s") simp_all
qed simp


section \<open>Printing and parsing are inverse\<close>

lemma hex_nibble_char: "n < 16 \<Longrightarrow> hex_nibble (nibble_char n) = Some n"
  by (auto simp: hex_nibble_def nibble_char_def between_def)

lemma byte_marks [simp]: "byte backslash = 92" "byte dquote = 34"
  by (simp_all add: byte_def)

lemma hex4_escape:
  "r < 65536 \<Longrightarrow> hex4 (nibble_char (r div 4096 mod 16) # nibble_char (r div 256 mod 16)
     # nibble_char (r div 16 mod 16) # nibble_char (r mod 16) # t) = Some r"
proof -
  assume "r < 65536"
  have d: "r div 4096 mod 16 = r div 4096" using \<open>r < 65536\<close> by simp
  have e: "r div 4096 * 16 + r div 256 mod 16 = r div 256" "r div 256 * 16 + r div 16 mod 16 = r div 16"
    using div_mult_mod_eq [of "r div 256" 16] div_mult_mod_eq [of "r div 16" 16]
    by (simp_all add: div_mult2_eq [symmetric])
  have "((r div 4096 mod 16 * 16 + r div 256 mod 16) * 16 + r div 16 mod 16) * 16 + r mod 16 = r"
    unfolding d e by simp
  moreover have "r div 4096 < 16" using \<open>r < 65536\<close> by auto
  ultimately show ?thesis using d by (simp add: hex_nibble_char)
qed

lemma scan_u_escape: "r < 65536 \<Longrightarrow> scan_str (u_escape r @ t) = prepend (u_escape r) (scan_str t)"
  using hex4_escape [of r t] by (simp add: u_escape_def del: hex4.simps)

lemma unquote_u_escape:
  "r < 65536 \<Longrightarrow> \<not> is_surrogate r \<Longrightarrow> unquote (u_escape r @ t) = encode_rune r @ unquote t"
  using hex4_escape [of r t] by (simp add: u_escape_def getu4_def del: hex4.simps)

lemma char_eq_byte: "c = d \<longleftrightarrow> byte c = byte d"
  by simp

text \<open>The printed form of one ASCII character.\<close>

definition quote_char :: "char \<Rightarrow> string" where
  "quote_char c = quote_chunk (byte c, [c])"

lemma quote_char_cases:
  assumes "byte c < 128"
  obtains e where "quote_char c = [backslash, e]" "escape_char e = c" "e \<in> set ''bfnrt/'' \<or> e = dquote \<or> e = backslash"
      "e \<noteq> CHR ''u''"
  | "quote_char c = u_escape (byte c)"
  | "quote_char c = [c]" "c \<noteq> backslash" "c \<noteq> dquote" "32 \<le> byte c"
proof -
  consider "c = dquote" | "c = backslash" | "c = char_of (8::nat)" | "c = char_of (12::nat)"
    | "c = char_of (10::nat)" | "c = char_of (13::nat)" | "c = char_of (9::nat)"
    | "byte c \<notin> {34, 92, 8, 12, 10, 13, 9}"
    by (metis byte_marks char_of_byte insertE singletonD)
  then show ?thesis
  proof cases
    case 8
    then show ?thesis using that(2,3) assms
      by (cases "byte c < 32 \<or> byte c \<in> {0x3C, 0x3E, 0x26}")
        (auto simp: quote_char_def quote_chunk_def char_eq_byte [of c])
  next
    case 1 then show ?thesis using that(1) [of dquote]
      by (simp add: quote_char_def quote_chunk_def escape_char_def byte_def char_of_bits)
  next
    case 2 then show ?thesis using that(1) [of backslash]
      by (simp add: quote_char_def quote_chunk_def escape_char_def byte_def char_of_bits)
  next
    case 3 then show ?thesis using that(1) [of "CHR ''b''"]
      by (simp add: quote_char_def quote_chunk_def escape_char_def)
  next
    case 4 then show ?thesis using that(1) [of "CHR ''f''"]
      by (simp add: quote_char_def quote_chunk_def escape_char_def)
  next
    case 5 then show ?thesis using that(1) [of "CHR ''n''"]
      by (simp add: quote_char_def quote_chunk_def escape_char_def)
  next
    case 6 then show ?thesis using that(1) [of "CHR ''r''"]
      by (simp add: quote_char_def quote_chunk_def escape_char_def)
  next
    case 7 then show ?thesis using that(1) [of "CHR ''t''"]
      by (simp add: quote_char_def quote_chunk_def escape_char_def)
  qed
qed

lemma scan_quote_char:
  assumes "byte c < 128"
  shows "scan_str (quote_char c @ t) = prepend (quote_char c) (scan_str t)"
  by (rule quote_char_cases [OF assms]) (use assms in \<open>auto simp: scan_u_escape\<close>)

lemma unquote_quote_char:
  assumes "byte c < 128"
  shows "unquote (quote_char c @ t) = c # unquote t"
  by (rule quote_char_cases [OF assms])
    (use assms in \<open>auto simp: unquote_u_escape is_surrogate_def encode_rune_ascii getu4_def\<close>)

lemma json_quote_ascii: "is_ascii s \<Longrightarrow> json_quote s = dquote # concat (map quote_char s) @ [dquote]"
  by (simp add: json_quote_def chunks_ascii quote_char_def [abs_def] comp_def)

lemma scan_quoted: "is_ascii s \<Longrightarrow>
   scan_str (concat (map quote_char s) @ dquote # r) = Some (concat (map quote_char s), r)"
  by (induction s) (auto simp: scan_quote_char)

lemma unquote_quoted: "is_ascii s \<Longrightarrow> unquote (concat (map quote_char s)) = s"
  by (induction s) (auto simp: unquote_quote_char)

text \<open>Literals of integers, as \<open>itoa\<close> prints them.\<close>

definition int_literal :: "string \<Rightarrow> bool" where
  "int_literal n =
    (let ds = (case n of c # t \<Rightarrow> if c = CHR ''-'' then t else n | [] \<Rightarrow> [])
     in ds \<noteq> [] \<and> list_all is_digit ds \<and> (hd ds = CHR ''0'' \<longrightarrow> ds = ''0''))"

text \<open>What may follow a value.\<close>

definition delimited :: "string \<Rightarrow> bool" where
  "delimited r = (r = [] \<or> hd r \<in> {CHR '','', CHR '']'', CHR ''}'', CHR 0x0A})"

lemma delimited_simps [simp]:
  "delimited []" "delimited (CHR '','' # r)" "delimited (CHR '']'' # r)" "delimited (CHR ''}'' # r)"
  "delimited (CHR 0x0A # r)"
  by (simp_all add: delimited_def)

lemma scan_int_literal:
  assumes "ds \<noteq> []" "list_all is_digit ds" "hd ds = CHR ''0'' \<longrightarrow> ds = ''0''" "delimited r"
  shows "scan_int (ds @ r) = Some (ds, r)"
proof -
  have "\<not> is_digit c" if "r = c # r'" for c r'
    using assms(4) that by (auto simp: delimited_def is_digit_def between_def byte_def)
  then have "takeWhile is_digit r = []" "dropWhile is_digit r = r"
    by (cases r; simp)+
  then have "digit_run (ds @ r) = (ds, r)"
    using assms(2) by (simp add: digit_run_def list_all_iff)
  then show ?thesis using assms(1-3) by (cases ds) (auto simp: scan_int_def)
qed

lemma scan_num_literal:
  assumes "int_literal n" "delimited r"
  shows "scan_num (n @ r) = Some (n, r)"
proof -
  have t: "scan_frac r = Some ([], r)" "scan_exp r = Some ([], r)"
    using assms(2) by (cases r; auto simp: delimited_def scan_frac_def scan_exp_def)+
  have "hd ds \<noteq> CHR ''-''" if "ds \<noteq> []" "list_all is_digit ds" for ds
    using that by (cases ds) (auto simp: is_digit_def between_def byte_def)
  moreover obtain sign ds where n: "n = sign @ ds" "sign = [] \<or> sign = ''-''" "ds \<noteq> []"
      "list_all is_digit ds" "hd ds = CHR ''0'' \<longrightarrow> ds = ''0''"
  proof (cases "hd n = CHR ''-''")
    case True
    then show ?thesis using assms(1) that [of "''-''" "tl n"] by (cases n) (simp_all add: int_literal_def Let_def)
  next
    case False
    then show ?thesis using assms(1) that [of "[]" n] by (cases n) (simp_all add: int_literal_def Let_def)
  qed
  ultimately have "hd ds \<noteq> CHR ''-''" by blast
  with n have "(case n @ r of [] \<Rightarrow> [] | c # x \<Rightarrow> if c = CHR ''-'' then [c] else []) = sign"
    by (cases ds) auto
  with n t scan_int_literal [OF n(3-5) assms(2)] show ?thesis
    by (simp add: scan_num_def Let_def)
qed


section \<open>The round trip\<close>

fun json_depth :: "json \<Rightarrow> nat" where
  "json_depth (JArr vs) = Suc (foldr max (map json_depth vs) 0)"
| "json_depth (JObj ms) = Suc (foldr max (map (\<lambda>(k, v). json_depth v) ms) 0)"
| "json_depth v = 0"

text \<open>ASCII strings and integer literals, the values the program itself prints.\<close>

fun json_plain :: "json \<Rightarrow> bool" where
  "json_plain (JNum n) = int_literal n"
| "json_plain (JStr s) = is_ascii s"
| "json_plain (JArr vs) = list_all json_plain vs"
| "json_plain (JObj ms) = list_all (\<lambda>(k, v). is_ascii k \<and> json_plain v) ms"
| "json_plain v = True"

lemma foldr_max_le: "foldr max xs 0 \<le> (b::nat) \<longleftrightarrow> (\<forall>x\<in>set xs. x \<le> b)"
  by (induction xs) auto

lemma skip_ws_mark [simp]:
  "byte c \<noteq> 32 \<Longrightarrow> byte c \<noteq> 9 \<Longrightarrow> byte c \<noteq> 10 \<Longrightarrow> byte c \<noteq> 13 \<Longrightarrow> skip_ws (c # s) = c # s"
  by (simp add: skip_ws_def)

definition parses :: "json \<Rightarrow> bool" where
  "parses v = (\<forall>f d r. 2 * length (json_print v @ r) < f \<longrightarrow> d + json_depth v \<le> max_depth \<longrightarrow> delimited r
     \<longrightarrow> parse_val f d (json_print v @ r) = Some (v, r))"

lemma parse_elems_print:
  assumes "vs \<noteq> []" "\<forall>v\<in>set vs. parses v \<and> d + json_depth v \<le> max_depth"
    "2 * length (join '','' (map json_print vs) @ CHR '']'' # r) + 1 < f"
  shows "parse_elems f d (join '','' (map json_print vs) @ CHR '']'' # r) = Some (vs, r)"
  using assms
proof (induction vs arbitrary: f)
  case (Cons v vs)
  then obtain g where f: "f = Suc g" by (cases f) auto
  show ?case
  proof (cases "vs = []")
    case True
    then have "parse_val g d (json_print v @ CHR '']'' # r) = Some (v, CHR '']'' # r)"
      using Cons.prems f unfolding parses_def by (auto simp del: parse_val.simps)
    with True f show ?thesis by (simp add: byte_def)
  next
    case False
    then obtain w ws where vs: "vs = w # ws" by (cases vs) auto
    let ?t = "join '','' (map json_print vs) @ CHR '']'' # r"
    have p: "join '','' (map json_print (v # vs)) @ CHR '']'' # r = json_print v @ CHR '','' # ?t"
      by (simp add: vs)
    have "parse_val g d (json_print v @ CHR '','' # ?t) = Some (v, CHR '','' # ?t)"
      using Cons.prems f unfolding parses_def p by (auto simp del: parse_val.simps)
    moreover have "parse_elems g d ?t = Some (vs, r)"
      using Cons.IH [OF False, of g] Cons.prems f unfolding p by simp
    ultimately show ?thesis unfolding p f by (simp add: byte_def)
  qed
qed simp


definition print_member :: "string \<times> json \<Rightarrow> string" where
  "print_member m = json_quote (fst m) @ '':'' @ json_print (snd m)"

lemma json_print_JObj: "json_print (JObj ms) = ''{'' @ join '','' (map print_member ms) @ ''}''"
  by (auto simp: print_member_def intro!: arg_cong [where f = "join '',''"])

lemma parse_member_print:
  assumes "is_ascii k" "parses v" "d + json_depth v \<le> max_depth" "delimited r"
    "2 * length (print_member (k, v) @ r) < Suc f"
  shows "parse_members (Suc f) d (print_member (k, v) @ r)
    = (case skip_ws r of [] \<Rightarrow> None
       | e # x \<Rightarrow> if e = CHR ''}'' then Some ([(k, v)], x)
         else if e = CHR '','' then map_option (\<lambda>(ms, y). ((k, v) # ms, y)) (parse_members f d x)
         else None)"
proof -
  have "parse_val f d (json_print v @ r) = Some (v, r)"
    using assms unfolding parses_def print_member_def by (auto simp del: parse_val.simps)
  then show ?thesis using assms(1)
    by (simp add: print_member_def json_quote_ascii scan_quoted unquote_quoted byte_def split: list.split)
qed

lemma parse_members_print:
  assumes "ms \<noteq> []" "\<forall>m\<in>set ms. is_ascii (fst m) \<and> parses (snd m) \<and> d + json_depth (snd m) \<le> max_depth"
    "2 * length (join '','' (map print_member ms) @ CHR ''}'' # r) < f"
  shows "parse_members f d (join '','' (map print_member ms) @ CHR ''}'' # r) = Some (ms, r)"
  using assms
proof (induction ms arbitrary: f)
  case (Cons m ms)
  then obtain g where f: "f = Suc g" by (cases f) auto
  obtain k v where m: "m = (k, v)" by (cases m)
  show ?case
  proof (cases "ms = []")
    case True
    with Cons.prems f m show ?thesis
      using parse_member_print [of k v d "CHR ''}'' # r" g] by (simp add: byte_def)
  next
    case False
    then obtain n ns where ms: "ms = n # ns" by (cases ms) auto
    let ?t = "join '','' (map print_member ms) @ CHR ''}'' # r"
    have p: "join '','' (map print_member (m # ms)) @ CHR ''}'' # r = print_member m @ CHR '','' # ?t"
      by (simp add: ms)
    have "parse_members g d ?t = Some (ms, r)"
      using Cons.IH [OF False, of g] Cons.prems f unfolding p by simp
    moreover have "parse_members (Suc g) d (print_member (k, v) @ CHR '','' # ?t)
        = map_option (\<lambda>(ms, y). ((k, v) # ms, y)) (parse_members g d ?t)"
      using Cons.prems by (subst parse_member_print) (simp_all add: f m p ms byte_def del: parse_members.simps)
    ultimately show ?thesis using p by (simp add: f m del: parse_members.simps)
  qed
qed simp

lemma scan_num_starts: "int_literal n \<Longrightarrow> \<exists>c t. n = c # t \<and> (c = CHR ''-'' \<or> is_digit c)"
  by (cases n) (auto simp: int_literal_def Let_def split: if_splits)

lemma json_print_head:
  "json_plain v \<Longrightarrow> \<exists>c t. json_print v = c # t \<and> byte c \<notin> {32, 9, 10, 13, 93}"
  using scan_num_starts
  by (cases v) (fastforce simp: json_quote_def is_digit_def between_def byte_def)+

lemma parses_JArr:
  assumes "list_all json_plain vs" "\<forall>v\<in>set vs. parses v"
  shows "parses (JArr vs)"
  unfolding parses_def
proof (intro allI impI)
  fix f d r assume f: "2 * length (json_print (JArr vs) @ r) < f" and d: "d + json_depth (JArr vs) \<le> max_depth"
    and r: "delimited r"
  let ?t = "join '','' (map json_print vs) @ CHR '']'' # r"
  have p: "json_print (JArr vs) @ r = CHR ''['' # ?t" by simp
  obtain g where g: "f = Suc g" using f by (cases f) auto
  show "parse_val f d (json_print (JArr vs) @ r) = Some (JArr vs, r)"
  proof (cases vs)
    case Nil
    then show ?thesis using d g by (simp add: byte_def)
  next
    case (Cons v ws)
    then obtain c u where c: "json_print v = c # u" "byte c \<notin> {32, 9, 10, 13, 93}"
      using json_print_head [of v] assms(1) by auto
    have "\<exists>w. ?t = c # w" using c(1) Cons by (cases ws) auto
    then obtain w where w: "?t = c # w" by blast
    have "\<forall>v\<in>set vs. parses v \<and> Suc d + json_depth v \<le> max_depth"
      using assms(2) d foldr_max_le [of "map json_depth vs" "max_depth - Suc d"] by auto
    then have "parse_elems g (Suc d) ?t = Some (vs, r)"
      using f g unfolding p by (intro parse_elems_print) (simp_all add: Cons)
    moreover have "skip_ws ?t = ?t" "\<not> has_prefix ?t '']''"
      unfolding w using c(2) by (auto simp: byte_def)
    ultimately show ?thesis using d unfolding p g by (simp add: byte_def)
  qed
qed

lemma parses_JObj:
  assumes "\<forall>m\<in>set ms. is_ascii (fst m) \<and> parses (snd m)"
  shows "parses (JObj ms)"
  unfolding parses_def
proof (intro allI impI)
  fix f d r assume f: "2 * length (json_print (JObj ms) @ r) < f" and d: "d + json_depth (JObj ms) \<le> max_depth"
    and r: "delimited r"
  let ?t = "join '','' (map print_member ms) @ CHR ''}'' # r"
  have p: "json_print (JObj ms) @ r = CHR ''{'' # ?t" unfolding json_print_JObj by simp
  obtain g where g: "f = Suc g" using f by (cases f) auto
  show "parse_val f d (json_print (JObj ms) @ r) = Some (JObj ms, r)"
  proof (cases ms)
    case Nil
    then show ?thesis using d g by (simp add: byte_def)
  next
    case (Cons m ns)
    have "\<exists>w. ?t = dquote # w" using Cons by (cases ns) (auto simp: print_member_def json_quote_def)
    then obtain w where w: "?t = dquote # w" by blast
    have "\<forall>m\<in>set ms. is_ascii (fst m) \<and> parses (snd m) \<and> Suc d + json_depth (snd m) \<le> max_depth"
      using assms d foldr_max_le [of "map (\<lambda>(k, v). json_depth v) ms" "max_depth - Suc d"] by force
    then have "parse_members g (Suc d) ?t = Some (ms, r)"
      using f g unfolding p by (intro parse_members_print) (simp_all add: Cons)
    moreover have "skip_ws ?t = ?t" "\<not> has_prefix ?t ''}''"
      unfolding w by (auto simp: byte_def)
    ultimately show ?thesis using d unfolding p g by (simp add: byte_def)
  qed
qed

lemma parses_JNum:
  assumes "int_literal n"
  shows "parses (JNum n)"
proof -
  obtain c t where n: "n = c # t" "c = CHR ''-'' \<or> is_digit c" using scan_num_starts [OF assms] by blast
  then have b: "byte c = 45 \<or> 48 \<le> byte c \<and> byte c \<le> 57"
    by (auto simp: is_digit_def between_def byte_def)
  then have c: "c \<noteq> CHR ''{''" "c \<noteq> CHR ''[''" "c \<noteq> dquote" "c \<noteq> CHR ''t''" "c \<noteq> CHR ''f''" "c \<noteq> CHR ''n''"
    by (auto simp: byte_def)
  have "parse_val (Suc f) d (n @ r) = Some (JNum n, r)" if "delimited r" for f d r
  proof -
    have "skip_ws (n @ r) = n @ r" using b unfolding n(1) append_Cons by (intro skip_ws_mark) auto
    then show ?thesis using scan_num_literal [OF assms that] c by (simp add: n(1))
  qed
  then show ?thesis by (auto simp: parses_def elim!: less_natE)
qed

lemma parses_JStr:
  assumes "is_ascii s"
  shows "parses (JStr s)"
proof -
  have "parse_val (Suc f) d (json_quote s @ r) = Some (JStr s, r)" for f d r
    using assms by (simp add: json_quote_ascii scan_quoted unquote_quoted byte_def)
  then show ?thesis by (auto simp: parses_def elim!: less_natE)
qed

lemma parses_word: "parses JNull" "parses (JBool b)"
proof -
  have "parse_val (Suc f) d (json_print v @ r) = Some (v, r)" if "v = JNull \<or> v = JBool b" for f d r v
    using that by (auto simp: byte_def)
  then show "parses JNull" "parses (JBool b)"
    unfolding parses_def by (metis less_natE)+
qed

lemma parses_plain: "json_plain v \<Longrightarrow> parses v"
proof (induction v)
  case (JArr vs)
  then show ?case by (intro parses_JArr) (auto simp: list_all_iff)
next
  case (JObj ms)
  then show ?case by (intro parses_JObj) (force simp: list_all_iff)
qed (simp_all add: parses_word parses_JNum parses_JStr)

lemma json_round_trip:
  assumes "json_plain v" "json_depth v \<le> max_depth"
  shows "json_parse (json_print v) = Some v"
  using parses_plain [OF assms(1), unfolded parses_def, rule_format, where r = "[]" and d = 0] assms(2)
  by (simp add: json_parse_def skip_ws_def del: parse_val.simps)

text \<open>A \<open>Decoder\<close> reads what an \<open>Encoder\<close> wrote, with or without its newline.\<close>

lemma json_decode_print:
  assumes "json_plain v" "json_depth v \<le> max_depth" "delimited r"
  shows "json_decode (json_print v @ r) = Some v"
  using parses_plain [OF assms(1), unfolded parses_def, rule_format, where r = r and d = 0] assms(2,3)
  by (simp add: json_decode_def del: parse_val.simps)

section \<open>Decoding into structs\<close>

text \<open>The members an object or \<open>null\<close> offers to a struct; any other value is a type error.\<close>

definition struct_members :: "json \<Rightarrow> (string \<times> json) list option" where
  "struct_members v = (case v of JObj ms \<Rightarrow> Some ms | JNull \<Rightarrow> Some [] | _ \<Rightarrow> None)"

text \<open>
  One field of a struct: every member whose key folds to the name is stored in turn;
  \<open>None\<close> is a type error, which fails the whole decoding.
\<close>

definition decode_field ::
  "text_env \<Rightarrow> string \<Rightarrow> (json \<Rightarrow> 'a \<Rightarrow> 'a option) \<Rightarrow> 'a \<Rightarrow> (string \<times> json) list \<Rightarrow> 'a option" where
  "decode_field E n upd x0 ms =
    foldl (\<lambda>acc (k, v). if equal_fold E k n then (case acc of None \<Rightarrow> None | Some x \<Rightarrow> upd v x) else acc)
      (Some x0) ms"

definition set_string :: "json \<Rightarrow> string \<Rightarrow> string option" where
  "set_string v x = (case v of JStr s \<Rightarrow> Some s | JNull \<Rightarrow> Some x | _ \<Rightarrow> None)"

definition set_bool :: "json \<Rightarrow> bool \<Rightarrow> bool option" where
  "set_bool v x = (case v of JBool b \<Rightarrow> Some b | JNull \<Rightarrow> Some x | _ \<Rightarrow> None)"

definition set_int :: "json \<Rightarrow> int \<Rightarrow> int option" where
  "set_int v x = (case v of JNum n \<Rightarrow> atoi n | JNull \<Rightarrow> Some x | _ \<Rightarrow> None)"

text \<open>A \<open>json.RawMessage\<close> keeps the value as it is.\<close>

definition set_raw :: "json \<Rightarrow> json option \<Rightarrow> json option option" where
  "set_raw v x = Some (Some v)"

lemmas [go_eval] = skip_ws_def hex_nibble_def prepend_def is_surrogate_def surrogate_pair_def
  escape_char_def getu4_def digit_run_def scan_int_def scan_frac_def scan_exp_def scan_num_def
  max_depth_def json_parse_def json_decode_def nibble_char_def u_escape_def quote_chunk_def
  json_quote_def struct_members_def decode_field_def set_string_def set_bool_def set_int_def set_raw_def

end
