(* ===== verification/Go_Path.thy ===== *)
theory Go_Path
  imports Go_Strings
begin

text \<open>
  \<open>filepath.Clean\<close> and \<open>filepath.Join\<close> on a system whose separator is a slash.
\<close>

definition clean_segment :: "bool \<Rightarrow> string list \<Rightarrow> string \<Rightarrow> string list" where
  "clean_segment rooted stack seg =
    (if seg = [] \<or> seg = ''.'' then stack
     else if seg = ''..''
       then (case stack of [] \<Rightarrow> if rooted then [] else [''..'']
             | w # rest \<Rightarrow> if w = ''..'' then ''..'' # stack else rest)
     else seg # stack)"

definition file_clean :: "string \<Rightarrow> string" where
  "file_clean p =
    (let rooted = has_prefix p ''/'';
         out = (if rooted then ''/'' else []) @
               join ''/'' (rev (foldl (clean_segment rooted) [] (split_on CHR ''/'' p)))
     in if out = [] then ''.'' else out)"

definition file_join :: "string list \<Rightarrow> string" where
  "file_join elems =
    (case dropWhile (\<lambda>e. e = []) elems of [] \<Rightarrow> [] | es \<Rightarrow> file_clean (join ''/'' es))"

lemmas [go_eval] = clean_segment_def file_clean_def file_join_def

end
