(* ===== verification/Adapter.thy ===== *)
theory Adapter
  imports Go_Json Go_Http Go_Path Store
begin

text \<open>
  internal/adapter/adapter.go: the client of the MCP server and the wrappers that run BBOT and
  Nuclei. The HTTP round trips, the commands, the environment variables and the files are fields
  of \<open>adapter_env\<close>; the requests made, the commands run and the assets recorded are the state, so
  that the properties speak of every command that leaves the process. Contexts and timeouts only
  make a round trip or a command fail, which the fields \<open>post\<close> and \<open>exec\<close> allow.
\<close>

section \<open>The client of the MCP server\<close>

record MCPClient =
  ClientURL :: string
  ClientProgram :: string
  APIKey :: string

datatype client_err =
    CreateRequest url_err
  | RequestFailed string
  | HTTPStatus int
  | DecodeResponse
  | MCPError int string
  | UnmarshalResult

record SafeCheckResult =
  SafeURL :: string
  SafeAllowed :: bool
  SafeReason :: string
  SafeBlockedIP :: bool
  SafeDeniedHost :: bool
  SafeDryRun :: bool

text \<open>
  What the process does not decide: the answer to the \<open>n\<close>-th request, the output of the \<open>k\<close>-th
  command, the variables of the environment, the file system and the store.
\<close>

datatype command = Command (command_bin: string) (command_args: "string list") (command_env: "string list")

record adapter_env =
  atext :: text_env
  upper_rune :: "nat \<Rightarrow> nat"
  getenv :: "string \<Rightarrow> string"
  environ :: "string list"
  post :: "nat \<Rightarrow> string \<Rightarrow> header \<Rightarrow> string \<Rightarrow> (string, int \<times> string) result"
  exec :: "nat \<Rightarrow> command \<Rightarrow> string \<times> string option"
  is_dir :: "string \<Rightarrow> bool"
  temp_file :: "(string, string) result"
  read_temp :: "(string, string) result"
  record_err :: "string \<Rightarrow> Asset list \<Rightarrow> string option"

definition NewMCPClientWithAPIKey :: "string \<Rightarrow> string \<Rightarrow> string \<Rightarrow> MCPClient" where
  "NewMCPClientWithAPIKey baseURL programID apiKey =
    \<lparr> ClientURL = trim_right baseURL ''/'', ClientProgram = programID, APIKey = trim_space apiKey \<rparr>"

definition NewMCPClient :: "adapter_env \<Rightarrow> string \<Rightarrow> string \<Rightarrow> MCPClient" where
  "NewMCPClient E baseURL programID =
    NewMCPClientWithAPIKey baseURL programID (getenv E ''SCOPEPILOT_MCP_API_KEY'')"

definition header_set :: "string \<Rightarrow> string \<Rightarrow> header \<Rightarrow> header" where
  "header_set k v h = AList.update (canonical_key k) [v] h"

definition applyHeaders :: "MCPClient \<Rightarrow> header \<Rightarrow> header" where
  "applyHeaders c h0 =
    (let h = header_set ''Content-Type'' ''application/json'' h0
     in if APIKey c \<noteq> [] then header_set ''Authorization'' (''Bearer '' @ APIKey c) h else h)"

text \<open>The fields of an \<open>MCPRequest\<close> in their order; the keys of a map are sorted.\<close>

definition tool_call :: "string \<Rightarrow> (string \<times> json) list \<Rightarrow> json" where
  "tool_call tool args =
    JObj [(''jsonrpc'', JStr ''2.0''), (''method'', JStr ''call_tool''),
          (''params'', JObj [(''arguments'', JObj args), (''name'', JStr tool)]),
          (''id'', JNum ''1'')]"

text \<open>The \<open>Result\<close> and \<open>Error\<close> of an \<open>MCPResponse\<close>; its other fields only have to decode.\<close>

definition set_error :: "text_env \<Rightarrow> json \<Rightarrow> (int \<times> string) option \<Rightarrow> (int \<times> string) option option" where
  "set_error E v x =
    (case v of JNull \<Rightarrow> Some None
     | JObj ms \<Rightarrow>
       (case (decode_field E ''code'' set_int (case x of None \<Rightarrow> 0 | Some (c, _) \<Rightarrow> c) ms,
              decode_field E ''message'' set_string (case x of None \<Rightarrow> [] | Some (_, m) \<Rightarrow> m) ms) of
          (Some c, Some m) \<Rightarrow> Some (Some (c, m)) | _ \<Rightarrow> None)
     | _ \<Rightarrow> None)"

definition MCPResponse :: "text_env \<Rightarrow> json \<Rightarrow> (json option \<times> (int \<times> string) option) option" where
  "MCPResponse E v =
    (case struct_members v of None \<Rightarrow> None
     | Some ms \<Rightarrow>
       (case (decode_field E ''jsonrpc'' set_string [] ms, decode_field E ''id'' set_int 0 ms,
              decode_field E ''result'' set_raw None ms, decode_field E ''error'' (set_error E) None ms) of
          (Some _, Some _, Some r, Some e) \<Rightarrow> Some (r, e) | _ \<Rightarrow> None))"

text \<open>The common part of the two calls: the result value of the response.\<close>

definition call_tool :: "adapter_env \<Rightarrow> MCPClient \<Rightarrow> nat \<Rightarrow> json \<Rightarrow> (client_err, json) result" where
  "call_tool E c n req =
    (case url_parse (ClientURL c @ ''/mcp'') of Inl e \<Rightarrow> Inl (CreateRequest e)
     | Inr _ \<Rightarrow>
       (case post E n (ClientURL c @ ''/mcp'') (applyHeaders c []) (json_print req) of
          Inl e \<Rightarrow> Inl (RequestFailed e)
        | Inr (code, body) \<Rightarrow>
          if code \<noteq> 200 then Inl (HTTPStatus code)
          else (case json_decode body of None \<Rightarrow> Inl DecodeResponse
            | Some v \<Rightarrow>
              (case MCPResponse (atext E) v of None \<Rightarrow> Inl DecodeResponse
               | Some (r, Some (code, m)) \<Rightarrow> Inl (MCPError code m)
               | Some (None, None) \<Rightarrow> Inl UnmarshalResult
               | Some (Some r, None) \<Rightarrow> Inr r))))"

definition decode_check :: "text_env \<Rightarrow> json \<Rightarrow> SafeCheckResult option" where
  "decode_check E v =
    (case struct_members v of None \<Rightarrow> None
     | Some ms \<Rightarrow>
       (case (decode_field E ''url'' set_string [] ms, decode_field E ''allowed'' set_bool False ms,
              decode_field E ''reason'' set_string [] ms, decode_field E ''blocked_ip'' set_bool False ms,
              decode_field E ''denied_host'' set_bool False ms, decode_field E ''dry_run'' set_bool False ms) of
          (Some u, Some a, Some r, Some b, Some d, Some y) \<Rightarrow>
            Some \<lparr> SafeURL = u, SafeAllowed = a, SafeReason = r, SafeBlockedIP = b,
                   SafeDeniedHost = d, SafeDryRun = y \<rparr>
        | _ \<Rightarrow> None))"

definition Client_CheckURL ::
  "adapter_env \<Rightarrow> MCPClient \<Rightarrow> nat \<Rightarrow> string \<Rightarrow> (client_err, SafeCheckResult) result" where
  "Client_CheckURL E c n u =
    (case call_tool E c n (tool_call ''check_url'' [(''url'', JStr u)]) of Inl e \<Rightarrow> Inl e
     | Inr v \<Rightarrow> (case decode_check (atext E) v of None \<Rightarrow> Inl UnmarshalResult | Some r \<Rightarrow> Inr r))"

text \<open>\<open>Results []SafeCheckResult\<close>: an array of objects, \<open>null\<close> leaving the slice empty.\<close>

definition set_checks :: "text_env \<Rightarrow> json \<Rightarrow> SafeCheckResult list \<Rightarrow> SafeCheckResult list option" where
  "set_checks E v x =
    (case v of JNull \<Rightarrow> Some []
     | JArr vs \<Rightarrow> those (map (decode_check E) vs)
     | _ \<Rightarrow> None)"

definition Client_RunSafeCheck ::
  "adapter_env \<Rightarrow> MCPClient \<Rightarrow> nat \<Rightarrow> string list \<Rightarrow> (client_err, SafeCheckResult list) result" where
  "Client_RunSafeCheck E c n urls =
    (case call_tool E c n (tool_call ''run_safe_check'' [(''urls'', JArr (map JStr urls))]) of Inl e \<Rightarrow> Inl e
     | Inr v \<Rightarrow>
       (case struct_members v of None \<Rightarrow> Inl UnmarshalResult
        | Some ms \<Rightarrow> (case decode_field (atext E) ''results'' (set_checks (atext E)) [] ms of
            None \<Rightarrow> Inl UnmarshalResult | Some rs \<Rightarrow> Inr rs)))"

text \<open>One host of the loop, with the number of requests so far.\<close>

type_synonym partition_state = "nat \<times> string list \<times> string list"

definition filter_host :: "adapter_env \<Rightarrow> MCPClient \<Rightarrow> partition_state \<Rightarrow> string \<Rightarrow> partition_state" where
  "filter_host E c st h =
    (let (n, inScope, blocked) = st in
     case Client_CheckURL E c n (''https://'' @ h) of
       Inl _ \<Rightarrow> (Suc n, inScope, blocked @ [h])
     | Inr r \<Rightarrow> if SafeAllowed r then (Suc n, inScope @ [h], blocked)
               else (Suc n, inScope, blocked @ [h]))"

definition FilterInScope :: "adapter_env \<Rightarrow> MCPClient \<Rightarrow> nat \<Rightarrow> string list \<Rightarrow> partition_state" where
  "FilterInScope E c n hosts = foldl (filter_host E c) (n, [], []) hosts"

section \<open>Arguments and environment of the commands\<close>

datatype adapter_err =
    NoClient
  | ProxyRequired
  | ProxyInvalid url_err
  | ProxyScheme
  | ProxyHost
  | ProxyCredentials
  | VPNNotEnforced string
  | TemplatesRequired
  | TempFile string
  | BadSeverity string

definition validateProxyURL :: "string \<Rightarrow> adapter_err option" where
  "validateProxyURL raw =
    (case url_parse raw of Inl e \<Rightarrow> Some (ProxyInvalid e)
     | Inr u \<Rightarrow>
       if scheme u \<noteq> ''http'' \<and> scheme u \<noteq> ''https'' then Some ProxyScheme
       else if host u = [] then Some ProxyHost
       else if user u \<noteq> None then Some ProxyCredentials else None)"

definition DiscoverNucleiTemplates :: "adapter_env \<Rightarrow> string" where
  "DiscoverNucleiTemplates E =
    (case find (\<lambda>p. p \<noteq> [] \<and> is_dir E p)
       [getenv E ''NUCLEI_TEMPLATES'', file_join [getenv E ''HOME'', ''nuclei-templates''],
        file_join [getenv E ''HOME'', ''Library'', ''Application Support'', ''nuclei-templates''],
        ''/home/nuclei-templates''] of
       Some p \<Rightarrow> p | None \<Rightarrow> [])"

definition to_upper :: "(nat \<Rightarrow> nat) \<Rightarrow> string \<Rightarrow> string" where
  "to_upper up s =
    (if is_ascii s then map upper_char s
     else concat (map (\<lambda>r. encode_rune (if r < 128 then byte (upper_char (char_of r)) else up r)) (runes s)))"

definition proxy_keys :: "string list" where
  "proxy_keys = [''HTTP_PROXY'', ''HTTPS_PROXY'', ''ALL_PROXY'', ''NO_PROXY'']"

definition inherited :: "adapter_env \<Rightarrow> string list" where
  "inherited E = filter (\<lambda>entry. case cut entry (CHR ''='') of
     (key, _, ok) \<Rightarrow> ok \<and> to_upper (upper_rune E) key \<notin> set proxy_keys) (environ E)"

definition proxyEnvironment :: "adapter_env \<Rightarrow> string \<Rightarrow> string list" where
  "proxyEnvironment E proxyURL =
    inherited E @
    [''HTTP_PROXY='' @ proxyURL, ''HTTPS_PROXY='' @ proxyURL, ''ALL_PROXY='' @ proxyURL, ''NO_PROXY='',
     ''http_proxy='' @ proxyURL, ''https_proxy='' @ proxyURL, ''all_proxy='' @ proxyURL, ''no_proxy='']"

definition bbotArgs :: "string list \<Rightarrow> string \<Rightarrow> bool \<Rightarrow> int \<Rightarrow> string list" where
  "bbotArgs targets proxyURL noProxy version =
    [''-t'', join '','' targets, ''-y''] @
    (if version < 2 \<and> version > 0
     then [''-o'', ''json'', ''--passive-only'', ''--no-dns'', ''--no-www'', ''--force'']
     else [''-o'', ''-'', ''-rf'', ''passive'', ''-om'', ''json'']) @
    (if \<not> noProxy \<and> proxyURL \<noteq> [] then [''--proxy'', proxyURL] else [])"

definition nucleiArgs :: "string \<Rightarrow> string list \<Rightarrow> string \<Rightarrow> int \<Rightarrow> string list" where
  "nucleiArgs templateDir targets outputPath version =
    [''-t'', templateDir, (if version < 3 \<and> version > 0 then ''-json'' else ''-jsonl''),
     ''-o'', outputPath, ''--no-httpx'', ''--bulk-size'', ''5'', ''--concurrency'', ''2'',
     ''-exclude-tags'', ''fuzz,dos,headless,code''] @
    concat (map (\<lambda>t. [''-u'', t]) targets)"

text \<open>A match of \<open>(\d+)\.\d+\.\d+\<close> at the start of a string, and the leftmost one.\<close>

definition dotted_digits :: "string \<Rightarrow> string option" where
  "dotted_digits s =
    (case s of c # t \<Rightarrow> if c = CHR ''.'' \<and> takeWhile is_digit t \<noteq> [] then Some (dropWhile is_digit t) else None
     | [] \<Rightarrow> None)"

definition version_at :: "string \<Rightarrow> string option" where
  "version_at s =
    (let ds = takeWhile is_digit s in
     if ds = [] then None
     else (case dotted_digits (dropWhile is_digit s) of None \<Rightarrow> None
       | Some t \<Rightarrow> (case dotted_digits t of None \<Rightarrow> None | Some _ \<Rightarrow> Some ds)))"

fun find_version :: "string \<Rightarrow> string option" where
  "find_version [] = None"
| "find_version (c # s) = (case version_at (c # s) of Some v \<Rightarrow> Some v | None \<Rightarrow> find_version s)"

definition parseMajorVersion :: "string \<Rightarrow> int" where
  "parseMajorVersion out =
    (case find_version out of None \<Rightarrow> 0
     | Some ds \<Rightarrow> (case atoi ds of None \<Rightarrow> 0 | Some n \<Rightarrow> n))"

section \<open>Output of the tools\<close>

definition bbot_host :: "text_env \<Rightarrow> string \<Rightarrow> string option" where
  "bbot_host E line =
    (case json_parse line of None \<Rightarrow> None
     | Some v \<Rightarrow>
       (case struct_members v of None \<Rightarrow> None
        | Some ms \<Rightarrow>
          (case (decode_field E ''host'' set_string [] ms, decode_field E ''type'' set_string [] ms) of
             (Some h, Some _) \<Rightarrow> if h \<noteq> [] then Some h else None | _ \<Rightarrow> None)))"

definition output_lines :: "string \<Rightarrow> string list" where
  "output_lines output =
    filter (\<lambda>l. l \<noteq> []) (map trim_space (split_on (char_of (10::nat)) output))"

definition parseBBOTOutput :: "text_env \<Rightarrow> string \<Rightarrow> string list" where
  "parseBBOTOutput E output = List.map_filter (bbot_host E) (output_lines output)"

definition nuclei_finding :: "text_env \<Rightarrow> string \<Rightarrow> string option" where
  "nuclei_finding E line =
    (case json_parse line of None \<Rightarrow> None
     | Some v \<Rightarrow>
       (case struct_members v of None \<Rightarrow> None
        | Some ms \<Rightarrow>
          (case (decode_field E ''template-id'' set_string [] ms, decode_field E ''name'' set_string [] ms,
                 decode_field E ''severity'' set_string [] ms, decode_field E ''host'' set_string [] ms) of
             (Some t, Some n, Some sev, Some h) \<Rightarrow>
               if t \<noteq> [] then Some (''['' @ sev @ ''] '' @ h @ '' - '' @ n @ '' ('' @ t @ '')'') else None
           | _ \<Rightarrow> None)))"

definition parseNucleiOutput :: "text_env \<Rightarrow> string \<Rightarrow> string list" where
  "parseNucleiOutput E output = List.map_filter (nuclei_finding E) (output_lines output)"

section \<open>Running a tool\<close>

text \<open>The requests to the server so far, the commands that ran, the assets handed to the store.\<close>

record adapter_state =
  requests :: nat
  commands :: "command list"
  recorded :: "(string \<times> Asset list) list"

definition filter_scope ::
  "adapter_env \<Rightarrow> MCPClient \<Rightarrow> string list \<Rightarrow> adapter_state \<Rightarrow> string list \<times> string list \<times> adapter_state" where
  "filter_scope E c hosts s =
    (let (n, inScope, blocked) = FilterInScope E c (requests s) hosts
     in (inScope, blocked, s\<lparr> requests := n \<rparr>))"

definition run_command :: "adapter_env \<Rightarrow> command \<Rightarrow> adapter_state \<Rightarrow> string \<times> string option \<times> adapter_state" where
  "run_command E cmd s =
    (let (out, err) = exec E (length (commands s)) cmd
     in (out, err, s\<lparr> commands := commands s @ [cmd] \<rparr>))"

text \<open>\<open>detectBBOTVersion\<close> and \<open>detectNucleiVersion\<close> are the same function.\<close>

definition version_probe :: "adapter_env \<Rightarrow> string \<Rightarrow> command" where
  "version_probe E bin = Command bin [''--version''] (environ E)"

definition detectBBOTVersion :: "adapter_env \<Rightarrow> string \<Rightarrow> adapter_state \<Rightarrow> int \<times> adapter_state" where
  "detectBBOTVersion E bin s =
    (case run_command E (version_probe E bin) s of
       (out, Some _, s') \<Rightarrow> (0, s') | (out, None, s') \<Rightarrow> (parseMajorVersion out, s'))"

definition detectNucleiVersion :: "adapter_env \<Rightarrow> string \<Rightarrow> adapter_state \<Rightarrow> int \<times> adapter_state" where
  "detectNucleiVersion = detectBBOTVersion"

record BBOTConfig =
  BBinaryPath :: string
  BMCPClient :: "MCPClient option"
  BDryRun :: bool
  BProxyURL :: string
  BNoProxy :: bool
  BVPNContainer :: string
  BProgramID :: string
  BStore :: bool

record NucleiConfig =
  NBinaryPath :: string
  NMCPClient :: "MCPClient option"
  NDryRun :: bool
  NTemplateDir :: string
  NSeverities :: "string list"
  NProxyURL :: string
  NVPNContainer :: string

datatype tool_err = ToolExit string | StoreErr string | ReadOutput string

record ToolResult =
  TargetsScanned :: nat
  TargetsBlocked :: nat
  Found :: "string list"
  RawOutput :: string
  RDryRun :: bool
  RNoProxy :: bool
  ToolErrors :: "tool_err list"

definition empty_result :: "bool \<Rightarrow> ToolResult" where
  "empty_result dry = \<lparr> TargetsScanned = 0, TargetsBlocked = 0, Found = [], RawOutput = [],
     RDryRun = dry, RNoProxy = False, ToolErrors = [] \<rparr>"

text \<open>The checks between the scope filter and the first command.\<close>

definition bbot_guard :: "BBOTConfig \<Rightarrow> adapter_err option" where
  "bbot_guard cfg =
    (case (if BNoProxy cfg then None
           else if BProxyURL cfg = [] then Some ProxyRequired else validateProxyURL (BProxyURL cfg)) of
       Some e \<Rightarrow> Some e
     | None \<Rightarrow> if BVPNContainer cfg \<noteq> [] then Some (VPNNotEnforced (BVPNContainer cfg)) else None)"

text \<open>The filter after a run without proxy asks for each discovered host on its own.\<close>

fun filter_found ::
  "adapter_env \<Rightarrow> MCPClient \<Rightarrow> string list \<Rightarrow> adapter_state \<Rightarrow> string list \<times> adapter_state" where
  "filter_found E c [] s = ([], s)"
| "filter_found E c (h # hs) s =
    (let (ok, _, s1) = filter_scope E c [h] s; (rest, s2) = filter_found E c hs s1
     in (if ok \<noteq> [] then h # rest else rest, s2))"

definition bbot_asset :: "string \<Rightarrow> Asset" where
  "bbot_asset h = \<lparr> AHost = h, ASource = ''bbot'', FirstSeen = None, LastSeen = None, AInScope = True, Tech = [] \<rparr>"

definition record_found :: "adapter_env \<Rightarrow> BBOTConfig \<Rightarrow> ToolResult \<Rightarrow> adapter_state \<Rightarrow> ToolResult \<times> adapter_state" where
  "record_found E cfg res s =
    (if BStore cfg \<and> BProgramID cfg \<noteq> [] \<and> Found res \<noteq> []
     then (let assets = map bbot_asset (Found res); s' = s\<lparr> recorded := recorded s @ [(BProgramID cfg, assets)] \<rparr>
           in case record_err E (BProgramID cfg) assets of
                Some e \<Rightarrow> (res\<lparr> ToolErrors := ToolErrors res @ [StoreErr e] \<rparr>, s') | None \<Rightarrow> (res, s'))
     else (res, s))"

definition bbot_command :: "adapter_env \<Rightarrow> BBOTConfig \<Rightarrow> string list \<Rightarrow> int \<Rightarrow> command" where
  "bbot_command E cfg inScope version =
    Command (BBinaryPath cfg) (bbotArgs inScope (BProxyURL cfg) (BNoProxy cfg) version)
      (if BNoProxy cfg then environ E else proxyEnvironment E (BProxyURL cfg))"

text \<open>Step 2 of \<open>RunBBOT\<close>, for a non-empty list of targets in scope.\<close>

definition bbot_scan ::
  "adapter_env \<Rightarrow> BBOTConfig \<Rightarrow> MCPClient \<Rightarrow> string list \<Rightarrow> ToolResult \<Rightarrow> adapter_state \<Rightarrow> ToolResult \<times> adapter_state" where
  "bbot_scan E cfg c inScope res0 s0 =
    (let (version, s1) = detectBBOTVersion E (BBinaryPath cfg) s0;
         (output, err, s2) = run_command E (bbot_command E cfg inScope version) s1;
         discovered = parseBBOTOutput (atext E) output;
         (found, s3) = (if BNoProxy cfg then filter_found E c discovered s2 else (discovered, s2))
     in record_found E cfg
          (res0\<lparr> TargetsScanned := length inScope, RawOutput := output, Found := found,
                 ToolErrors := (case err of None \<Rightarrow> [] | Some e \<Rightarrow> [ToolExit e]) \<rparr>) s3)"

definition RunBBOT ::
  "adapter_env \<Rightarrow> BBOTConfig \<Rightarrow> string list \<Rightarrow> adapter_state \<Rightarrow> (adapter_err, ToolResult) result \<times> adapter_state" where
  "RunBBOT E cfg targets s0 =
    (case BMCPClient cfg of None \<Rightarrow> (Inl NoClient, s0)
     | Some c \<Rightarrow>
       (let (inScope, blocked, s1) = filter_scope E c targets s0;
            res = (empty_result (BDryRun cfg))\<lparr> TargetsBlocked := length blocked \<rparr>
        in if BDryRun cfg then (Inr (res\<lparr> TargetsScanned := length inScope \<rparr>), s1)
           else if inScope = [] then (Inr res, s1)
           else (case bbot_guard cfg of Some e \<Rightarrow> (Inl e, s1)
             | None \<Rightarrow> map_prod Inr id (bbot_scan E cfg c inScope (res\<lparr> RNoProxy := BNoProxy cfg \<rparr>) s1))))"

definition nuclei_guard :: "NucleiConfig \<Rightarrow> adapter_err option" where
  "nuclei_guard cfg =
    (if trim_space (NTemplateDir cfg) = [] then Some TemplatesRequired
     else if NProxyURL cfg = [] then Some ProxyRequired
     else (case validateProxyURL (NProxyURL cfg) of Some e \<Rightarrow> Some e
       | None \<Rightarrow> if NVPNContainer cfg \<noteq> [] then Some (VPNNotEnforced (NVPNContainer cfg)) else None))"

definition severities_of :: "NucleiConfig \<Rightarrow> string list" where
  "severities_of cfg = (if NSeverities cfg = [] then [''info'', ''low''] else NSeverities cfg)"

definition nuclei_severities :: "string list" where
  "nuclei_severities = [''info'', ''low'', ''medium'', ''high'', ''critical'']"

definition nuclei_command :: "adapter_env \<Rightarrow> NucleiConfig \<Rightarrow> string \<Rightarrow> string list \<Rightarrow> int \<Rightarrow> command" where
  "nuclei_command E cfg tmpPath inScope version =
    Command (NBinaryPath cfg)
      (nucleiArgs (NTemplateDir cfg) inScope tmpPath version
        @ [''-severity'', join '','' (severities_of cfg)] @ [''-proxy'', NProxyURL cfg])
      (proxyEnvironment E (NProxyURL cfg))"

definition nuclei_scan ::
  "adapter_env \<Rightarrow> NucleiConfig \<Rightarrow> string list \<Rightarrow> ToolResult \<Rightarrow> adapter_state
    \<Rightarrow> (adapter_err, ToolResult) result \<times> adapter_state" where
  "nuclei_scan E cfg inScope res0 s0 =
    (case temp_file E of Inl e \<Rightarrow> (Inl (TempFile e), s0)
     | Inr tmpPath \<Rightarrow>
       (let (version, s1) = detectNucleiVersion E (NBinaryPath cfg) s0 in
        case find (\<lambda>sev. sev \<notin> set nuclei_severities) (severities_of cfg) of
          Some sev \<Rightarrow> (Inl (BadSeverity sev), s1)
        | None \<Rightarrow>
          (let (output, err, s2) = run_command E (nuclei_command E cfg tmpPath inScope version) s1;
               res = res0\<lparr> TargetsScanned := length inScope, RawOutput := output,
                 ToolErrors := (case err of None \<Rightarrow> [] | Some e \<Rightarrow> [ToolExit e]) \<rparr>
           in case read_temp E of
                Inr data \<Rightarrow> (Inr (res\<lparr> Found := parseNucleiOutput (atext E) data \<rparr>), s2)
              | Inl e \<Rightarrow> (Inr (res\<lparr> ToolErrors := ToolErrors res @ [ReadOutput e] \<rparr>), s2))))"

definition RunNuclei ::
  "adapter_env \<Rightarrow> NucleiConfig \<Rightarrow> string list \<Rightarrow> adapter_state \<Rightarrow> (adapter_err, ToolResult) result \<times> adapter_state" where
  "RunNuclei E cfg targets s0 =
    (case NMCPClient cfg of None \<Rightarrow> (Inl NoClient, s0)
     | Some c \<Rightarrow>
       (let (inScope, blocked, s1) = filter_scope E c targets s0;
            res = (empty_result (NDryRun cfg))\<lparr> TargetsBlocked := length blocked \<rparr>
        in if NDryRun cfg then (Inr (res\<lparr> TargetsScanned := length inScope \<rparr>), s1)
           else if inScope = [] then (Inr res, s1)
           else (case nuclei_guard cfg of Some e \<Rightarrow> (Inl e, s1)
             | None \<Rightarrow> nuclei_scan E cfg inScope res s1)))"

section \<open>The scope filter\<close>

text \<open>What the server answers to the \<open>n\<close>-th request, when that asks for the host.\<close>

definition server_allows :: "adapter_env \<Rightarrow> MCPClient \<Rightarrow> nat \<Rightarrow> string \<Rightarrow> bool" where
  "server_allows E c n h =
    (case Client_CheckURL E c n (''https://'' @ h) of Inl _ \<Rightarrow> False | Inr r \<Rightarrow> SafeAllowed r)"

definition allowed_hosts :: "adapter_env \<Rightarrow> MCPClient \<Rightarrow> nat \<Rightarrow> string list \<Rightarrow> string list" where
  "allowed_hosts E c n hosts = map snd (filter (\<lambda>(i, h). server_allows E c i h) (List.enumerate n hosts))"

lemma filter_host_step:
  "filter_host E c (n, a, b) h =
    (Suc n, if server_allows E c n h then a @ [h] else a, if server_allows E c n h then b else b @ [h])"
  by (simp add: filter_host_def server_allows_def split: sum.split)

lemma filter_hosts_from:
  "foldl (filter_host E c) (n, a, b) hosts =
    (n + length hosts, a @ allowed_hosts E c n hosts,
     b @ map snd (filter (\<lambda>(i, h). \<not> server_allows E c i h) (List.enumerate n hosts)))"
  by (induction hosts arbitrary: n a b) (simp_all add: filter_host_step allowed_hosts_def)

lemma FilterInScope_eq:
  "FilterInScope E c n hosts =
    (n + length hosts, allowed_hosts E c n hosts,
     map snd (filter (\<lambda>(i, h). \<not> server_allows E c i h) (List.enumerate n hosts)))"
  by (simp add: FilterInScope_def filter_hosts_from)

lemma filter_scope_eq:
  "filter_scope E c hosts s =
    (allowed_hosts E c (requests s) hosts,
     map snd (filter (\<lambda>(i, h). \<not> server_allows E c i h) (List.enumerate (requests s) hosts)),
     s\<lparr> requests := requests s + length hosts \<rparr>)"
  by (simp add: filter_scope_def FilterInScope_eq)

lemma allowed_hosts_answer:
  assumes "h \<in> set (allowed_hosts E c n hosts)"
  shows "\<exists>i<length hosts. hosts ! i = h \<and> server_allows E c (n + i) h"
  using assms unfolding allowed_hosts_def
  by (auto simp: in_set_enumerate_eq) (metis add_diff_cancel_left' diff_less_mono le_add_diff_inverse less_diff_conv2 add.commute)

lemma allowed_hosts_sub: "set (allowed_hosts E c n hosts) \<subseteq> set hosts"
  using allowed_hosts_answer [of _ E c n hosts] by (metis nth_mem subsetI)

lemma mset_filter_snd:
  "mset (map snd (filter P xs)) + mset (map snd (filter (\<lambda>x. \<not> P x) xs)) = mset (map snd xs)"
  by (induction xs) auto

lemma filter_partitions:
  assumes "filter_scope E c hosts s = (inScope, blocked, s')"
  shows "mset inScope + mset blocked = mset hosts" "commands s' = commands s" "recorded s' = recorded s"
  using assms mset_filter_snd [of "\<lambda>(i, h). server_allows E c i h" "List.enumerate (requests s) hosts"]
  by (auto simp: filter_scope_eq allowed_hosts_def case_prod_unfold)


lemma filter_scope_obtain:
  obtains blocked where "filter_scope E c hosts s =
      (allowed_hosts E c (requests s) hosts, blocked, s\<lparr> requests := requests s + length hosts \<rparr>)"
    "length (allowed_hosts E c (requests s) hosts) + length blocked = length hosts"
proof -
  obtain blocked where f: "filter_scope E c hosts s =
      (allowed_hosts E c (requests s) hosts, blocked, s\<lparr> requests := requests s + length hosts \<rparr>)"
    by (simp add: filter_scope_eq)
  with arg_cong [OF filter_partitions(1) [OF f], of size] that show ?thesis by simp
qed

section \<open>The environment of the commands\<close>

lemma cut_at [gostr]: "c \<notin> set k \<Longrightarrow> cut (k @ c # v) c = (k, v, True)"
proof -
  have "c \<notin> set k \<Longrightarrow> index_byte (k @ c # v) c = Some (length k)" for k by (induction k) auto
  then show "c \<notin> set k \<Longrightarrow> ?thesis" by (simp add: cut_def)
qed

definition proxy_var :: "adapter_env \<Rightarrow> string \<Rightarrow> bool" where
  "proxy_var E entry = (to_upper (upper_rune E) (fst (cut entry (CHR ''=''))) \<in> set proxy_keys)"

lemma proxy_var_at:
  "CHR ''='' \<notin> set k \<Longrightarrow> is_ascii k \<Longrightarrow> map upper_char k \<in> set proxy_keys \<Longrightarrow> proxy_var E (k @ ''='' @ p)"
  by (simp add: proxy_var_def cut_at to_upper_def)

lemma proxy_names:
  "list_all (\<lambda>k. CHR ''='' \<notin> set k \<and> is_ascii k \<and> map upper_char k \<in> set proxy_keys)
    [''HTTP_PROXY'', ''HTTPS_PROXY'', ''ALL_PROXY'', ''NO_PROXY'',
     ''http_proxy'', ''https_proxy'', ''all_proxy'', ''no_proxy'']"
  by code_simp

lemma proxy_settings:
  "proxy_var E (''HTTP_PROXY='' @ p)" "proxy_var E (''HTTPS_PROXY='' @ p)" "proxy_var E (''ALL_PROXY='' @ p)"
  "proxy_var E (''NO_PROXY='' @ p)" "proxy_var E (''http_proxy='' @ p)" "proxy_var E (''https_proxy='' @ p)"
  "proxy_var E (''all_proxy='' @ p)" "proxy_var E (''no_proxy='' @ p)"
  using proxy_names proxy_var_at [of "''HTTP_PROXY''" E p] proxy_var_at [of "''HTTPS_PROXY''" E p]
    proxy_var_at [of "''ALL_PROXY''" E p] proxy_var_at [of "''NO_PROXY''" E p]
    proxy_var_at [of "''http_proxy''" E p] proxy_var_at [of "''https_proxy''" E p]
    proxy_var_at [of "''all_proxy''" E p] proxy_var_at [of "''no_proxy''" E p]
  by simp_all

lemma inherited_free: "entry \<in> set (inherited E) \<Longrightarrow> \<not> proxy_var E entry"
  by (auto simp: inherited_def proxy_var_def split: prod.splits)

lemma proxy_entries:
  "filter (proxy_var E) (proxyEnvironment E p) =
    [''HTTP_PROXY='' @ p, ''HTTPS_PROXY='' @ p, ''ALL_PROXY='' @ p, ''NO_PROXY='',
     ''http_proxy='' @ p, ''https_proxy='' @ p, ''all_proxy='' @ p, ''no_proxy='']"
  using proxy_settings [of E p] proxy_settings [of E "[]"] inherited_free [of _ E]
  by (simp add: proxyEnvironment_def filter_empty_conv)

lemma other_entries:
  "filter (\<lambda>x. \<not> proxy_var E x) (proxyEnvironment E p) =
    filter (\<lambda>x. snd (snd (cut x (CHR ''=''))) \<and> \<not> proxy_var E x) (environ E)"
  using proxy_settings [of E p] proxy_settings [of E "[]"]
  by (simp add: proxyEnvironment_def inherited_def proxy_var_def case_prod_unfold)


section \<open>The commands that run\<close>

lemma run_command_eq:
  "run_command E cmd s = (fst (exec E (length (commands s)) cmd), snd (exec E (length (commands s)) cmd),
    s\<lparr> commands := commands s @ [cmd] \<rparr>)"
  by (simp add: run_command_def case_prod_unfold Let_def)

lemma detectBBOTVersion_eq:
  "\<exists>v. detectBBOTVersion E bin s = (v, s\<lparr> commands := commands s @ [version_probe E bin] \<rparr>)"
  by (simp add: detectBBOTVersion_def run_command_eq split: option.split)

lemma filter_found_eq:
  "filter_found E c hs s = (allowed_hosts E c (requests s) hs, s\<lparr> requests := requests s + length hs \<rparr>)"
proof (induction hs arbitrary: s)
  case (Cons h hs)
  then show ?case by (simp add: filter_scope_eq allowed_hosts_def)
qed (simp add: allowed_hosts_def)

lemma record_found_state:
  "record_found E cfg res s = (res', s') \<Longrightarrow>
    commands s' = commands s \<and> requests s' = requests s \<and> Found res' = Found res \<and>
    TargetsScanned res' = TargetsScanned res \<and> TargetsBlocked res' = TargetsBlocked res \<and>
    RawOutput res' = RawOutput res \<and>
    recorded s' = recorded s @
      (if BStore cfg \<and> BProgramID cfg \<noteq> [] \<and> Found res \<noteq> []
       then [(BProgramID cfg, map bbot_asset (Found res))] else [])"
  by (auto simp: record_found_def Let_def split: if_splits option.splits)

lemma bbot_scan_state:
  assumes "bbot_scan E cfg c inScope res0 s0 = (res, s)"
  shows "\<exists>v out err.
    commands s = commands s0 @ [version_probe E (BBinaryPath cfg), bbot_command E cfg inScope v] \<and>
    exec E (Suc (length (commands s0))) (bbot_command E cfg inScope v) = (out, err) \<and>
    TargetsScanned res = length inScope \<and> TargetsBlocked res = TargetsBlocked res0 \<and> RawOutput res = out \<and>
    Found res = (if BNoProxy cfg then allowed_hosts E c (requests s0) (parseBBOTOutput (atext E) out)
                 else parseBBOTOutput (atext E) out) \<and>
    recorded s = recorded s0 @
      (if BStore cfg \<and> BProgramID cfg \<noteq> [] \<and> Found res \<noteq> []
       then [(BProgramID cfg, map bbot_asset (Found res))] else [])"
proof -
  obtain v where v: "detectBBOTVersion E (BBinaryPath cfg) s0 =
      (v, s0\<lparr> commands := commands s0 @ [version_probe E (BBinaryPath cfg)] \<rparr>)"
    using detectBBOTVersion_eq by blast
  obtain out err where x: "exec E (Suc (length (commands s0))) (bbot_command E cfg inScope v) = (out, err)"
    by fastforce
  let ?found = "if BNoProxy cfg then allowed_hosts E c (requests s0) (parseBBOTOutput (atext E) out)
    else parseBBOTOutput (atext E) out"
  obtain res1 s1 where r: "record_found E cfg res1 s1 = (res, s)"
    and "Found res1 = ?found" "TargetsScanned res1 = length inScope" "TargetsBlocked res1 = TargetsBlocked res0"
      "RawOutput res1 = out" "recorded s1 = recorded s0"
      "commands s1 = commands s0 @ [version_probe E (BBinaryPath cfg), bbot_command E cfg inScope v]"
    using assms v x by (cases "BNoProxy cfg") (fastforce simp: bbot_scan_def Let_def run_command_eq filter_found_eq)+
  with record_found_state [OF r] x show ?thesis by (intro exI [of _ v] exI [of _ out] exI [of _ err]) simp
qed

lemma RunBBOT_cases:
  assumes "RunBBOT E cfg targets s0 = (r, s)"
  obtains (no_client) "BMCPClient cfg = None" "r = Inl NoClient" "s = s0"
  | (no_scan) c res where "BMCPClient cfg = Some c" "r = Inr res" "s = s0\<lparr> requests := requests s0 + length targets \<rparr>"
      "BDryRun cfg \<or> allowed_hosts E c (requests s0) targets = []"
      "TargetsScanned res + TargetsBlocked res = length targets" "Found res = []"
  | (refused) c e where "BMCPClient cfg = Some c" "bbot_guard cfg = Some e" "r = Inl e"
      "s = s0\<lparr> requests := requests s0 + length targets \<rparr>"
  | (scan) c res0 res where "BMCPClient cfg = Some c" "r = Inr res" "\<not> BDryRun cfg" "bbot_guard cfg = None"
      "allowed_hosts E c (requests s0) targets \<noteq> []"
      "length (allowed_hosts E c (requests s0) targets) + TargetsBlocked res0 = length targets"
      "bbot_scan E cfg c (allowed_hosts E c (requests s0) targets) res0
        (s0\<lparr> requests := requests s0 + length targets \<rparr>) = (res, s)"
proof (cases "BMCPClient cfg")
  case (Some c)
  let ?in = "allowed_hosts E c (requests s0) targets"
  obtain blocked where f: "filter_scope E c targets s0 =
      (?in, blocked, s0\<lparr> requests := requests s0 + length targets \<rparr>)"
    and n: "length ?in + length blocked = length targets" by (rule filter_scope_obtain)
  let ?res = "(empty_result (BDryRun cfg))\<lparr> TargetsBlocked := length blocked \<rparr>"
  let ?s = "s0\<lparr> requests := requests s0 + length targets \<rparr>"
  have run: "RunBBOT E cfg targets s0 =
      (if BDryRun cfg then (Inr (?res\<lparr> TargetsScanned := length ?in \<rparr>), ?s)
       else if ?in = [] then (Inr ?res, ?s)
       else (case bbot_guard cfg of Some e \<Rightarrow> (Inl e, ?s)
         | None \<Rightarrow> map_prod Inr id (bbot_scan E cfg c ?in (?res\<lparr> RNoProxy := BNoProxy cfg \<rparr>) ?s)))"
    by (cases "BDryRun cfg") (simp_all add: RunBBOT_def Some f split: option.split)
  consider "BDryRun cfg" | "\<not> BDryRun cfg" "?in = []" | e where "\<not> BDryRun cfg" "?in \<noteq> []" "bbot_guard cfg = Some e"
    | "\<not> BDryRun cfg" "?in \<noteq> []" "bbot_guard cfg = None" by blast
  then show ?thesis
  proof cases
    case 4
    obtain res s' where b: "bbot_scan E cfg c ?in (?res\<lparr> RNoProxy := BNoProxy cfg \<rparr>) ?s = (res, s')" by fastforce
    with 4 run assms have "r = Inr res" "s = s'" by auto
    with b 4 show ?thesis by (intro scan [OF Some, of res "?res\<lparr> RNoProxy := BNoProxy cfg \<rparr>"]) (simp_all add: n)
  qed (use run assms n in \<open>auto simp: empty_result_def intro: no_scan [OF Some] refused [OF Some]\<close>)
qed (use assms that(1) in \<open>simp add: RunBBOT_def\<close>)


lemma nuclei_scan_cases:
  assumes "nuclei_scan E cfg inScope res0 s0 = (r, s)"
  obtains (no_scan) "commands s \<in> {commands s0, commands s0 @ [version_probe E (NBinaryPath cfg)]}"
      "requests s = requests s0" "recorded s = recorded s0" "is_err r"
      "is_err (temp_file E) \<or> \<not> set (severities_of cfg) \<subseteq> set nuclei_severities"
  | (scan) tmp v out err res where "temp_file E = Inr tmp" "r = Inr res"
      "set (severities_of cfg) \<subseteq> set nuclei_severities"
      "s = s0\<lparr> commands := commands s0 @
        [version_probe E (NBinaryPath cfg), nuclei_command E cfg tmp inScope v] \<rparr>"
      "exec E (Suc (length (commands s0))) (nuclei_command E cfg tmp inScope v) = (out, err)"
      "TargetsScanned res = length inScope" "TargetsBlocked res = TargetsBlocked res0" "RawOutput res = out"
      "Found res = (case read_temp E of Inr data \<Rightarrow> parseNucleiOutput (atext E) data | Inl _ \<Rightarrow> Found res0)"
proof (cases "temp_file E")
  case (Inl e)
  then show ?thesis using assms that(1) by (auto simp: nuclei_scan_def)
next
  case (Inr tmp)
  obtain v where v: "detectNucleiVersion E (NBinaryPath cfg) s0 =
      (v, s0\<lparr> commands := commands s0 @ [version_probe E (NBinaryPath cfg)] \<rparr>)"
    using detectBBOTVersion_eq unfolding detectNucleiVersion_def by blast
  let ?bad = "find (\<lambda>sev. sev \<notin> set nuclei_severities) (severities_of cfg)"
  show ?thesis
  proof (cases ?bad)
    case (Some sev)
    then have "\<not> set (severities_of cfg) \<subseteq> set nuclei_severities" using nth_mem by (force simp: find_Some_iff)
    then show ?thesis using assms that(1) Some v Inr by (auto simp: nuclei_scan_def)
  next
    case None
    then have ok: "set (severities_of cfg) \<subseteq> set nuclei_severities"
      by (auto simp: find_None_iff)
    obtain out err where x: "exec E (Suc (length (commands s0))) (nuclei_command E cfg tmp inScope v) = (out, err)"
      by fastforce
    show ?thesis
      using assms v Inr None x
      by (intro that(2) [OF Inr _ ok _ x, of "projr r"])
         (auto simp: nuclei_scan_def run_command_eq Let_def split: sum.splits)
  qed
qed

lemma RunNuclei_cases:
  assumes "RunNuclei E cfg targets s0 = (r, s)"
  obtains (no_client) "NMCPClient cfg = None" "r = Inl NoClient" "s = s0"
  | (no_scan) c res where "NMCPClient cfg = Some c" "r = Inr res" "s = s0\<lparr> requests := requests s0 + length targets \<rparr>"
      "NDryRun cfg \<or> allowed_hosts E c (requests s0) targets = []"
      "TargetsScanned res + TargetsBlocked res = length targets" "Found res = []"
  | (refused) c e where "NMCPClient cfg = Some c" "nuclei_guard cfg = Some e" "r = Inl e"
      "s = s0\<lparr> requests := requests s0 + length targets \<rparr>"
  | (scan) c res0 where "NMCPClient cfg = Some c" "\<not> NDryRun cfg" "nuclei_guard cfg = None"
      "allowed_hosts E c (requests s0) targets \<noteq> []" "Found res0 = []"
      "length (allowed_hosts E c (requests s0) targets) + TargetsBlocked res0 = length targets"
      "nuclei_scan E cfg (allowed_hosts E c (requests s0) targets) res0
        (s0\<lparr> requests := requests s0 + length targets \<rparr>) = (r, s)"
proof (cases "NMCPClient cfg")
  case (Some c)
  let ?in = "allowed_hosts E c (requests s0) targets"
  obtain blocked where f: "filter_scope E c targets s0 =
      (?in, blocked, s0\<lparr> requests := requests s0 + length targets \<rparr>)"
    and n: "length ?in + length blocked = length targets" by (rule filter_scope_obtain)
  let ?res = "(empty_result (NDryRun cfg))\<lparr> TargetsBlocked := length blocked \<rparr>"
  let ?s = "s0\<lparr> requests := requests s0 + length targets \<rparr>"
  have run: "RunNuclei E cfg targets s0 =
      (if NDryRun cfg then (Inr (?res\<lparr> TargetsScanned := length ?in \<rparr>), ?s)
       else if ?in = [] then (Inr ?res, ?s)
       else (case nuclei_guard cfg of Some e \<Rightarrow> (Inl e, ?s) | None \<Rightarrow> nuclei_scan E cfg ?in ?res ?s))"
    by (cases "NDryRun cfg") (simp_all add: RunNuclei_def Some f split: option.split)
  consider "NDryRun cfg" | "\<not> NDryRun cfg" "?in = []" | e where "\<not> NDryRun cfg" "?in \<noteq> []" "nuclei_guard cfg = Some e"
    | "\<not> NDryRun cfg" "?in \<noteq> []" "nuclei_guard cfg = None" by blast
  then show ?thesis
  proof cases
    case 4
    then show ?thesis using run assms n by (intro scan [OF Some, of ?res]) (simp_all add: empty_result_def)
  qed (use run assms n in \<open>auto simp: empty_result_def intro: no_scan [OF Some] refused [OF Some]\<close>)
qed (use assms that(1) in \<open>simp add: RunNuclei_def\<close>)

section \<open>Reading the tools' output\<close>

definition bbot_event :: "string \<Rightarrow> string \<Rightarrow> json" where
  "bbot_event h t = JObj [(''host'', JStr h), (''type'', JStr t)]"

definition nuclei_line :: "string \<times> string \<times> string \<times> string \<Rightarrow> string" where
  "nuclei_line = (\<lambda>(sev, h, n, t). json_print (JObj [(''template-id'', JStr t), (''name'', JStr n),
     (''severity'', JStr sev), (''host'', JStr h)]))"

definition printable :: "string \<Rightarrow> bool" where
  "printable s = list_all (\<lambda>c. 32 \<le> byte c \<and> byte c < 128) s"

lemma printable_simps [simp]:
  "printable []" "printable (c # s) \<longleftrightarrow> 32 \<le> byte c \<and> byte c < 128 \<and> printable s"
  "printable (s @ t) \<longleftrightarrow> printable s \<and> printable t"
  by (simp_all add: printable_def)

lemma printable_join: "printable sep \<Longrightarrow> \<forall>w\<in>set ws. printable w \<Longrightarrow> printable (join sep ws)"
  by (induction sep ws rule: join.induct) auto

lemma printable_nibble: "n < 16 \<Longrightarrow> 32 \<le> byte (nibble_char n) \<and> byte (nibble_char n) < 128"
  by (cases "n < 10") (simp_all add: nibble_char_def)

lemma printable_u_escape: "printable (u_escape n)"
  using printable_nibble [of "k mod 16" for k] by (simp add: u_escape_def) (simp add: byte_def)

lemma printable_concat: "\<forall>w\<in>set ws. printable w \<Longrightarrow> printable (concat ws)"
  by (induction ws) auto

lemma printable_quote_char: "byte c < 128 \<Longrightarrow> printable (quote_char c)"
  by (simp add: quote_char_def quote_chunk_def printable_u_escape del: byte_inj)
     (simp add: byte_def)

lemma printable_quoted: "is_ascii s \<Longrightarrow> printable (json_quote s)"
  by (auto simp: json_quote_ascii is_ascii_def list_all_iff intro!: printable_concat printable_quote_char)

lemma printable_digits: "list_all is_digit s \<Longrightarrow> printable s"
  by (auto simp: printable_def list_all_iff is_digit_def between_def)

lemma printable_literal: "int_literal n \<Longrightarrow> printable n"
  using printable_digits [of n] printable_digits [of "tl n"]
  by (cases n) (auto simp: int_literal_def Let_def byte_def split: if_splits)

lemma printable_json: "json_plain v \<Longrightarrow> printable (json_print v)"
proof (induction v)
  case (JArr vs)
  then show ?case by (auto simp: list_all_iff byte_def intro!: printable_join)
next
  case (JObj ms)
  then show ?case by (fastforce simp: list_all_iff printable_quoted byte_def intro!: printable_join)
qed (auto simp: printable_quoted printable_literal byte_def)


lemma printable_clean:
  assumes "printable s"
  shows "is_ascii s" "char_of (10::nat) \<notin> set s"
  using assms by (auto simp: printable_def is_ascii_def list_all_iff)

lemma object_line:
  assumes "json_plain (JObj ms)"
  shows "trim_space (json_print (JObj ms)) = json_print (JObj ms)" "json_print (JObj ms) \<noteq> []"
    "char_of (10::nat) \<notin> set (json_print (JObj ms))"
  using printable_clean [OF printable_json [OF assms]]
  by (auto intro!: trim_space_id simp: no_outer_space_def is_space_def byte_def)

lemma output_lines_printed:
  assumes "\<forall>ms\<in>set os. json_plain (JObj ms)"
  shows "output_lines (join [char_of (10::nat)] (map (json_print \<circ> JObj) os)) = map (json_print \<circ> JObj) os"
proof (cases "os = []")
  case False
  have "split_on (char_of (10::nat)) (join [char_of (10::nat)] (map (json_print \<circ> JObj) os)) = map (json_print \<circ> JObj) os"
    using assms False by (intro split_on_join) (auto simp del: json_print.simps json_plain.simps dest: object_line(3))
  moreover have "map trim_space (map (json_print \<circ> JObj) os) = map (json_print \<circ> JObj) os"
    using assms by (simp add: object_line(1) del: json_print.simps)
  ultimately show ?thesis
    using assms object_line(2) by (simp add: output_lines_def filter_id_conv del: json_print.simps)
qed (simp add: output_lines_def)

lemma decode_lower:
  assumes "list_all (\<lambda>(k, _). is_lower_ascii k) ms" "is_lower_ascii n"
  shows "decode_field E n upd x0 ms =
    foldl (\<lambda>acc (k, v). if k = n then (case acc of None \<Rightarrow> None | Some x \<Rightarrow> upd v x) else acc) (Some x0) ms"
proof -
  have "foldl (\<lambda>acc (k, v). if equal_fold E k n then f acc v else acc) a ms =
      foldl (\<lambda>acc (k, v). if k = n then f acc v else acc) a ms" for f :: "'a option \<Rightarrow> json \<Rightarrow> 'a option" and a
    using assms(1) by (induction ms arbitrary: a) (auto simp: equal_fold_lower assms(2))
  then show ?thesis by (simp add: decode_field_def)
qed

lemma field_names:
  "list_all is_lower_ascii [''host'', ''type'', ''template-id'', ''name'', ''severity'', ''url'', ''allowed'',
     ''reason'', ''blocked_ip'', ''denied_host'', ''dry_run'', ''jsonrpc'', ''id'', ''result'', ''error'',
     ''code'', ''message'', ''results'', ''active'']"
  by code_simp

lemma bbot_host_event:
  assumes "is_ascii h" "is_ascii t"
  shows "bbot_host E (json_print (bbot_event h t)) = (if h = [] then None else Some h)"
proof -
  have "json_plain (bbot_event h t)" "json_depth (bbot_event h t) \<le> max_depth"
    using assms field_names by (auto simp: bbot_event_def max_depth_def byte_def)
  from json_round_trip [OF this] show ?thesis
    using field_names
    by (simp add: bbot_host_def bbot_event_def struct_members_def decode_lower set_string_def del: json_print.simps)
qed

lemma nuclei_finding_line:
  assumes "is_ascii sev" "is_ascii h" "is_ascii n" "is_ascii t"
  shows "nuclei_finding E (nuclei_line (sev, h, n, t)) =
    (if t = [] then None else Some (''['' @ sev @ ''] '' @ h @ '' - '' @ n @ '' ('' @ t @ '')''))"
proof -
  let ?v = "JObj [(''template-id'', JStr t), (''name'', JStr n), (''severity'', JStr sev), (''host'', JStr h)]"
  have "json_plain ?v" "json_depth ?v \<le> max_depth"
    using assms field_names by (auto simp: max_depth_def byte_def)
  from json_round_trip [OF this] show ?thesis
    using field_names
    by (simp add: nuclei_finding_def nuclei_line_def struct_members_def decode_lower set_string_def del: json_print.simps)
qed

section \<open>Properties\<close>

text \<open>The server's answer lets the host through: status 200, no error, a result that says allowed.\<close>

definition allow_answer :: "text_env \<Rightarrow> int \<times> string \<Rightarrow> bool" where
  "allow_answer E answer =
    (fst answer = 200 \<and>
     (\<exists>v r chk. json_decode (snd answer) = Some v \<and> MCPResponse E v = Some (Some r, None) \<and>
        decode_check E r = Some chk \<and> SafeAllowed chk))"

lemma server_allows_answer:
  "server_allows E c n h \<longleftrightarrow>
    \<not> is_err (url_parse (ClientURL c @ ''/mcp'')) \<and>
    (\<exists>answer. post E n (ClientURL c @ ''/mcp'') (applyHeaders c [])
      (json_print (tool_call ''check_url'' [(''url'', JStr (''https://'' @ h))])) = Inr answer \<and>
     allow_answer (atext E) answer)"
  by (auto simp: server_allows_def Client_CheckURL_def call_tool_def allow_answer_def is_err_def
      split: sum.splits prod.splits option.splits if_splits)


theorem scope_filter_partitions:
  "FilterInScope E c n hosts =
    (n + length hosts,
     map snd (filter (\<lambda>(i, h). server_allows E c i h) (List.enumerate n hosts)),
     map snd (filter (\<lambda>(i, h). \<not> server_allows E c i h) (List.enumerate n hosts)))
   \<and> (server_allows E c i h \<longleftrightarrow>
     \<not> is_err (url_parse (ClientURL c @ ''/mcp'')) \<and>
     (\<exists>answer. post E i (ClientURL c @ ''/mcp'') (applyHeaders c [])
       (json_print (tool_call ''check_url'' [(''url'', JStr (''https://'' @ h))])) = Inr answer \<and>
      allow_answer (atext E) answer))"
  by (rule conjI [OF FilterInScope_eq [unfolded allowed_hosts_def] server_allows_answer])

text \<open>
  BBOT runs at most once, after a version probe, only for targets the server answered
  allowed for, only outside a dry run and without a VPN container, and with a valid proxy
  unless proxying is off.
\<close>

theorem bbot_scans_allowed_targets:
  assumes "RunBBOT E cfg targets s0 = (r, s)" "commands s \<noteq> commands s0"
  shows "\<exists>c v inScope. BMCPClient cfg = Some c \<and> \<not> BDryRun cfg \<and> BVPNContainer cfg = [] \<and>
    (\<not> BNoProxy cfg \<longrightarrow> BProxyURL cfg \<noteq> [] \<and> validateProxyURL (BProxyURL cfg) = None) \<and>
    inScope \<noteq> [] \<and>
    inScope = map snd (filter (\<lambda>(i, h). server_allows E c i h) (List.enumerate (requests s0) targets)) \<and>
    commands s = commands s0 @
      [Command (BBinaryPath cfg) [''--version''] (environ E),
       Command (BBinaryPath cfg) (bbotArgs inScope (BProxyURL cfg) (BNoProxy cfg) v)
         (if BNoProxy cfg then environ E else proxyEnvironment E (BProxyURL cfg))]"
  using assms(1)
proof (cases rule: RunBBOT_cases)
  case (scan c res0 res)
  from bbot_scan_state [OF scan(7)] obtain v where
    "commands s = commands s0 @ [version_probe E (BBinaryPath cfg),
       bbot_command E cfg (allowed_hosts E c (requests s0) targets) v]" by auto
  with scan show ?thesis
    by (intro exI [of _ c] exI [of _ v] exI [of _ "allowed_hosts E c (requests s0) targets"])
       (auto simp: version_probe_def bbot_command_def bbot_guard_def allowed_hosts_def split: if_splits option.splits)
qed (use assms(2) in simp_all)

theorem bbot_results:
  assumes "RunBBOT E cfg targets s0 = (Inr res, s)"
  shows "TargetsScanned res + TargetsBlocked res = length targets
    \<and> recorded s = recorded s0 @
      (if BStore cfg \<and> BProgramID cfg \<noteq> [] \<and> Found res \<noteq> []
       then [(BProgramID cfg, map bbot_asset (Found res))] else [])
    \<and> (Found res \<noteq> [] \<longrightarrow> (\<exists>c events. BMCPClient cfg = Some c \<and> events = parseBBOTOutput (atext E) (RawOutput res) \<and>
      Found res = (if BNoProxy cfg
        then map snd (filter (\<lambda>(i, h). server_allows E c i h)
          (List.enumerate (requests s0 + length targets) events)) else events)))"
  using assms
proof (cases rule: RunBBOT_cases)
  case (scan c res0 res')
  then show ?thesis using bbot_scan_state [OF scan(7)] by (auto simp: allowed_hosts_def)
qed auto

text \<open>
  Nuclei runs at most once, after a version probe, through a valid proxy, with known
  severities and only for targets the server answered allowed for; the counts of a run add
  up and its findings are those parsed from the output file.
\<close>

theorem nuclei_scans_allowed_targets:
  assumes "RunNuclei E cfg targets s0 = (r, s)"
  shows "recorded s = recorded s0 \<and>
    (commands s = commands s0 \<or>
     commands s = commands s0 @ [Command (NBinaryPath cfg) [''--version''] (environ E)] \<and> is_err r \<or>
     (\<exists>c v tmp inScope res. NMCPClient cfg = Some c \<and> \<not> NDryRun cfg \<and> NVPNContainer cfg = [] \<and>
      NProxyURL cfg \<noteq> [] \<and> validateProxyURL (NProxyURL cfg) = None \<and>
      set (severities_of cfg) \<subseteq> set nuclei_severities \<and> inScope \<noteq> [] \<and>
      inScope = map snd (filter (\<lambda>(i, h). server_allows E c i h) (List.enumerate (requests s0) targets)) \<and>
      commands s = commands s0 @
        [Command (NBinaryPath cfg) [''--version''] (environ E),
         Command (NBinaryPath cfg)
           (nucleiArgs (NTemplateDir cfg) inScope tmp v @ [''-severity'', join '','' (severities_of cfg)]
             @ [''-proxy'', NProxyURL cfg])
           (proxyEnvironment E (NProxyURL cfg))] \<and>
      r = Inr res \<and> TargetsScanned res = length inScope \<and>
      TargetsScanned res + TargetsBlocked res = length targets \<and>
      Found res = (case read_temp E of Inl _ \<Rightarrow> [] | Inr data \<Rightarrow> parseNucleiOutput (atext E) data)))"
  using assms
proof (cases rule: RunNuclei_cases)
  case (scan c res0)
  note outer = scan
  from scan(7) show ?thesis
  proof (cases rule: nuclei_scan_cases)
    case no_scan
    then show ?thesis by (auto simp: version_probe_def)
  next
    case (scan tmp v out err res)
    show ?thesis
      using outer scan
      by (intro conjI disjI2 exI [of _ c] exI [of _ v] exI [of _ tmp]
            exI [of _ "allowed_hosts E c (requests s0) targets"] exI [of _ res])
         (auto simp: version_probe_def nuclei_command_def nuclei_guard_def allowed_hosts_def
           split: if_splits option.splits sum.splits)
  qed
qed simp_all

text \<open>
  C20: in the environment of a proxied command the proxy variables, in any letter case, are
  exactly the eight settings of the proxy, and every other variable of the form key=value is
  inherited in order.
\<close>

theorem proxy_environment_exact:
  "filter (proxy_var E) (proxyEnvironment E p) =
    [''HTTP_PROXY='' @ p, ''HTTPS_PROXY='' @ p, ''ALL_PROXY='' @ p, ''NO_PROXY='',
     ''http_proxy='' @ p, ''https_proxy='' @ p, ''all_proxy='' @ p, ''no_proxy='']
   \<and> filter (\<lambda>x. \<not> proxy_var E x) (proxyEnvironment E p) =
    filter (\<lambda>x. snd (snd (cut x (CHR ''=''))) \<and> \<not> proxy_var E x) (environ E)"
  by (rule conjI [OF proxy_entries other_entries])

lemma map_filter_events:
  "\<forall>(h, t)\<in>set evs. is_ascii h \<and> is_ascii t \<Longrightarrow>
    List.map_filter (bbot_host E) (map (\<lambda>(h, t). json_print (bbot_event h t)) evs) =
      filter (\<lambda>h. h \<noteq> []) (map fst evs)"
  by (induction evs) (auto simp: List.map_filter_simps bbot_host_event)

text \<open>
  the events a tool prints one JSON object per line are read back as their hosts, in
  order, without the empty ones.
\<close>

theorem bbot_output_round_trip:
  assumes "\<forall>(h, t)\<in>set evs. is_ascii h \<and> is_ascii t"
  shows "parseBBOTOutput E (join [char_of (10::nat)] (map (\<lambda>(h, t). json_print (bbot_event h t)) evs)) =
    filter (\<lambda>h. h \<noteq> []) (map fst evs)"
proof -
  let ?os = "map (\<lambda>(h, t). [(''host'', JStr h), (''type'', JStr t)]) evs"
  have lines: "map (json_print \<circ> JObj) ?os = map (\<lambda>(h, t). json_print (bbot_event h t)) evs"
    by (simp add: bbot_event_def comp_def case_prod_unfold del: json_print.simps)
  have "\<forall>ms\<in>set ?os. json_plain (JObj ms)" using assms by (auto simp: byte_def)
  from output_lines_printed [OF this] map_filter_events [OF assms] show ?thesis
    by (simp only: parseBBOTOutput_def lines)
qed


text \<open>The response a server sends: a result for the request with id 1.\<close>

definition reply :: "json \<Rightarrow> json" where
  "reply r = JObj [(''jsonrpc'', JStr ''2.0''), (''id'', JNum ''1''), (''result'', r)]"

lemma reply_read: "MCPResponse E (reply r) = Some (Some r, None)"
proof -
  have "atoi ''1'' = Some 1" by code_simp
  then show ?thesis using field_names
    by (simp add: MCPResponse_def reply_def struct_members_def decode_lower set_string_def set_int_def set_raw_def)
qed

lemma decode_allowed: "\<exists>chk. decode_check E (JObj [(''allowed'', JBool b)]) = Some chk \<and> SafeAllowed chk = b"
  using field_names by (simp add: decode_check_def struct_members_def decode_lower set_bool_def)

lemma reply_allows:
  "allow_answer E (200, json_print (reply (JObj [(''allowed'', JBool b)]))) \<longleftrightarrow> b"
proof -
  let ?v = "reply (JObj [(''allowed'', JBool b)])"
  have "json_decode (json_print ?v) = Some ?v"
    by (rule json_decode_print [where r = "[]", simplified]) (simp_all add: reply_def max_depth_def int_literal_def is_digit_def byte_def between_def)
  with decode_allowed [of E b] show ?thesis by (auto simp: allow_answer_def reply_read)
qed

definition demo_client :: MCPClient where
  "demo_client = NewMCPClientWithAPIKey ''http://127.0.0.1:8444/'' ''acme'' ''key''"

text \<open>A server that lets the first host of each pair through, and a tool that reports two hosts.\<close>

definition demo_tools :: adapter_env where
  "demo_tools = \<lparr> atext = ascii_env, upper_rune = id, getenv = (\<lambda>_. []), environ = [''HOME=/root'', ''no_proxy=*''],
     post = (\<lambda>n _ _ _. Inr (200, json_print (reply (JObj [(''allowed'', JBool (even n))])))),
     exec = (\<lambda>k _. if k = 0 then (''v2.1.0'', None)
       else (json_print (bbot_event ''www.a.io'' ''DNS_NAME''), None)),
     is_dir = (\<lambda>_. False), temp_file = Inr ''/tmp/out'', read_temp = Inr (nuclei_line (''low'', ''a.io'', ''n'', ''t'')),
     record_err = (\<lambda>_ _. None) \<rparr>"

definition demo_start :: adapter_state where
  "demo_start = \<lparr> requests = 0, commands = [], recorded = [] \<rparr>"

definition demo_bbot :: BBOTConfig where
  "demo_bbot = \<lparr> BBinaryPath = ''bbot'', BMCPClient = Some demo_client, BDryRun = False,
     BProxyURL = ''http://127.0.0.1:8443'', BNoProxy = False, BVPNContainer = [], BProgramID = ''acme'', BStore = True \<rparr>"

definition demo_nuclei :: NucleiConfig where
  "demo_nuclei = \<lparr> NBinaryPath = ''nuclei'', NMCPClient = Some demo_client, NDryRun = False,
     NTemplateDir = ''/t'', NSeverities = [], NProxyURL = ''http://127.0.0.1:8443'', NVPNContainer = [] \<rparr>"

lemma demo_allows: "server_allows demo_tools demo_client n h \<longleftrightarrow> even n"
proof -
  have "\<not> is_err (url_parse (ClientURL demo_client @ ''/mcp''))"
    by (simp add: demo_client_def NewMCPClientWithAPIKey_def trim_right_def go_eval)
  then show ?thesis by (simp add: server_allows_answer demo_tools_def reply_allows)
qed


lemma demo_allowed: "allowed_hosts demo_tools demo_client 0 [''a.io'', ''c.io''] = [''a.io'']"
  by (simp add: allowed_hosts_def demo_allows)

lemma demo_proxy: "validateProxyURL ''http://127.0.0.1:8443'' = None"
  by (simp add: validateProxyURL_def go_eval)

lemma demo_bbot_run:
  obtains res s0' res0 s where "RunBBOT demo_tools demo_bbot [''a.io'', ''c.io''] demo_start = (Inr res, s)"
    "bbot_scan demo_tools demo_bbot demo_client [''a.io''] res0 s0' = (res, s)" "commands s0' = []" "recorded s0' = []"
proof -
  obtain r s where run: "RunBBOT demo_tools demo_bbot [''a.io'', ''c.io''] demo_start = (r, s)" by fastforce
  then show ?thesis
  proof (cases rule: RunBBOT_cases)
    case (scan c res0 res)
    then show ?thesis using that [of res s res0] run demo_allowed
      by (simp add: demo_bbot_def demo_start_def)
  qed (use demo_allowed demo_proxy in \<open>simp_all add: demo_bbot_def demo_start_def bbot_guard_def\<close>)
qed

lemma demo_nuclei_run:
  obtains res s where "RunNuclei demo_tools demo_nuclei [''a.io'', ''c.io''] demo_start = (Inr res, s)"
    "length (commands s) = 2"
proof -
  obtain r s where run: "RunNuclei demo_tools demo_nuclei [''a.io'', ''c.io''] demo_start = (r, s)" by fastforce
  have t: "trim_space ''/t'' = ''/t''" by (simp add: go_eval)
  show ?thesis using run
  proof (cases rule: RunNuclei_cases)
    case (scan c res0)
    from scan(7) show ?thesis
    proof (cases rule: nuclei_scan_cases)
      case no_scan
      then show ?thesis by (simp add: demo_nuclei_def severities_of_def nuclei_severities_def demo_tools_def)
    next
      case (scan tmp v out err res)
      then show ?thesis using that run by (simp add: demo_start_def)
    qed
  qed (use demo_allowed demo_proxy t in \<open>simp_all add: demo_nuclei_def demo_start_def nuclei_guard_def\<close>)
qed

theorem bbot_scans_allowed_targets_witness:
  "\<exists>v. commands (snd (RunBBOT demo_tools demo_bbot [''a.io'', ''c.io''] demo_start)) =
    [Command ''bbot'' [''--version''] (environ demo_tools),
     Command ''bbot'' (bbotArgs [''a.io''] ''http://127.0.0.1:8443'' False v)
       (proxyEnvironment demo_tools ''http://127.0.0.1:8443'')]"
proof -
  obtain res s0' res0 s where run: "RunBBOT demo_tools demo_bbot [''a.io'', ''c.io''] demo_start = (Inr res, s)"
    and "bbot_scan demo_tools demo_bbot demo_client [''a.io''] res0 s0' = (res, s)" "commands s0' = []"
    by (rule demo_bbot_run)
  with bbot_scan_state have "commands s \<noteq> commands demo_start" by (fastforce simp: demo_start_def)
  from bbot_scans_allowed_targets [OF run this] run show ?thesis
    by (auto simp: demo_bbot_def demo_start_def demo_allows)
qed

theorem bbot_results_witness:
  "\<exists>res s. RunBBOT demo_tools demo_bbot [''a.io'', ''c.io''] demo_start = (Inr res, s) \<and>
    TargetsScanned res + TargetsBlocked res = 2"
proof -
  obtain res s0' res0 s where run: "RunBBOT demo_tools demo_bbot [''a.io'', ''c.io''] demo_start = (Inr res, s)"
    by (rule demo_bbot_run)
  from bbot_results [OF run] run show ?thesis by auto
qed

theorem nuclei_scans_allowed_targets_witness:
  "\<exists>v tmp. commands (snd (RunNuclei demo_tools demo_nuclei [''a.io'', ''c.io''] demo_start)) =
    [Command ''nuclei'' [''--version''] (environ demo_tools),
     Command ''nuclei'' (nucleiArgs ''/t'' [''a.io''] tmp v @ [''-severity'', ''info,low'']
         @ [''-proxy'', ''http://127.0.0.1:8443''])
       (proxyEnvironment demo_tools ''http://127.0.0.1:8443'')]"
proof -
  obtain res s where run: "RunNuclei demo_tools demo_nuclei [''a.io'', ''c.io''] demo_start = (Inr res, s)"
    and n: "length (commands s) = 2" by (rule demo_nuclei_run)
  from nuclei_scans_allowed_targets [OF run] n run show ?thesis
    by (auto simp: demo_nuclei_def demo_start_def demo_allows severities_of_def)
qed

theorem bbot_output_round_trip_witness:
  "parseBBOTOutput ascii_env (join [char_of (10::nat)]
      (map (\<lambda>(h, t). json_print (bbot_event h t)) [(''a.io'', ''DNS_NAME''), ([], ''SCAN''), (''b.io'', ''URL'')])) =
    [''a.io'', ''b.io'']"
  by (subst bbot_output_round_trip) (simp_all add: byte_def)

end
