(* ===== verification/Report.thy ===== *)
theory Report
  imports Go_Path Go_Time
begin

text \<open>
  internal/report/report.go: the Markdown report of a scan. A zero start time is \<open>None\<close>; the
  title case of the severity names comes from \<open>golang.org/x/text\<close> and is a parameter, as is the
  order in which Go walks the map of hosts.
\<close>

section \<open>Reading a finding\<close>

definition severity_names :: "string list" where
  "severity_names = [''critical'', ''high'', ''medium'', ''low'', ''info'']"

definition extractSeverity :: "text_env \<Rightarrow> string \<Rightarrow> string" where
  "extractSeverity E finding =
    (if \<not> has_prefix finding ''['' then ''unknown''
     else (case index_of finding '']'' of None \<Rightarrow> ''unknown''
       | Some e \<Rightarrow>
         (let s = to_lower E (trim_space (drop 1 (take e finding)))
          in if s \<in> set severity_names then s else ''unknown'')))"

definition extractHost :: "string \<Rightarrow> string" where
  "extractHost finding =
    (case index_of finding '']'' of None \<Rightarrow> ''unknown''
     | Some b \<Rightarrow>
       if length finding \<le> b + 2 then ''unknown''
       else (let after = drop (b + 2) finding in
             case index_of after '' - '' of None \<Rightarrow> ''unknown'' | Some sep \<Rightarrow> take sep after))"

section \<open>Grouping and sorting\<close>

definition add_to_group :: "(string, string list) gomap \<Rightarrow> string \<Rightarrow> (string, string list) gomap" where
  "add_to_group m f =
    (let h = extractHost f
     in AList.update h ((case map_of m h of None \<Rightarrow> [] | Some fs \<Rightarrow> fs) @ [f]) m)"

definition groupByHost :: "string list \<Rightarrow> (string, string list) gomap" where
  "groupByHost findings = foldl add_to_group [] findings"

text \<open>The inner loop moves the key at index \<open>j\<close> down; the outer one does so for each index.\<close>

fun move_down :: "nat \<Rightarrow> string list \<Rightarrow> string list" where
  "move_down 0 ks = ks"
| "move_down (Suc j) ks =
    (if ks ! j > ks ! Suc j then move_down j (ks[j := ks ! Suc j, Suc j := ks ! j]) else ks)"

definition sort_keys :: "string list \<Rightarrow> string list" where
  "sort_keys keys = foldl (\<lambda>ks i. move_down i ks) keys [1..<length keys]"

text \<open>\<open>walk\<close> lists the keys of the map in the order of the iteration.\<close>

definition sortedKeys :: "(string list \<Rightarrow> string list) \<Rightarrow> (string, string list) gomap \<Rightarrow> string list" where
  "sortedKeys walk m = sort_keys (walk (map fst m))"

section \<open>The report\<close>

record ReportMeta =
  RProgramID :: string
  RTool :: string
  RTemplateDir :: string
  RTargets :: "string list"
  RDuration :: string
  RMetaDryRun :: bool
  StartTime :: "instant option"

record report_env =
  rtext :: text_env
  title :: "string \<Rightarrow> string"
  walk_keys :: "string list \<Rightarrow> string list"
  rnow :: instant
  file_now :: instant
  cache_dir :: "(string, string) result"
  mkdir_err :: "string \<Rightarrow> string option"
  write_err :: "string \<Rightarrow> string \<Rightarrow> string option"

abbreviation newline :: string where "newline \<equiv> [char_of (10::nat)]"

definition em_dash :: string where
  "em_dash = [char_of (0xE2::nat), char_of (0x80::nat), char_of (0x94::nat)]"

definition warning_sign :: string where
  "warning_sign = [char_of (0xE2::nat), char_of (0x9A::nat), char_of (0xA0::nat)]"

definition report_header :: "report_env \<Rightarrow> ReportMeta \<Rightarrow> string" where
  "report_header E meta =
    ''# Vulnerability Report''
    @ (if RProgramID meta \<noteq> [] then '' '' @ em_dash @ '' '' @ RProgramID meta else []) @ newline @ newline
    @ ''**Generated:** ''
    @ rfc3339 0 (case StartTime meta of Some t \<Rightarrow> t | None \<Rightarrow> rnow E) @ newline @ newline
    @ (if RTool meta \<noteq> [] then ''**Tool:** '' @ RTool meta @ newline @ newline else [])
    @ ''**Targets:** '' @ join '', '' (RTargets meta) @ newline @ newline
    @ ''**Duration:** '' @ RDuration meta @ newline @ newline
    @ (if RTemplateDir meta \<noteq> [] then ''**Templates:** '' @ RTemplateDir meta @ newline @ newline else [])
    @ (if RMetaDryRun meta
       then ''**'' @ warning_sign @ '' Dry run '' @ em_dash @ '' no actual scan was executed.**'' @ newline @ newline
       else [])"

definition count_severity :: "text_env \<Rightarrow> (string, nat) gomap \<Rightarrow> string \<Rightarrow> (string, nat) gomap" where
  "count_severity E m f =
    (let s = extractSeverity E f in AList.update s (Suc (case map_of m s of None \<Rightarrow> 0 | Some n \<Rightarrow> n)) m)"

definition severity_counts :: "text_env \<Rightarrow> string list \<Rightarrow> (string, nat) gomap" where
  "severity_counts E findings =
    foldl (count_severity E) (map (\<lambda>s. (s, 0)) (severity_names @ [''unknown''])) findings"

definition severity_row :: "report_env \<Rightarrow> (string, nat) gomap \<Rightarrow> string \<Rightarrow> string" where
  "severity_row E counts s =
    ''| '' @ title E s @ '' | '' @ nat_digits (case map_of counts s of None \<Rightarrow> 0 | Some n \<Rightarrow> n) @ '' |'' @ newline"

definition host_section :: "(string, string list) gomap \<Rightarrow> string \<Rightarrow> string" where
  "host_section byHost h =
    ''### '' @ h @ newline @ newline
    @ concat (map (\<lambda>f. ''- '' @ f @ newline) (case map_of byHost h of None \<Rightarrow> [] | Some fs \<Rightarrow> fs)) @ newline"

definition RenderFindings :: "report_env \<Rightarrow> string list \<Rightarrow> ReportMeta \<Rightarrow> string" where
  "RenderFindings E findings meta =
    (let counts = severity_counts (rtext E) findings; byHost = groupByHost findings
     in report_header E meta
        @ ''## Severity Distribution'' @ newline @ newline
        @ ''| Severity | Count |'' @ newline @ ''|----------|-------|'' @ newline
        @ concat (map (severity_row E counts) (severity_names @ [''unknown''])) @ newline
        @ ''## Findings by Host'' @ newline @ newline
        @ concat (map (host_section byHost) (sortedKeys (walk_keys E) byHost))
        @ (if findings = [] then ''_No findings._'' @ newline else []))"

datatype report_err = NoCacheDir string | CreateDir string string | WriteFailed string string

definition file_stamp :: "instant \<Rightarrow> string" where
  "file_stamp t =
    (let s = t div second mod 86400
     in date_string (civil_date (t div second div 86400)) @ ''T''
        @ pad 2 (s div 3600) @ pad 2 (s mod 3600 div 60) @ pad 2 (s mod 60) @ ''Z'')"

text \<open>The path of the report with what was written there, if the call got that far.\<close>

definition WriteReport ::
  "report_env \<Rightarrow> string list \<Rightarrow> ReportMeta \<Rightarrow> string \<Rightarrow> (report_err, string) result \<times> (string \<times> string) option" where
  "WriteReport E findings meta outputDir =
    (let content = RenderFindings E findings meta in
     case (if outputDir = [] then map_sum id (\<lambda>c. file_join [c, ''scopepilot'', ''reports'']) (cache_dir E)
           else Inr outputDir) of
       Inl e \<Rightarrow> (Inl (NoCacheDir e), None)
     | Inr dir \<Rightarrow>
       (case mkdir_err E dir of Some e \<Rightarrow> (Inl (CreateDir dir e), None)
        | None \<Rightarrow>
          (let path = file_join [dir, ''findings_'' @ file_stamp (file_now E) @ ''.md'']
           in case write_err E path content of
                Some e \<Rightarrow> (Inl (WriteFailed path e), Some (path, content))
              | None \<Rightarrow> (Inr path, Some (path, content)))))"

section \<open>The sort is insertion sort\<close>

text \<open>Moving an element down a sorted prefix puts it where \<open>insort\<close> does.\<close>

lemma nth_swap_append:
  "(xs @ x # y # zs)[length xs := y, Suc (length xs) := x] = xs @ y # x # zs"
  by (simp add: list_update_append)

lemma move_down_sorted:
  "sorted xs \<Longrightarrow> \<exists>ys. move_down (length xs) (xs @ y # zs) = ys @ zs \<and> sorted ys \<and> mset ys = add_mset y (mset xs)"
proof (induction xs arbitrary: zs rule: rev_induct)
  case (snoc x xs)
  show ?case
  proof (cases "y < x")
    case True
    from snoc.IH [of "x # zs"] snoc.prems obtain ys where
      ys: "move_down (length xs) (xs @ y # x # zs) = ys @ x # zs" "sorted ys" "mset ys = add_mset y (mset xs)"
      by (auto simp: sorted_append)
    moreover have "sorted (ys @ [x])"
      using ys(2) True snoc.prems mset_eq_setD [of ys "y # xs"] ys(3) by (auto simp: sorted_append)
    moreover have "(xs @ x # y # zs)[length xs := y, Suc (length xs) := x] = xs @ y # x # zs"
      by (rule nth_swap_append)
    ultimately show ?thesis using True by (intro exI [of _ "ys @ [x]"]) (simp add: nth_append)
  next
    case False
    then show ?thesis using snoc.prems
      by (intro exI [of _ "xs @ [x, y]"]) (auto simp: nth_append sorted_append)
  qed
qed simp

lemma sort_keys_prefix:
  assumes "n \<le> length keys"
  shows "\<exists>ys. foldl (\<lambda>ks i. move_down i ks) keys [1..<n] = ys @ drop n keys \<and> sorted ys \<and> mset ys = mset (take n keys)"
  using assms
proof (induction n)
  case (Suc n)
  show ?case
  proof (cases "n = 0")
    case False
    from Suc obtain ys where ys: "foldl (\<lambda>ks i. move_down i ks) keys [1..<n] = ys @ drop n keys"
      "sorted ys" "mset ys = mset (take n keys)" by auto
    with Suc.prems have len: "length ys = n" by (metis Suc_leD length_take min.absorb2 size_mset)
    from Suc.prems have d: "drop n keys = keys ! n # drop (Suc n) keys" by (simp add: Cons_nth_drop_Suc)
    from move_down_sorted [OF ys(2), of "keys ! n" "drop (Suc n) keys"] obtain zs where
      "move_down n (ys @ keys ! n # drop (Suc n) keys) = zs @ drop (Suc n) keys" "sorted zs"
      "mset zs = add_mset (keys ! n) (mset ys)" unfolding len by blast
    with False ys d Suc.prems show ?thesis
      by (intro exI [of _ zs]) (simp add: take_Suc_conv_app_nth)
  qed (use Suc.prems in \<open>cases keys; auto\<close>)
qed simp

lemma sort_keys_sort: "sort_keys keys = sort keys"
proof -
  from sort_keys_prefix [of "length keys" keys] have "sorted (sort_keys keys)" "mset (sort_keys keys) = mset keys"
    by (auto simp: sort_keys_def)
  then show ?thesis by (metis properties_for_sort)
qed

section \<open>Groups and counts\<close>

lemma groupByHost_from:
  "amap_ok m \<Longrightarrow> amap_ok (foldl add_to_group m fs) \<and>
    map_of (foldl add_to_group m fs) h =
      (if h \<in> extractHost ` set fs \<or> map_of m h \<noteq> None
       then Some ((case map_of m h of None \<Rightarrow> [] | Some gs \<Rightarrow> gs) @ filter (\<lambda>f. extractHost f = h) fs) else None)"
proof (induction fs arbitrary: m)
  case Nil
  then show ?case by (auto split: option.splits)
next
  case (Cons f fs)
  have "amap_ok (add_to_group m f)" using Cons.prems by (simp add: add_to_group_def Let_def)
  from Cons.IH [OF this] show ?case
    by (auto simp: add_to_group_def Let_def split: option.splits)
qed

lemma groupByHost_lookup:
  "amap_ok (groupByHost fs)"
  "map_of (groupByHost fs) h =
    (if h \<in> extractHost ` set fs then Some (filter (\<lambda>f. extractHost f = h) fs) else None)"
  using groupByHost_from [of "[]" fs h] by (simp_all add: groupByHost_def)

lemma groupByHost_keys:
  "distinct (map fst (groupByHost fs))" "set (map fst (groupByHost fs)) = extractHost ` set fs"
proof -
  show "distinct (map fst (groupByHost fs))" using groupByHost_lookup(1) by (simp add: amap_ok_def)
  have "dom (map_of (groupByHost fs)) = extractHost ` set fs"
    by (auto simp: groupByHost_lookup(2) dom_def split: if_splits)
  then show "set (map fst (groupByHost fs)) = extractHost ` set fs" by (simp add: dom_map_of_conv_image_fst)
qed

lemma sortedKeys_eq:
  assumes "\<And>ks. mset (walk ks) = mset ks"
  shows "sortedKeys walk (groupByHost fs) = sorted_list_of_set (extractHost ` set fs)"
proof -
  have "sort (walk (map fst (groupByHost fs))) = sort (map fst (groupByHost fs))"
    using assms by (metis mset_sort properties_for_sort sorted_sort)
  also have "\<dots> = sorted_list_of_set (set (map fst (groupByHost fs)))"
    by (simp only: sorted_list_of_set_sort_remdups distinct_remdups_id [OF groupByHost_keys(1)])
  finally show ?thesis by (simp only: sortedKeys_def sort_keys_sort groupByHost_keys(2))
qed

lemma severity_counts_from:
  "map_of (foldl (count_severity E) m fs) s =
    (if map_of m s = None \<and> s \<notin> extractSeverity E ` set fs then None
     else Some ((case map_of m s of None \<Rightarrow> 0 | Some n \<Rightarrow> n) + length (filter (\<lambda>f. extractSeverity E f = s) fs)))"
proof (induction fs arbitrary: m)
  case (Cons f fs)
  from Cons.IH [of "count_severity E m f"] show ?case
    by (auto simp: count_severity_def Let_def split: option.splits)
qed (auto split: option.splits)

lemma severity_counts_lookup:
  "s \<in> set (severity_names @ [''unknown'']) \<Longrightarrow>
    map_of (severity_counts E fs) s = Some (length (filter (\<lambda>f. extractSeverity E f = s) fs))"
  by (auto simp: severity_counts_def severity_counts_from severity_names_def)


section \<open>The parts of a finding\<close>

lemma index_of_at: "c \<notin> set u \<Longrightarrow> index_of (u @ [c] @ v) [c] = Some (length u)"
  by (induction u) auto

lemma index_of_mark:
  "CHR '' '' \<notin> set h \<Longrightarrow> index_of (h @ '' - '' @ v) '' - '' = Some (length h)"
  by (induction h) auto

definition finding_line :: "string \<Rightarrow> string \<Rightarrow> string \<Rightarrow> string" where
  "finding_line sev h rest = ''['' @ sev @ ''] '' @ h @ '' - '' @ rest"

lemma finding_bracket:
  assumes "CHR '']'' \<notin> set sev"
  shows "index_of (finding_line sev h rest) '']'' = Some (Suc (length sev))"
  using index_of_at [of "CHR '']''" "CHR ''['' # sev" "'' '' @ h @ '' - '' @ rest"] assms
  by (simp add: finding_line_def)

lemma extractHost_line:
  assumes "CHR '']'' \<notin> set sev" "CHR '' '' \<notin> set h"
  shows "extractHost (finding_line sev h rest) = h"
proof -
  have "drop (Suc (length sev) + 2) (finding_line sev h rest) = h @ '' - '' @ rest"
    by (simp add: finding_line_def)
  moreover have "Suc (length sev) + 2 < length (finding_line sev h rest)"
    by (simp add: finding_line_def)
  ultimately show ?thesis
    using finding_bracket [OF assms(1), of h rest] index_of_mark [OF assms(2), of rest]
    by (simp add: extractHost_def)
qed

lemma extractSeverity_line:
  assumes "CHR '']'' \<notin> set sev"
  shows "extractSeverity E (finding_line sev h rest) =
    (let s = to_lower E (trim_space sev) in if s \<in> set severity_names then s else ''unknown'')"
proof -
  have "has_prefix (finding_line sev h rest) ''[''" by (simp add: finding_line_def)
  moreover have "drop 1 (take (Suc (length sev)) (finding_line sev h rest)) = sev" by (simp add: finding_line_def)
  ultimately show ?thesis
    using finding_bracket [OF assms, of h rest] by (simp add: extractSeverity_def)
qed

lemma severity_name_plain:
  assumes "sev \<in> set severity_names"
  shows "CHR '']'' \<notin> set sev" "to_lower E (trim_space sev) = sev" "is_ascii sev"
proof -
  have "list_all (\<lambda>s. CHR '']'' \<notin> set s \<and> is_ascii s \<and> no_outer_space s \<and> is_lower_ascii s) severity_names"
    by (simp add: severity_names_def is_space_def no_outer_space_def is_lower_ascii_def byte_def)
  with assms show "CHR '']'' \<notin> set sev" "to_lower E (trim_space sev) = sev" "is_ascii sev"
    by (auto simp: list_all_iff trim_space_id to_lower_id)
qed

section \<open>Properties\<close>

text \<open>
  C22: in whatever order the map of hosts is walked, the report is the reference text: the
  count of each severity, and per host in sorted order exactly its findings in their order.
\<close>

theorem report_reference:
  assumes "\<And>ks. mset (walk_keys E ks) = mset ks"
  shows "RenderFindings E findings meta =
    report_header E meta
    @ ''## Severity Distribution'' @ newline @ newline
    @ ''| Severity | Count |'' @ newline @ ''|----------|-------|'' @ newline
    @ concat (map (\<lambda>s. ''| '' @ title E s @ '' | ''
        @ nat_digits (length (filter (\<lambda>f. extractSeverity (rtext E) f = s) findings)) @ '' |'' @ newline)
      (severity_names @ [''unknown''])) @ newline
    @ ''## Findings by Host'' @ newline @ newline
    @ concat (map (\<lambda>h. ''### '' @ h @ newline @ newline
        @ concat (map (\<lambda>f. ''- '' @ f @ newline) (filter (\<lambda>f. extractHost f = h) findings)) @ newline)
      (sorted_list_of_set (extractHost ` set findings)))
    @ (if findings = [] then ''_No findings._'' @ newline else [])"
proof -
  let ?names = "severity_names @ [''unknown'']" and ?hosts = "sorted_list_of_set (extractHost ` set findings)"
  have rows: "map (severity_row E (severity_counts (rtext E) findings)) ?names =
      map (\<lambda>s. ''| '' @ title E s @ '' | ''
        @ nat_digits (length (filter (\<lambda>f. extractSeverity (rtext E) f = s) findings)) @ '' |'' @ newline) ?names"
    by (rule map_cong [OF refl]) (simp only: severity_row_def severity_counts_lookup option.case)
  have sections: "map (host_section (groupByHost findings)) ?hosts =
      map (\<lambda>h. ''### '' @ h @ newline @ newline
        @ concat (map (\<lambda>f. ''- '' @ f @ newline) (filter (\<lambda>f. extractHost f = h) findings)) @ newline) ?hosts"
    by (rule map_cong [OF refl]) (auto simp: host_section_def groupByHost_lookup(2))
  show ?thesis
    unfolding RenderFindings_def Let_def sortedKeys_eq [OF assms] rows sections by (rule refl)
qed

text \<open>A walk that is not the order of insertion.\<close>

definition demo_report_env :: report_env where
  "demo_report_env = \<lparr> rtext = ascii_env, title = id, walk_keys = rev, rnow = 0, file_now = 0,
     cache_dir = Inr ''/c'', mkdir_err = (\<lambda>_. None), write_err = (\<lambda>_ _. None) \<rparr>"

definition demo_meta :: ReportMeta where
  "demo_meta = \<lparr> RProgramID = ''acme'', RTool = ''nuclei'', RTemplateDir = [], RTargets = [''a'', ''b''],
     RDuration = ''1s'', RMetaDryRun = False, StartTime = None \<rparr>"

lemma ends_append: "\<exists>pre. t = pre @ s \<Longrightarrow> \<exists>pre. u @ t = pre @ s"
  by (metis append_assoc)

theorem report_reference_witness:
  "\<exists>pre. RenderFindings demo_report_env [finding_line ''high'' ''b'' ''n (t)'', finding_line ''low'' ''a'' ''n (t)''] demo_meta =
    pre @ concat [''### '' @ ''a'' @ newline @ newline @ concat [''- '' @ finding_line ''low'' ''a'' ''n (t)'' @ newline] @ newline,
      ''### '' @ ''b'' @ newline @ newline @ concat [''- '' @ finding_line ''high'' ''b'' ''n (t)'' @ newline] @ newline]"
proof -
  let ?fs = "[finding_line ''high'' ''b'' ''n (t)'', finding_line ''low'' ''a'' ''n (t)'']"
  have h: "extractHost (finding_line ''high'' ''b'' ''n (t)'') = ''b''" "extractHost (finding_line ''low'' ''a'' ''n (t)'') = ''a''"
    by (rule extractHost_line; simp)+
  have "sort (remdups [''b'', ''a'']) = [''a'', ''b'']" by code_simp
  with h have hosts: "sorted_list_of_set (extractHost ` set ?fs) = [''a'', ''b'']"
    using sorted_list_of_set_sort_remdups [of "[''b'', ''a'']"] by simp
  have groups: "filter (\<lambda>f. extractHost f = ''a'') ?fs = [finding_line ''low'' ''a'' ''n (t)'']"
    "filter (\<lambda>f. extractHost f = ''b'') ?fs = [finding_line ''high'' ''b'' ''n (t)'']"
    using h by simp_all
  have ne: "(?fs = []) = False" by simp
  have "mset (walk_keys demo_report_env ks) = mset ks" for ks by (simp add: demo_report_env_def)
  from report_reference [OF this, of ?fs demo_meta] show ?thesis
    unfolding hosts list.map groups ne if_False append_Nil2
    by (elim ssubst) (intro ends_append exI [of _ "[]"], simp only: append_Nil)
qed

end
