(* ===== verification/Specialist.thy ===== *)
theory Specialist
  imports Adapter Report
begin

text \<open>
  internal/specialist: the three agents behind the interface \<open>Specialist\<close>. Each filters its
  targets through the server, hands the rest to an adapter and packs the result; Gate asks for
  approval and for the state of the kill switch first. Durations are left out.
\<close>

section \<open>Data\<close>

record SpecConfig =
  BBOTBinary :: string
  NucleiBinary :: string
  TemplateDir :: string
  MCPURL :: string
  MCPAPIKey :: string
  SProgramID :: string
  SProxyURL :: string
  SVPNContainer :: string
  SDryRun :: bool
  AllowExploitation :: bool
  OutputDir :: string

record severityBuckets =
  Info :: "string list"
  Low :: "string list"
  Medium :: "string list"
  High :: "string list"
  Critical :: "string list"
  Unknown :: "string list"

datatype details =
    KillSwitchBlocked
  | GateDetails "string list" nat string
  | ReconDetails "string list" nat string
  | VulnDetails severityBuckets nat string "string option"

datatype spec_note = NoNote | KillSwitchIsActive | ToolReported "tool_err list"

record SpecResult =
  SName :: string
  TargetsIn :: nat
  TargetsPassed :: nat
  SBlocked :: nat
  SFindings :: nat
  SRDryRun :: bool
  SNote :: spec_note
  Details :: details

datatype spec_err = NeedsApproval | KillSwitchCheck client_err | ToolRun adapter_err

definition mcpClient :: "SpecConfig \<Rightarrow> MCPClient" where
  "mcpClient cfg = NewMCPClientWithAPIKey (MCPURL cfg) (SProgramID cfg) (MCPAPIKey cfg)"

definition filterScope ::
  "adapter_env \<Rightarrow> string list \<Rightarrow> SpecConfig \<Rightarrow> adapter_state \<Rightarrow> string list \<times> string list \<times> adapter_state" where
  "filterScope E targets cfg s = filter_scope E (mcpClient cfg) targets s"

definition tool_note :: "tool_err list \<Rightarrow> spec_note" where
  "tool_note errs = (if errs = [] then NoNote else ToolReported errs)"

section \<open>Recon\<close>

definition recon_config :: "SpecConfig \<Rightarrow> BBOTConfig" where
  "recon_config cfg = \<lparr> BBinaryPath = BBOTBinary cfg, BMCPClient = Some (mcpClient cfg), BDryRun = SDryRun cfg,
     BProxyURL = SProxyURL cfg, BNoProxy = False, BVPNContainer = SVPNContainer cfg, BProgramID = [], BStore = False \<rparr>"

definition Recon_Run ::
  "adapter_env \<Rightarrow> string list \<Rightarrow> SpecConfig \<Rightarrow> adapter_state \<Rightarrow> (spec_err, SpecResult) result \<times> adapter_state" where
  "Recon_Run E targets cfg s0 =
    (let (inScope, blocked, s1) = filterScope E targets cfg s0 in
     case RunBBOT E (recon_config cfg) inScope s1 of
       (Inl e, s2) \<Rightarrow> (Inl (ToolRun e), s2)
     | (Inr res, s2) \<Rightarrow>
       (Inr \<lparr> SName = ''recon'', TargetsIn = length targets, TargetsPassed = length inScope,
              SBlocked = length blocked, SFindings = length (Found res), SRDryRun = SDryRun cfg,
              SNote = tool_note (ToolErrors res),
              Details = ReconDetails (Found res) (TargetsScanned res) (RawOutput res) \<rparr>, s2))"

section \<open>Vuln\<close>

definition nuclei_config :: "SpecConfig \<Rightarrow> string list \<Rightarrow> NucleiConfig" where
  "nuclei_config cfg severities = \<lparr> NBinaryPath = NucleiBinary cfg, NMCPClient = Some (mcpClient cfg),
     NDryRun = SDryRun cfg, NTemplateDir = TemplateDir cfg, NSeverities = severities,
     NProxyURL = SProxyURL cfg, NVPNContainer = SVPNContainer cfg \<rparr>"

definition add_bucket :: "text_env \<Rightarrow> severityBuckets \<Rightarrow> string \<Rightarrow> severityBuckets" where
  "add_bucket E b f =
    (if \<not> has_prefix f ''['' then b\<lparr> Unknown := Unknown b @ [f] \<rparr>
     else (case index_of f '']'' of None \<Rightarrow> b\<lparr> Unknown := Unknown b @ [f] \<rparr>
       | Some e \<Rightarrow>
         (let severity = to_lower E (trim_space (drop 1 (take e f)))
          in if severity = ''info'' then b\<lparr> Info := Info b @ [f] \<rparr>
             else if severity = ''low'' then b\<lparr> Low := Low b @ [f] \<rparr>
             else if severity = ''medium'' then b\<lparr> Medium := Medium b @ [f] \<rparr>
             else if severity = ''high'' then b\<lparr> High := High b @ [f] \<rparr>
             else if severity = ''critical'' then b\<lparr> Critical := Critical b @ [f] \<rparr>
             else b\<lparr> Unknown := Unknown b @ [f] \<rparr>)))"

definition bucketBySeverity :: "text_env \<Rightarrow> string list \<Rightarrow> severityBuckets" where
  "bucketBySeverity E fs =
    foldl (add_bucket E) \<lparr> Info = [], Low = [], Medium = [], High = [], Critical = [], Unknown = [] \<rparr> fs"

text \<open>The report of a run that found something; a failure to write it is dropped.\<close>

definition vuln_report ::
  "report_env \<Rightarrow> SpecConfig \<Rightarrow> string list \<Rightarrow> string list \<Rightarrow> string \<Rightarrow> string option \<times> (string \<times> string) option" where
  "vuln_report R cfg targets found duration =
    (if \<not> SDryRun cfg \<and> found \<noteq> []
     then (case WriteReport R found
             \<lparr> RProgramID = SProgramID cfg, RTool = ''nuclei'', RTemplateDir = TemplateDir cfg, RTargets = targets,
               RDuration = duration, RMetaDryRun = False, StartTime = None \<rparr> (OutputDir cfg) of
             (Inl _, w) \<Rightarrow> (None, w) | (Inr p, w) \<Rightarrow> (Some p, w))
     else (None, None))"

text \<open>The third component is the report file the run wrote.\<close>

definition Vuln_Run ::
  "adapter_env \<Rightarrow> report_env \<Rightarrow> string \<Rightarrow> string list \<Rightarrow> SpecConfig \<Rightarrow> adapter_state
    \<Rightarrow> (spec_err, SpecResult) result \<times> adapter_state \<times> (string \<times> string) option" where
  "Vuln_Run E R duration targets cfg s0 =
    (let (inScope, blocked, s1) = filterScope E targets cfg s0 in
     case RunNuclei E (nuclei_config cfg [''info'', ''low'']) inScope s1 of
       (Inl e, s2) \<Rightarrow> (Inl (ToolRun e), s2, None)
     | (Inr res, s2) \<Rightarrow>
       (let (path, written) = vuln_report R cfg targets (Found res) duration
        in (Inr \<lparr> SName = ''vuln'', TargetsIn = length targets, TargetsPassed = length inScope,
              SBlocked = length blocked, SFindings = length (Found res), SRDryRun = SDryRun cfg,
              SNote = tool_note (ToolErrors res),
              Details = VulnDetails (bucketBySeverity (atext E) (Found res)) (TargetsScanned res) (RawOutput res) path \<rparr>,
            s2, written)))"

section \<open>Gate\<close>

text \<open>Unlike the adapter's client, this call sends the key as configured and reads no status code.\<close>

definition kill_headers :: "SpecConfig \<Rightarrow> header" where
  "kill_headers cfg =
    (let h = header_set ''Content-Type'' ''application/json'' []
     in if MCPAPIKey cfg \<noteq> [] then header_set ''Authorization'' (''Bearer '' @ MCPAPIKey cfg) h else h)"

definition decode_active :: "text_env \<Rightarrow> json \<Rightarrow> bool option" where
  "decode_active E v =
    (case struct_members v of None \<Rightarrow> None | Some ms \<Rightarrow> decode_field E ''active'' set_bool False ms)"

definition killSwitchActive :: "adapter_env \<Rightarrow> SpecConfig \<Rightarrow> nat \<Rightarrow> (client_err, bool) result" where
  "killSwitchActive E cfg n =
    (let target = ClientURL (mcpClient cfg) @ ''/mcp'' in
     case url_parse target of Inl e \<Rightarrow> Inl (CreateRequest e)
     | Inr _ \<Rightarrow>
       (case post E n target (kill_headers cfg) (json_print (tool_call ''is_kill_switch_active'' [])) of
          Inl e \<Rightarrow> Inl (RequestFailed e)
        | Inr (_, body) \<Rightarrow>
          (case json_decode body of None \<Rightarrow> Inl DecodeResponse
           | Some v \<Rightarrow>
             (case MCPResponse (atext E) v of None \<Rightarrow> Inl DecodeResponse
              | Some (_, Some (code, m)) \<Rightarrow> Inl (MCPError code m)
              | Some (None, None) \<Rightarrow> Inl UnmarshalResult
              | Some (Some r, None) \<Rightarrow>
                (case decode_active (atext E) r of None \<Rightarrow> Inl UnmarshalResult | Some b \<Rightarrow> Inr b)))))"

definition gate_blocked :: "string list \<Rightarrow> SpecConfig \<Rightarrow> SpecResult" where
  "gate_blocked targets cfg =
    \<lparr> SName = ''gate'', TargetsIn = length targets, TargetsPassed = 0, SBlocked = length targets, SFindings = 0,
      SRDryRun = SDryRun cfg, SNote = KillSwitchIsActive, Details = KillSwitchBlocked \<rparr>"

definition Gate_Run ::
  "adapter_env \<Rightarrow> string list \<Rightarrow> SpecConfig \<Rightarrow> adapter_state \<Rightarrow> (spec_err, SpecResult) result \<times> adapter_state" where
  "Gate_Run E targets cfg s0 =
    (if \<not> AllowExploitation cfg then (Inl NeedsApproval, s0)
     else
       (let s1 = s0\<lparr> requests := Suc (requests s0) \<rparr> in
        case killSwitchActive E cfg (requests s0) of
          Inl e \<Rightarrow> (Inl (KillSwitchCheck e), s1)
        | Inr True \<Rightarrow> (Inr (gate_blocked targets cfg), s1)
        | Inr False \<Rightarrow>
          (let (inScope, blocked, s2) = filterScope E targets cfg s1 in
           case RunNuclei E (nuclei_config cfg [''medium'', ''high'', ''critical'']) inScope s2 of
             (Inl e, s3) \<Rightarrow> (Inl (ToolRun e), s3)
           | (Inr res, s3) \<Rightarrow>
             (Inr \<lparr> SName = ''gate'', TargetsIn = length targets, TargetsPassed = length inScope,
                SBlocked = length blocked, SFindings = length (Found res), SRDryRun = SDryRun cfg,
                SNote = tool_note (ToolErrors res),
                Details = GateDetails (Found res) (TargetsScanned res) (RawOutput res) \<rparr>, s3))))"


section \<open>What every specialist keeps\<close>

text \<open>
  A command a specialist may run: a version probe, or a scan through a valid proxy of hosts the
  server let through.
\<close>

definition proxied_scan :: "adapter_env \<Rightarrow> SpecConfig \<Rightarrow> string list \<Rightarrow> string list \<Rightarrow> command \<Rightarrow> bool" where
  "proxied_scan E cfg targets hosts cmd =
    (validateProxyURL (SProxyURL cfg) = None \<and> SVPNContainer cfg = [] \<and> \<not> SDryRun cfg \<and>
     command_env cmd = proxyEnvironment E (SProxyURL cfg) \<and>
     hosts \<noteq> [] \<and> (\<forall>h\<in>set hosts. h \<in> set targets \<and> (\<exists>n. server_allows E (mcpClient cfg) n h)) \<and>
     ((\<exists>v. command_args cmd = bbotArgs hosts (SProxyURL cfg) False v) \<or>
      (\<exists>tmp v sevs. command_args cmd = nucleiArgs (TemplateDir cfg) hosts tmp v @ [''-severity'', join '','' sevs]
         @ [''-proxy'', SProxyURL cfg] \<and>
         (sevs = [''info'', ''low''] \<or> AllowExploitation cfg \<and> sevs = [''medium'', ''high'', ''critical'']))))"

definition permitted_command :: "adapter_env \<Rightarrow> SpecConfig \<Rightarrow> string list \<Rightarrow> command \<Rightarrow> bool" where
  "permitted_command E cfg targets cmd =
    ((\<exists>bin. cmd = version_probe E bin) \<or> (\<exists>hosts. proxied_scan E cfg targets hosts cmd))"

locale specialist =
  fixes env :: adapter_env
    and run :: "string list \<Rightarrow> SpecConfig \<Rightarrow> adapter_state \<Rightarrow> (spec_err, SpecResult) result \<times> adapter_state"
  assumes commands_permitted: "run targets cfg s0 = (r, s) \<Longrightarrow>
      \<exists>cmds. commands s = commands s0 @ cmds \<and> (\<forall>cmd\<in>set cmds. permitted_command env cfg targets cmd)"
    and dry_run: "run targets cfg s0 = (r, s) \<Longrightarrow> SDryRun cfg \<Longrightarrow> commands s = commands s0"
    and counts: "run targets cfg s0 = (Inr res, s) \<Longrightarrow>
      TargetsIn res = length targets \<and> TargetsPassed res + SBlocked res = length targets"
    and nothing_recorded: "run targets cfg s0 = (r, s) \<Longrightarrow> recorded s = recorded s0"
begin

lemma run_permitted:
  "\<exists>cmds. commands (snd (run targets cfg s0)) = commands s0 @ cmds \<and> (SDryRun cfg \<longrightarrow> cmds = []) \<and>
    recorded (snd (run targets cfg s0)) = recorded s0 \<and>
    (\<forall>cmd\<in>set cmds. permitted_command env cfg targets cmd)"
proof -
  obtain r s where run: "run targets cfg s0 = (r, s)" by fastforce
  from commands_permitted [OF run] dry_run [OF run] nothing_recorded [OF run] run show ?thesis by fastforce
qed

end

lemma filterScope_obtain:
  obtains blocked where "filterScope E targets cfg s =
      (allowed_hosts E (mcpClient cfg) (requests s) targets, blocked, s\<lparr> requests := requests s + length targets \<rparr>)"
    "length (allowed_hosts E (mcpClient cfg) (requests s) targets) + length blocked = length targets"
  unfolding filterScope_def by (rule filter_scope_obtain)

lemma allowed_twice:
  assumes "h \<in> set (allowed_hosts E c m (allowed_hosts E c n targets))"
  shows "h \<in> set targets \<and> (\<exists>n. server_allows E c n h)"
  using allowed_hosts_answer [OF assms] allowed_hosts_sub [of E c n targets]
    allowed_hosts_sub [of E c m "allowed_hosts E c n targets"] assms by blast

lemma recon_scan:
  assumes "RunBBOT E (recon_config cfg) (allowed_hosts E (mcpClient cfg) n targets) s0 = (r, s)"
  shows "recorded s = recorded s0 \<and> (commands s = commands s0 \<or>
    (\<exists>hosts cmd. commands s = commands s0 @ [version_probe E (BBOTBinary cfg), cmd] \<and>
      proxied_scan E cfg targets hosts cmd))"
  using assms
proof (cases rule: RunBBOT_cases)
  case (scan c res0 res)
  let ?hosts = "allowed_hosts E c (requests s0) (allowed_hosts E (mcpClient cfg) n targets)"
  from bbot_scan_state [OF scan(7)] obtain v where
    v: "commands s = commands s0 @ [version_probe E (BBOTBinary cfg), bbot_command E (recon_config cfg) ?hosts v]"
      "recorded s = recorded s0"
    by (auto simp: recon_config_def)
  have "proxied_scan E cfg targets ?hosts (bbot_command E (recon_config cfg) ?hosts v)"
    using scan allowed_twice [of _ E c "requests s0" n targets]
    by (auto simp: proxied_scan_def bbot_command_def recon_config_def bbot_guard_def split: if_splits option.splits)
  with v show ?thesis by blast
qed simp_all

lemma nuclei_scan_permitted:
  assumes "RunNuclei E (nuclei_config cfg sevs) (allowed_hosts E (mcpClient cfg) n targets) s0 = (r, s)"
    and sevs: "sevs = [''info'', ''low''] \<or> AllowExploitation cfg \<and> sevs = [''medium'', ''high'', ''critical'']"
  shows "recorded s = recorded s0 \<and> (commands s = commands s0 \<or>
    (\<not> SDryRun cfg \<and> commands s = commands s0 @ [version_probe E (NucleiBinary cfg)]) \<or>
    (\<exists>hosts cmd tmp v. commands s = commands s0 @ [version_probe E (NucleiBinary cfg), cmd] \<and>
      proxied_scan E cfg targets hosts cmd \<and>
      command_args cmd = nucleiArgs (TemplateDir cfg) hosts tmp v @ [''-severity'', join '','' sevs]
        @ [''-proxy'', SProxyURL cfg]))"
  using assms(1)
proof (cases rule: RunNuclei_cases)
  case (scan c res0)
  note outer = scan
  have ne: "severities_of (nuclei_config cfg sevs) = sevs" using sevs by (auto simp: severities_of_def nuclei_config_def)
  from scan(7) show ?thesis
  proof (cases rule: nuclei_scan_cases)
    case no_scan
    then show ?thesis using outer by (auto simp: nuclei_config_def)
  next
    case (scan tmp v out err res)
    let ?hosts = "allowed_hosts E c (requests s0) (allowed_hosts E (mcpClient cfg) n targets)"
    let ?cmd = "nuclei_command E (nuclei_config cfg sevs) tmp ?hosts v"
    have "proxied_scan E cfg targets ?hosts ?cmd"
      using outer sevs ne allowed_twice [of _ E c "requests s0" n targets]
      by (auto simp: proxied_scan_def nuclei_command_def nuclei_config_def nuclei_guard_def
          split: if_splits option.splits)
    moreover have "command_args ?cmd = nucleiArgs (TemplateDir cfg) ?hosts tmp v @ [''-severity'', join '','' sevs]
        @ [''-proxy'', SProxyURL cfg]"
      by (simp only: nuclei_command_def ne command.sel) (simp add: nuclei_config_def)
    moreover have "commands s = commands s0 @ [version_probe E (NucleiBinary cfg), ?cmd]" "recorded s = recorded s0"
      using scan by (simp_all add: nuclei_config_def)
    ultimately show ?thesis by blast
  qed
qed simp_all


text \<open>The trace of a run: nothing, a probe, or a probe and a scan.\<close>

definition run_trace :: "adapter_env \<Rightarrow> SpecConfig \<Rightarrow> string list \<Rightarrow> adapter_state \<Rightarrow> adapter_state \<Rightarrow> bool" where
  "run_trace E cfg targets s0 s =
    (recorded s = recorded s0 \<and> (SDryRun cfg \<longrightarrow> commands s = commands s0) \<and>
     (\<exists>cmds. commands s = commands s0 @ cmds \<and> (\<forall>cmd\<in>set cmds. permitted_command E cfg targets cmd)))"

lemma run_trace_same: "commands s = commands s0 \<Longrightarrow> recorded s = recorded s0 \<Longrightarrow> run_trace E cfg targets s0 s"
  by (simp add: run_trace_def)

lemma run_trace_scan:
  assumes "recorded s = recorded s0"
    and "commands s = commands s0 \<or> (\<not> SDryRun cfg \<and> commands s = commands s0 @ [version_probe E bin]) \<or>
      (\<exists>hosts cmd. commands s = commands s0 @ [version_probe E bin, cmd] \<and> proxied_scan E cfg targets hosts cmd)"
  shows "run_trace E cfg targets s0 s"
proof -
  have "permitted_command E cfg targets (version_probe E bin)"
    "\<And>hosts cmd. proxied_scan E cfg targets hosts cmd \<Longrightarrow> permitted_command E cfg targets cmd"
    "\<And>hosts cmd. proxied_scan E cfg targets hosts cmd \<Longrightarrow> \<not> SDryRun cfg"
    by (auto simp: permitted_command_def) (simp add: proxied_scan_def)
  with assms show ?thesis by (auto simp: run_trace_def)
qed

lemma Recon_trace:
  assumes "Recon_Run E targets cfg s0 = (r, s)"
  shows "run_trace E cfg targets s0 s \<and>
    (\<forall>res. r = Inr res \<longrightarrow> TargetsIn res = length targets \<and> TargetsPassed res + SBlocked res = length targets)"
proof -
  let ?in = "allowed_hosts E (mcpClient cfg) (requests s0) targets"
  let ?s1 = "s0\<lparr> requests := requests s0 + length targets \<rparr>"
  obtain blocked where f: "filterScope E targets cfg s0 = (?in, blocked, ?s1)"
    and n: "length ?in + length blocked = length targets" by (rule filterScope_obtain)
  obtain q s2 where b: "RunBBOT E (recon_config cfg) ?in ?s1 = (q, s2)" by fastforce
  from recon_scan [OF b] have t: "run_trace E cfg targets s0 s2"
    by (intro run_trace_scan [of _ _ _ _ "BBOTBinary cfg"]) auto
  show ?thesis using assms t n unfolding Recon_Run_def f by (auto simp: b split: sum.splits)
qed

lemma Vuln_trace:
  assumes "Vuln_Run E R d targets cfg s0 = (r, s, w)"
  shows "run_trace E cfg targets s0 s \<and>
    (\<forall>res. r = Inr res \<longrightarrow> TargetsIn res = length targets \<and> TargetsPassed res + SBlocked res = length targets)"
proof -
  let ?in = "allowed_hosts E (mcpClient cfg) (requests s0) targets"
  let ?s1 = "s0\<lparr> requests := requests s0 + length targets \<rparr>"
  obtain blocked where f: "filterScope E targets cfg s0 = (?in, blocked, ?s1)"
    and n: "length ?in + length blocked = length targets" by (rule filterScope_obtain)
  obtain q s2 where b: "RunNuclei E (nuclei_config cfg [''info'', ''low'']) ?in ?s1 = (q, s2)" by fastforce
  from nuclei_scan_permitted [OF b] have t: "run_trace E cfg targets s0 s2"
    by (intro run_trace_scan [of _ _ _ _ "NucleiBinary cfg"]) auto
  show ?thesis using assms t n unfolding Vuln_Run_def f by (auto simp: b split: sum.splits prod.splits)
qed

lemma Gate_cases:
  assumes "Gate_Run E targets cfg s0 = (r, s)"
  obtains (no_run) "commands s = commands s0" "recorded s = recorded s0"
      "\<And>res. r = Inr res \<Longrightarrow> res = gate_blocked targets cfg \<and> AllowExploitation cfg"
  | (run) q s1 where "AllowExploitation cfg" "killSwitchActive E cfg (requests s0) = Inr False"
      "RunNuclei E (nuclei_config cfg [''medium'', ''high'', ''critical''])
        (allowed_hosts E (mcpClient cfg) (Suc (requests s0)) targets) s1 = (q, s)"
      "commands s1 = commands s0" "recorded s1 = recorded s0"
      "\<And>res. r = Inr res \<Longrightarrow> TargetsIn res = length targets \<and> TargetsPassed res + SBlocked res = length targets"
proof (cases "AllowExploitation cfg \<and> killSwitchActive E cfg (requests s0) = Inr False")
  case False
  then show ?thesis using assms no_run unfolding Gate_Run_def
    by (cases "killSwitchActive E cfg (requests s0)") (auto split: if_splits bool.splits)
next
  case True
  let ?s1 = "s0\<lparr> requests := Suc (requests s0) \<rparr>"
  let ?s2 = "s0\<lparr> requests := Suc (requests s0 + length targets) \<rparr>"
  obtain blocked where "filterScope E targets cfg ?s1 = (allowed_hosts E (mcpClient cfg) (requests ?s1) targets, blocked,
      ?s1\<lparr> requests := requests ?s1 + length targets \<rparr>)"
    and "length (allowed_hosts E (mcpClient cfg) (requests ?s1) targets) + length blocked = length targets"
    by (rule filterScope_obtain)
  then have f: "filterScope E targets cfg ?s1 = (allowed_hosts E (mcpClient cfg) (Suc (requests s0)) targets, blocked, ?s2)"
    and n: "length (allowed_hosts E (mcpClient cfg) (Suc (requests s0)) targets) + length blocked = length targets"
    by simp_all
  show ?thesis
    using True assms n unfolding Gate_Run_def
    by (intro run [of ?s2 "fst (RunNuclei E (nuclei_config cfg [''medium'', ''high'', ''critical''])
        (allowed_hosts E (mcpClient cfg) (Suc (requests s0)) targets) ?s2)"])
      (auto simp: f split: sum.splits prod.splits)
qed

lemma Gate_trace:
  assumes "Gate_Run E targets cfg s0 = (r, s)"
  shows "run_trace E cfg targets s0 s \<and>
    (\<forall>res. r = Inr res \<longrightarrow> TargetsIn res = length targets \<and> TargetsPassed res + SBlocked res = length targets)"
  using assms
proof (cases rule: Gate_cases)
  case no_run
  then show ?thesis by (auto simp: run_trace_same gate_blocked_def)
next
  case (run q s1)
  with nuclei_scan_permitted [OF run(3)] show ?thesis
    by (auto intro!: run_trace_scan [of _ _ _ _ "NucleiBinary cfg"])
qed

text \<open>Vuln behind the interface, which does not see the report file.\<close>

definition vuln_run ::
  "adapter_env \<Rightarrow> report_env \<Rightarrow> string \<Rightarrow> string list \<Rightarrow> SpecConfig \<Rightarrow> adapter_state
    \<Rightarrow> (spec_err, SpecResult) result \<times> adapter_state" where
  "vuln_run E R d targets cfg s0 = (case Vuln_Run E R d targets cfg s0 of (r, s, _) \<Rightarrow> (r, s))"

lemma specialistI:
  assumes "\<And>targets cfg s0 r s. run targets cfg s0 = (r, s) \<Longrightarrow> run_trace E cfg targets s0 s \<and>
    (\<forall>res. r = Inr res \<longrightarrow> TargetsIn res = length targets \<and> TargetsPassed res + SBlocked res = length targets)"
  shows "specialist E run"
  by unfold_locales (use assms in \<open>auto simp: run_trace_def\<close>)

interpretation recon: specialist E "Recon_Run E" for E
  by (rule specialistI) (rule Recon_trace)

interpretation vuln: specialist E "vuln_run E R d" for E R d
  by (rule specialistI) (auto simp: vuln_run_def split: prod.splits dest: Vuln_trace)

interpretation gate: specialist E "Gate_Run E" for E
  by (rule specialistI) (rule Gate_trace)


section \<open>Any sequence of runs\<close>

text \<open>The map \<open>specialists\<close> the server registers, and a sequence of calls through it.\<close>

definition specialists ::
  "adapter_env \<Rightarrow> report_env \<Rightarrow> string
    \<Rightarrow> (string, string list \<Rightarrow> SpecConfig \<Rightarrow> adapter_state \<Rightarrow> (spec_err, SpecResult) result \<times> adapter_state) gomap" where
  "specialists E R d =
    [(''run_recon_specialist'', Recon_Run E), (''run_vuln_specialist'', vuln_run E R d),
     (''run_gate_specialist'', Gate_Run E)]"

definition run_call ::
  "adapter_env \<Rightarrow> report_env \<Rightarrow> string \<Rightarrow> adapter_state \<Rightarrow> string \<times> string list \<times> SpecConfig \<Rightarrow> adapter_state" where
  "run_call E R d s call =
    (let (name, targets, cfg) = call in
     case map_of (specialists E R d) name of None \<Rightarrow> s | Some run \<Rightarrow> snd (run targets cfg s))"

lemma run_call_permitted:
  "\<exists>cmds. commands (run_call E R d s (name, targets, cfg)) = commands s @ cmds \<and> (SDryRun cfg \<longrightarrow> cmds = []) \<and>
    recorded (run_call E R d s (name, targets, cfg)) = recorded s \<and>
    (\<forall>cmd\<in>set cmds. permitted_command E cfg targets cmd)"
  using recon.run_permitted [of E targets cfg s] vuln.run_permitted [of E R d targets cfg s]
    gate.run_permitted [of E targets cfg s]
  by (auto simp: run_call_def specialists_def)

section \<open>Properties\<close>

text \<open>
  C18: whatever sequence of specialist runs is made, with any configurations, every command
  that starts is a version probe or a scan through a valid proxy of targets the server let
  through, never in a dry run, with the severities of Gate only under its approval; no run
  records assets.
\<close>

theorem specialist_sessions:
  "\<exists>cmds. commands (foldl (run_call E R d) s0 calls) = commands s0 @ cmds \<and>
    recorded (foldl (run_call E R d) s0 calls) = recorded s0 \<and>
    (\<forall>cmd\<in>set cmds. \<exists>(name, targets, cfg)\<in>set calls.
       \<not> SDryRun cfg \<and> permitted_command E cfg targets cmd)"
proof (induction calls arbitrary: s0)
  case (Cons call calls)
  obtain name targets cfg where c: "call = (name, targets, cfg)" by (cases call)
  from run_call_permitted [of E R d s0 name targets cfg] Cons.IH [of "run_call E R d s0 call"] c obtain xs ys where
    "commands (run_call E R d s0 call) = commands s0 @ xs" "SDryRun cfg \<longrightarrow> xs = []"
    "recorded (run_call E R d s0 call) = recorded s0" "\<forall>cmd\<in>set xs. permitted_command E cfg targets cmd"
    "commands (foldl (run_call E R d) (run_call E R d s0 call) calls) = commands (run_call E R d s0 call) @ ys"
    "recorded (foldl (run_call E R d) (run_call E R d s0 call) calls) = recorded (run_call E R d s0 call)"
    "\<forall>cmd\<in>set ys. \<exists>(name, targets, cfg)\<in>set calls. \<not> SDryRun cfg \<and> permitted_command E cfg targets cmd"
    by blast
  then show ?case using c by (intro exI [of _ "xs @ ys"]) (cases "SDryRun cfg"; auto)
qed simp

text \<open>The switch is read as inactive from an answer of any status whose \<open>active\<close> member, if any, is not true.\<close>

lemma killSwitchActive_reply:
  assumes "killSwitchActive E cfg n = Inr b"
  shows "\<exists>status body v res ms. post E n (ClientURL (mcpClient cfg) @ ''/mcp'') (kill_headers cfg)
      (json_print (tool_call ''is_kill_switch_active'' [])) = Inr (status, body) \<and>
    json_decode body = Some v \<and> MCPResponse (atext E) v = Some (Some res, None) \<and>
    struct_members res = Some ms \<and> decode_field (atext E) ''active'' set_bool False ms = Some b"
  using assms
  by (auto simp: killSwitchActive_def decode_active_def Let_def simp del: json_print.simps
      split: sum.splits option.splits prod.splits)

text \<open>
  C19: Gate starts a command only when exploitation is approved, the run is not dry, and the
  server's reply to its request about the kill switch, whatever the HTTP status, decoded to
  a result whose active member is false or absent; the command is a version probe, followed
  by at most one scan with the severities medium, high and critical through the proxy.
\<close>

theorem gate_guarded:
  assumes "Gate_Run E targets cfg s0 = (r, s)" "commands s \<noteq> commands s0"
  shows "AllowExploitation cfg \<and> \<not> SDryRun cfg \<and>
    (\<exists>status body v res ms. post E (requests s0) (ClientURL (mcpClient cfg) @ ''/mcp'') (kill_headers cfg)
        (json_print (tool_call ''is_kill_switch_active'' [])) = Inr (status, body) \<and>
      json_decode body = Some v \<and> MCPResponse (atext E) v = Some (Some res, None) \<and>
      struct_members res = Some ms \<and> decode_field (atext E) ''active'' set_bool False ms = Some False) \<and>
    (commands s = commands s0 @ [version_probe E (NucleiBinary cfg)] \<or>
     (\<exists>hosts cmd tmp v. commands s = commands s0 @ [version_probe E (NucleiBinary cfg), cmd] \<and>
       proxied_scan E cfg targets hosts cmd \<and>
       command_args cmd = nucleiArgs (TemplateDir cfg) hosts tmp v
         @ [''-severity'', ''medium,high,critical''] @ [''-proxy'', SProxyURL cfg]))"
  using assms(1)
proof (cases rule: Gate_cases)
  case (run q s1)
  have "join '','' [''medium'', ''high'', ''critical''] = ''medium,high,critical''" by simp
  note scan = nuclei_scan_permitted [OF run(3), unfolded this run(4) run(5)]
  have dry: "proxied_scan E cfg targets hosts cmd \<Longrightarrow> \<not> SDryRun cfg" for hosts cmd by (simp add: proxied_scan_def)
  note said = killSwitchActive_reply [OF run(2)]
  from scan run(1) assms(2) consider "\<not> SDryRun cfg" "commands s = commands s0 @ [version_probe E (NucleiBinary cfg)]"
    | hosts cmd tmp v where "commands s = commands s0 @ [version_probe E (NucleiBinary cfg), cmd]"
      "proxied_scan E cfg targets hosts cmd" "command_args cmd = nucleiArgs (TemplateDir cfg) hosts tmp v
        @ [''-severity'', ''medium,high,critical''] @ [''-proxy'', SProxyURL cfg]" by blast
  then show ?thesis
  proof cases
    case 1
    then show ?thesis using run(1) said by blast
  next
    case 2
    then show ?thesis using run(1) said dry by blast
  qed
qed (use assms in simp_all)

lemma add_bucket_severity:
  "add_bucket E b f =
    (let s = extractSeverity E f
     in if s = ''info'' then b\<lparr> Info := Info b @ [f] \<rparr>
        else if s = ''low'' then b\<lparr> Low := Low b @ [f] \<rparr>
        else if s = ''medium'' then b\<lparr> Medium := Medium b @ [f] \<rparr>
        else if s = ''high'' then b\<lparr> High := High b @ [f] \<rparr>
        else if s = ''critical'' then b\<lparr> Critical := Critical b @ [f] \<rparr>
        else b\<lparr> Unknown := Unknown b @ [f] \<rparr>)"
proof (cases "has_prefix f ''['' \<and> index_of f '']'' \<noteq> None")
  case True
  then obtain e where "has_prefix f ''[''" "index_of f '']'' = Some e" by blast
  then show ?thesis
    by (cases "to_lower E (trim_space (drop 1 (take e f))) \<in> set severity_names")
      (simp_all add: add_bucket_def extractSeverity_def Let_def severity_names_def)
next
  case False
  then show ?thesis by (auto simp: add_bucket_def extractSeverity_def)
qed

lemma extractSeverity_range: "extractSeverity E f \<in> set (severity_names @ [''unknown''])"
  by (simp add: extractSeverity_def Let_def split: option.split)

text \<open>The bucket of a severity.\<close>

lemma buckets_from:
  "foldl (add_bucket E) b fs =
    \<lparr> Info = Info b @ filter (\<lambda>f. extractSeverity E f = ''info'') fs,
      Low = Low b @ filter (\<lambda>f. extractSeverity E f = ''low'') fs,
      Medium = Medium b @ filter (\<lambda>f. extractSeverity E f = ''medium'') fs,
      High = High b @ filter (\<lambda>f. extractSeverity E f = ''high'') fs,
      Critical = Critical b @ filter (\<lambda>f. extractSeverity E f = ''critical'') fs,
      Unknown = Unknown b @ filter (\<lambda>f. extractSeverity E f = ''unknown'') fs \<rparr>"
proof (induction fs arbitrary: b)
  case (Cons f fs)
  have "extractSeverity E f \<in> set (severity_names @ [''unknown''])" by (rule extractSeverity_range)
  then show ?case
    by (simp add: severity_names_def) (elim disjE; simp add: Cons.IH add_bucket_severity)
qed simp

text \<open>
  the buckets of Vuln and the severities of the report agree: each bucket holds, in
  order, the findings the report counts under that severity.
\<close>

theorem buckets_match_report:
  "bucketBySeverity E fs =
    \<lparr> Info = filter (\<lambda>f. extractSeverity E f = ''info'') fs,
      Low = filter (\<lambda>f. extractSeverity E f = ''low'') fs,
      Medium = filter (\<lambda>f. extractSeverity E f = ''medium'') fs,
      High = filter (\<lambda>f. extractSeverity E f = ''high'') fs,
      Critical = filter (\<lambda>f. extractSeverity E f = ''critical'') fs,
      Unknown = filter (\<lambda>f. extractSeverity E f = ''unknown'') fs \<rparr>"
  by (simp add: bucketBySeverity_def buckets_from)

lemma parse_nuclei_lines:
  "\<forall>(sev, h, n, t)\<in>set rows. is_ascii sev \<and> is_ascii h \<and> is_ascii n \<and> is_ascii t \<and> t \<noteq> [] \<Longrightarrow>
    List.map_filter (nuclei_finding E) (map nuclei_line rows) =
      map (\<lambda>(sev, h, n, t). finding_line sev h (n @ '' ('' @ t @ '')'')) rows"
  by (induction rows) (auto simp: List.map_filter_simps nuclei_finding_line finding_line_def)

text \<open>
  C21: from the JSON line of a finding through the finding string, the report reads back the
  severity and the host that Nuclei wrote.
\<close>

theorem nuclei_findings_round_trip:
  assumes "\<forall>(sev, h, n, t)\<in>set rows. sev \<in> set severity_names \<and> is_ascii h \<and> CHR '' '' \<notin> set h \<and>
    is_ascii n \<and> is_ascii t \<and> t \<noteq> []"
  shows "map (\<lambda>f. (extractSeverity E f, extractHost f)) (parseNucleiOutput E (join newline (map nuclei_line rows))) =
    map (\<lambda>(sev, h, n, t). (sev, h)) rows"
proof -
  let ?obj = "\<lambda>(sev, h, n, t). [(''template-id'', JStr t), (''name'', JStr n), (''severity'', JStr sev), (''host'', JStr h)]"
  have ascii: "\<forall>(sev, h, n, t)\<in>set rows. is_ascii sev \<and> is_ascii h \<and> is_ascii n \<and> is_ascii t \<and> t \<noteq> []"
    using assms severity_name_plain(3) by fast
  have lines: "map (json_print \<circ> JObj) (map ?obj rows) = map nuclei_line rows"
    by (simp add: nuclei_line_def comp_def case_prod_unfold del: json_print.simps)
  have "\<forall>ms\<in>set (map ?obj rows). json_plain (JObj ms)" using ascii by (auto simp: byte_def)
  from output_lines_printed [OF this] parse_nuclei_lines [OF ascii]
  have "parseNucleiOutput E (join newline (map nuclei_line rows)) =
      map (\<lambda>(sev, h, n, t). finding_line sev h (n @ '' ('' @ t @ '')'')) rows"
    by (simp only: parseNucleiOutput_def lines)
  with assms show ?thesis
    by (auto simp: extractHost_line extractSeverity_line severity_name_plain Let_def)
qed


theorem nuclei_findings_round_trip_witness:
  "map (\<lambda>f. (extractSeverity ascii_env f, extractHost f))
     (parseNucleiOutput ascii_env (join newline (map nuclei_line [(''high'', ''a.io'', ''n'', ''t'')]))) =
   [(''high'', ''a.io'')]"
  by (subst nuclei_findings_round_trip) (simp_all add: severity_names_def byte_def)

text \<open>The check of the kill switch reads no status code, and no \<open>active\<close> member means inactive.\<close>

lemma kill_switch_reply:
  assumes "\<not> is_err (url_parse (ClientURL (mcpClient cfg) @ ''/mcp''))" "json_plain r" "json_depth r < max_depth"
    and "post E n (ClientURL (mcpClient cfg) @ ''/mcp'') (kill_headers cfg)
      (json_print (tool_call ''is_kill_switch_active'' [])) = Inr (code, json_print (reply r))"
  shows "killSwitchActive E cfg n =
    (case decode_active (atext E) r of None \<Rightarrow> Inl UnmarshalResult | Some b \<Rightarrow> Inr b)"
proof -
  have "json_decode (json_print (reply r)) = Some (reply r)"
    using assms(2,3)
    by (intro json_decode_print [where r = "[]", simplified]) (simp_all add: reply_def int_literal_def is_digit_def byte_def between_def)
  with assms(1,4) show ?thesis
    by (auto simp: killSwitchActive_def is_err_def reply_read split: sum.splits)
qed

lemma error_status_passes_the_gate:
  assumes "\<not> is_err (url_parse (ClientURL (mcpClient cfg) @ ''/mcp''))"
    and "post E n (ClientURL (mcpClient cfg) @ ''/mcp'') (kill_headers cfg)
      (json_print (tool_call ''is_kill_switch_active'' [])) = Inr (500, json_print (reply (JObj [])))"
  shows "killSwitchActive E cfg n = Inr False"
  using kill_switch_reply [OF assms(1) _ _ assms(2)]
  by (simp add: max_depth_def decode_active_def struct_members_def decode_field_def)

definition demo_spec :: SpecConfig where
  "demo_spec = \<lparr> BBOTBinary = ''bbot'', NucleiBinary = ''nuclei'', TemplateDir = ''/t'',
     MCPURL = ''http://127.0.0.1:8444/'', MCPAPIKey = ''key'', SProgramID = ''acme'',
     SProxyURL = ''http://127.0.0.1:8443'', SVPNContainer = [], SDryRun = False, AllowExploitation = True, OutputDir = [] \<rparr>"

lemma demo_spec_client: "mcpClient demo_spec = demo_client"
  by (simp add: mcpClient_def demo_client_def demo_spec_def)

lemma demo_url: "\<not> is_err (url_parse (ClientURL demo_client @ ''/mcp''))"
  by (simp add: demo_client_def NewMCPClientWithAPIKey_def trim_right_def go_eval)

text \<open>The first answer is the one about the switch.\<close>

definition demo_gate :: adapter_env where
  "demo_gate = demo_tools\<lparr> post := (\<lambda>n u h b. if n = 0 then Inr (200, json_print (reply (JObj [(''active'', JBool False)])))
     else post demo_tools n u h b) \<rparr>"

lemma demo_gate_allows: "0 < n \<Longrightarrow> server_allows demo_gate demo_client n h \<longleftrightarrow> even n"
  using demo_url by (simp add: server_allows_answer demo_gate_def demo_tools_def reply_allows)

lemma demo_inactive: "killSwitchActive demo_gate demo_spec 0 = Inr False"
proof -
  have "decode_active ascii_env (JObj [(''active'', JBool False)]) = Some False"
    using field_names by (simp add: decode_active_def struct_members_def decode_lower set_bool_def)
  moreover have "json_plain (JObj [(''active'', JBool False)])" by (simp add: byte_def)
  ultimately show ?thesis
    using kill_switch_reply [of demo_spec "JObj [(''active'', JBool False)]" demo_gate 0 200] demo_url
    by (simp add: demo_spec_client max_depth_def demo_gate_def demo_tools_def)
qed

lemma demo_gate_run:
  "\<exists>r s. Gate_Run demo_gate [''a.io'', ''b.io'', ''c.io''] demo_spec demo_start = (r, s) \<and> length (commands s) = 2"
proof -
  let ?cfg = "nuclei_config demo_spec [''medium'', ''high'', ''critical'']"
  have in1: "allowed_hosts demo_gate demo_client 1 [''a.io'', ''b.io'', ''c.io''] = [''b.io'']"
    and in2: "allowed_hosts demo_gate demo_client 4 [''b.io''] = [''b.io'']"
    by (simp_all add: allowed_hosts_def demo_gate_allows)
  let ?s1 = "demo_start\<lparr> requests := 1 \<rparr>" and ?ts = "[''a.io'', ''b.io'', ''c.io'']"
  obtain blocked where "filterScope demo_gate ?ts demo_spec ?s1 =
      (allowed_hosts demo_gate (mcpClient demo_spec) (requests ?s1) ?ts, blocked, ?s1\<lparr> requests := requests ?s1 + length ?ts \<rparr>)"
    by (rule filterScope_obtain)
  then have f: "filterScope demo_gate ?ts demo_spec ?s1 = ([''b.io''], blocked, demo_start\<lparr> requests := 4 \<rparr>)"
    using in1 by (simp add: demo_spec_client)
  obtain q s where run: "RunNuclei demo_gate ?cfg [''b.io''] (demo_start\<lparr> requests := 4 \<rparr>) = (q, s)" by fastforce
  have guard: "nuclei_guard ?cfg = None"
  proof -
    have "trim_space ''/t'' = ''/t''" by (simp add: go_eval)
    with demo_proxy show ?thesis by (simp add: nuclei_guard_def nuclei_config_def demo_spec_def)
  qed
  have cfg: "NMCPClient ?cfg = Some demo_client" "\<not> NDryRun ?cfg"
    "severities_of ?cfg = [''medium'', ''high'', ''critical'']" "temp_file demo_gate = Inr ''/tmp/out''"
    by (simp_all only: nuclei_config_def NucleiConfig.simps demo_spec_client severities_of_def)
      (simp_all add: demo_spec_def demo_gate_def demo_tools_def)
  have "length (commands s) = 2"
    using run
  proof (cases rule: RunNuclei_cases)
    case (scan c res0)
    from scan(7) show ?thesis
    proof (cases rule: nuclei_scan_cases)
      case no_scan
      then show ?thesis unfolding cfg by (simp add: nuclei_severities_def)
    qed (simp add: demo_start_def)
  qed (use guard cfg in2 in simp_all)
  moreover have allow: "AllowExploitation demo_spec" "requests demo_start = 0"
    by (simp_all add: demo_spec_def demo_start_def)
  have "Gate_Run demo_gate [''a.io'', ''b.io'', ''c.io''] demo_spec demo_start =
      (case RunNuclei demo_gate ?cfg [''b.io''] (demo_start\<lparr> requests := 4 \<rparr>) of
         (Inl e, s3) \<Rightarrow> (Inl (ToolRun e), s3)
       | (Inr res, s3) \<Rightarrow>
         (Inr \<lparr> SName = ''gate'', TargetsIn = length [''a.io'', ''b.io'', ''c.io''], TargetsPassed = length [''b.io''],
            SBlocked = length blocked, SFindings = length (Found res), SRDryRun = SDryRun demo_spec,
            SNote = tool_note (ToolErrors res),
            Details = GateDetails (Found res) (TargetsScanned res) (RawOutput res) \<rparr>, s3))"
    unfolding Gate_Run_def Let_def allow demo_inactive
    by (simp only: allow not_True_eq_False if_False sum.case bool.case One_nat_def [symmetric] f prod.case)
  then have "snd (Gate_Run demo_gate [''a.io'', ''b.io'', ''c.io''] demo_spec demo_start) = s"
    unfolding run by (cases q) simp_all
  ultimately show ?thesis by (metis prod.collapse)
qed

theorem gate_guarded_witness:
  "\<exists>r s probe scan tmp v hosts. Gate_Run demo_gate [''a.io'', ''b.io'', ''c.io''] demo_spec demo_start = (r, s) \<and>
    commands s = [probe, scan] \<and> command_args scan = nucleiArgs ''/t'' hosts tmp v
      @ [''-severity'', ''medium,high,critical''] @ [''-proxy'', ''http://127.0.0.1:8443'']"
proof -
  from demo_gate_run obtain r s where
    run: "Gate_Run demo_gate [''a.io'', ''b.io'', ''c.io''] demo_spec demo_start = (r, s)" "length (commands s) = 2"
    by blast
  then have "commands s \<noteq> commands demo_start" by (auto simp: demo_start_def)
  from gate_guarded [OF run(1) this] obtain hosts scan tmp v where
    "commands s = commands demo_start @ [version_probe demo_gate (NucleiBinary demo_spec), scan]"
    "command_args scan = nucleiArgs (TemplateDir demo_spec) hosts tmp v
      @ [''-severity'', ''medium,high,critical''] @ [''-proxy'', SProxyURL demo_spec]"
    using run(2) by (auto simp: demo_start_def)
  with run(1) show ?thesis by (fastforce simp: demo_start_def demo_spec_def)
qed

theorem specialist_sessions_witness:
  "\<exists>probe scan. commands (foldl (run_call demo_gate demo_report_env ''1s'') demo_start
       [(''run_gate_specialist'', [''a.io'', ''b.io'', ''c.io''], demo_spec)]) = [probe, scan] \<and>
     permitted_command demo_gate demo_spec [''a.io'', ''b.io'', ''c.io''] scan"
proof -
  let ?calls = "[(''run_gate_specialist'', [''a.io'', ''b.io'', ''c.io''], demo_spec)]"
  from demo_gate_run obtain r s where
    run: "Gate_Run demo_gate [''a.io'', ''b.io'', ''c.io''] demo_spec demo_start = (r, s)" "length (commands s) = 2"
    by blast
  then have s: "foldl (run_call demo_gate demo_report_env ''1s'') demo_start ?calls = s"
    by (simp add: run_call_def specialists_def)
  obtain probe scan where two: "commands s = [probe, scan]"
    using run(2) by (auto simp: length_Suc_conv numeral_2_eq_2)
  from specialist_sessions [of demo_gate demo_report_env "''1s''" demo_start ?calls] two s show ?thesis
    by (auto simp: demo_start_def)
qed

end
