(* ===== verification/Mcp.thy ===== *)
theory Mcp
  imports Gateway Store Specialist
begin

text \<open>
  internal/mcp: the JSON-RPC server in front of the proxy, the store and the specialists.
  \<open>Server\<close> is the state of server.go, with the one kill switch it shares with the proxy; the
  handlers of tools.go are functions on it. What a call does not decide (clock, identifiers,
  the environments of the proxy and of the adapters, the texts of the errors) is in \<open>menv\<close>.
  Results are values; how the response is printed is modelled for the checks only, which the
  adapter's client reads. The output schemas and descriptions of the tools are left out.
\<close>

section \<open>Values of a request\<close>

text \<open>The value of a number literal, and \<open>float64\<close>: out of range is a decoding error.\<close>

definition literal_value :: "string \<Rightarrow> rat" where
  "literal_value n =
    (let neg = has_prefix n ''-'';
         body = (if neg then drop 1 n else n);
         mant = takeWhile (\<lambda>c. c \<noteq> CHR ''e'' \<and> c \<noteq> CHR ''E'') body;
         ex = drop (Suc (length mant)) body;
         int_part = takeWhile (\<lambda>c. c \<noteq> CHR ''.'') mant;
         frac = drop (Suc (length int_part)) mant;
         digits = of_nat (digits_value (int_part @ frac)) :: rat;
         e = (if has_prefix ex ''-'' then - int (digits_value (drop 1 ex))
              else if has_prefix ex ''+'' then int (digits_value (drop 1 ex))
              else int (digits_value ex)) - int (length frac)
     in (if neg then -1 else 1) * digits * (10 powi e))"

definition float_max :: rat where "float_max = (2 ^ 53 - 1) * 2 ^ 971"

definition json_float :: "string \<Rightarrow> rat option" where
  "json_float n = (let x = f64 (literal_value n) in if \<bar>x\<bar> \<le> float_max then Some x else None)"

definition put_all :: "('k \<times> 'v) list \<Rightarrow> ('k, 'v) gomap \<Rightarrow> ('k, 'v) gomap" where
  "put_all kvs m = foldl (\<lambda>m (k, v). AList.update k v m) m kvs"

text \<open>Decoding into \<open>interface{}\<close>.\<close>

fun to_val :: "json \<Rightarrow> val option" where
  "to_val JNull = Some VNull"
| "to_val (JBool b) = Some (VBool b)"
| "to_val (JNum n) = map_option VNum (json_float n)"
| "to_val (JStr s) = Some (VStr s)"
| "to_val (JArr xs) = map_option VList (those (map to_val xs))"
| "to_val (JObj ms) =
    map_option (\<lambda>kvs. VMap (put_all kvs []))
      (those (map (\<lambda>(k, v). map_option (Pair k) (to_val v)) ms))"

section \<open>Tools\<close>

record ToolDef =
  ToolName :: string
  ToolProps :: "(string \<times> string) list"   \<comment> \<open>parameter and type\<close>
  ToolRequired :: "string list"

definition no_params :: "string \<Rightarrow> ToolDef" where
  "no_params n = \<lparr> ToolName = n, ToolProps = [], ToolRequired = [] \<rparr>"

definition tool_check_url :: ToolDef where
  "tool_check_url = \<lparr> ToolName = ''check_url'', ToolProps = [(''url'', ''string'')], ToolRequired = [''url''] \<rparr>"

definition tool_audit_log :: ToolDef where
  "tool_audit_log = \<lparr> ToolName = ''get_audit_log'',
     ToolProps = [(''event_type'', ''string''), (''limit'', ''integer'')], ToolRequired = [] \<rparr>"

definition tool_activate :: ToolDef where
  "tool_activate = \<lparr> ToolName = ''activate_kill_switch'', ToolProps = [(''reason'', ''string'')],
     ToolRequired = [''reason''] \<rparr>"

definition tool_deactivate :: ToolDef where
  "tool_deactivate = \<lparr> ToolName = ''deactivate_kill_switch'', ToolProps = [(''token'', ''string'')],
     ToolRequired = [''token''] \<rparr>"

definition tool_safe_check :: ToolDef where
  "tool_safe_check = \<lparr> ToolName = ''run_safe_check'', ToolProps = [(''urls'', ''array'')], ToolRequired = [''urls''] \<rparr>"

definition tool_validate_hosts :: ToolDef where
  "tool_validate_hosts = \<lparr> ToolName = ''validate_hosts'', ToolProps = [(''hosts'', ''array'')],
     ToolRequired = [''hosts''] \<rparr>"

definition tool_recall :: ToolDef where
  "tool_recall = \<lparr> ToolName = ''recall_engagement'', ToolProps = [(''program'', ''string'')],
     ToolRequired = [''program''] \<rparr>"

definition tool_record_assets :: ToolDef where
  "tool_record_assets = \<lparr> ToolName = ''record_assets'',
     ToolProps = [(''program'', ''string''), (''hosts'', ''array''), (''source'', ''string'')],
     ToolRequired = [''program'', ''hosts''] \<rparr>"

definition tool_record_finding :: ToolDef where
  "tool_record_finding = \<lparr> ToolName = ''record_finding'',
     ToolProps = [(''program'', ''string''), (''host'', ''string''), (''title'', ''string''),
       (''severity'', ''string''), (''poc_ref'', ''string'')],
     ToolRequired = [''program'', ''host'', ''title'', ''severity''] \<rparr>"

definition tool_mark_tested :: ToolDef where
  "tool_mark_tested = \<lparr> ToolName = ''mark_tested'',
     ToolProps = [(''program'', ''string''), (''host'', ''string''), (''endpoint'', ''string''),
       (''check'', ''string''), (''result'', ''string'')],
     ToolRequired = [''program'', ''host'', ''endpoint'', ''check'', ''result''] \<rparr>"

definition specialistToolDefinitions :: "ToolDef list" where
  "specialistToolDefinitions =
    [\<lparr> ToolName = ''run_recon_specialist'', ToolProps = [(''targets'', ''array'')], ToolRequired = [''targets''] \<rparr>,
     \<lparr> ToolName = ''run_vuln_specialist'', ToolProps = [(''targets'', ''array'')], ToolRequired = [''targets''] \<rparr>,
     \<lparr> ToolName = ''run_gate_specialist'', ToolProps = [(''targets'', ''array''), (''approval_token'', ''string'')],
       ToolRequired = [''targets'', ''approval_token''] \<rparr>]"

text \<open>\<open>registered\<close>: the specialists are configured.\<close>

definition ListTools :: "bool \<Rightarrow> ToolDef list" where
  "ListTools registered =
    [no_params ''get_scope_status'', tool_check_url, tool_audit_log, no_params ''get_recent_decisions'',
     no_params ''get_ratelimit_status'', tool_activate, tool_deactivate, no_params ''is_kill_switch_active'',
     tool_safe_check, tool_validate_hosts, no_params ''health'', no_params ''scope_shape'', tool_recall,
     tool_record_assets, tool_record_finding, tool_mark_tested]
    @ (if registered then specialistToolDefinitions else [])"

definition isKnownTool :: "bool \<Rightarrow> string \<Rightarrow> bool" where
  "isKnownTool registered name = list_ex (\<lambda>t. ToolName t = name) (ListTools registered)"

datatype param_err = MissingParam string | UnknownParam string

type_synonym params = "(string, val) gomap"

definition validateParams :: "ToolDef \<Rightarrow> params \<Rightarrow> param_err option" where
  "validateParams t ps =
    (case find (\<lambda>f. map_of ps f = None) (ToolRequired t) of
       Some f \<Rightarrow> Some (MissingParam f)
     | None \<Rightarrow>
       (case find (\<lambda>(k, _). map_of (ToolProps t) k = None) ps of
          Some (k, _) \<Rightarrow> Some (UnknownParam k) | None \<Rightarrow> None))"

section \<open>Redaction of logged parameters\<close>

definition isSensitiveKey :: "text_env \<Rightarrow> string \<Rightarrow> bool" where
  "isSensitiveKey E key =
    (to_lower E key \<in> {''token'', ''approval_token'', ''api_key'', ''password'', ''secret'', ''authorization''})"

text \<open>
  A map with its sensitive entries replaced, at every map that is an entry or an element of an
  entry; elements of a list inside a list are taken as they are.
\<close>

lemma size_in_map: "(k, v) \<in> set m \<Longrightarrow> size v < size (VMap m)"
  by (induction m) auto

lemma size_in_list: "x \<in> set xs \<Longrightarrow> size x < size (VList xs)"
  by (induction xs) auto

function redact_val :: "text_env \<Rightarrow> val \<Rightarrow> val" and redact_entry :: "text_env \<Rightarrow> val \<Rightarrow> val" where
  "redact_val E (VMap m) =
    VMap (map (\<lambda>(k, v). (k, if isSensitiveKey E k then redacted_value else redact_entry E v)) m)"
| "redact_val E VNull = VNull"
| "redact_val E (VBool b) = VBool b"
| "redact_val E (VInt i) = VInt i"
| "redact_val E (VNum q) = VNum q"
| "redact_val E (VStr s) = VStr s"
| "redact_val E (VList xs) = VList xs"
| "redact_entry E (VList xs) = VList (map (redact_val E) xs)"
| "redact_entry E (VMap m) = redact_val E (VMap m)"
| "redact_entry E VNull = VNull"
| "redact_entry E (VBool b) = VBool b"
| "redact_entry E (VInt i) = VInt i"
| "redact_entry E (VNum q) = VNum q"
| "redact_entry E (VStr s) = VStr s"
  by pat_completeness auto

termination
  by (relation "measure (\<lambda>x. case x of Inl (_, v) \<Rightarrow> 2 * size v | Inr (_, v) \<Rightarrow> 2 * size v + 1)")
    (auto dest: size_in_map size_in_list simp del: val.size)

definition redactSensitiveMap :: "text_env \<Rightarrow> params \<Rightarrow> params" where
  "redactSensitiveMap E ps =
    map (\<lambda>(k, v). (k, if isSensitiveKey E k then redacted_value else redact_entry E v)) ps"


section \<open>State, environment, results\<close>

record Server =
  prx :: Proxy
  mstore :: MemoryStore
  serverProgram :: string
  serverKey :: string
  deactivationToken :: string
  specialistConfig :: SpecConfig
  registered :: bool
  gateApprovalToken :: string
  tool_runs :: adapter_state
  written :: "(string \<times> string) list"   \<comment> \<open>the reports Vuln wrote\<close>

datatype tool_err =
    UnknownTool string
  | BadParams string param_err
  | EmptyParam string
  | MissingArray string
  | NotAnArray string
  | NotAString string nat
  | EmptyElement string nat
  | NoElements string
  | TooManyElements string
  | InvalidURLAt nat url_err
  | BadChoice string string
  | DeactivationNotConfigured
  | InvalidToken
  | KillSwitchDenies
  | BadTargets
  | NotRegistered string
  | ApprovalNotConfigured
  | ApprovalDenied
  | SpecialistFailed spec_err

record hostScopeResult =
  HHost :: string
  HInScope :: bool
  HReason :: Scope.reason

datatype tool_result =
    ScopeStatus ScopeSummary
  | UrlCheck CheckResult
  | AuditEntries "Entry list"
  | RateLimits "HostSnapshot list"
  | KillStatus KillSwitchStatus
  | KillActive bool
  | SafeChecks "CheckResult list"
  | SpecialistResult SpecResult
  | ReconSkipped "string list"
  | HostChecks "hostScopeResult list"
  | Health string string string bool
  | ScopeShape bool bool nat nat string
  | Engagement string "Asset list" "Finding list" "TestedEndpoint list"
  | AssetsRecorded string nat
  | FindingRecorded string
  | TestedRecorded

text \<open>
  The clock and identifiers of one call: \<open>act_now\<close> is read by the operation, the other
  readings belong to the log entry of the handler and to that of the invocation.
\<close>

record menv =
  proxy_env :: penv
  adapter :: adapter_env
  reporter :: report_env
  elapsed :: string
  zone :: int
  act_now :: instant
  finding_id :: string
  handler_id :: string
  handler_now :: instant
  call_id :: string
  call_now :: instant
  err_text :: "tool_err \<Rightarrow> string"
  check_text :: "check_reason \<Rightarrow> string"
  scope_text :: "Scope.reason \<Rightarrow> string"

definition SetDeactivationToken :: "string \<Rightarrow> Server \<Rightarrow> Server" where
  "SetDeactivationToken t s = s\<lparr> deactivationToken := t \<rparr>"

definition SetGateApprovalToken :: "string \<Rightarrow> Server \<Rightarrow> Server" where
  "SetGateApprovalToken t s = s\<lparr> gateApprovalToken := t \<rparr>"

definition SetAPIKey :: "string \<Rightarrow> Server \<Rightarrow> Server" where
  "SetAPIKey k s = s\<lparr> serverKey := k \<rparr>"

definition SetProgramID :: "string \<Rightarrow> Server \<Rightarrow> Server" where
  "SetProgramID i s = s\<lparr> serverProgram := i \<rparr>"

definition ConfigureSpecialists :: "SpecConfig \<Rightarrow> Server \<Rightarrow> Server" where
  "ConfigureSpecialists cfg s = s\<lparr> specialistConfig := cfg, registered := True \<rparr>"

definition no_spec :: SpecConfig where
  "no_spec = \<lparr> BBOTBinary = [], NucleiBinary = [], TemplateDir = [], MCPURL = [], MCPAPIKey = [], SProgramID = [],
     SProxyURL = [], SVPNContainer = [], SDryRun = False, AllowExploitation = False, OutputDir = [] \<rparr>"

definition NewServer :: "Proxy \<Rightarrow> MemoryStore \<Rightarrow> Server" where
  "NewServer p st = \<lparr> prx = p, mstore = st, serverProgram = [], serverKey = [], deactivationToken = [],
     specialistConfig = no_spec, registered = False, gateApprovalToken = [],
     tool_runs = \<lparr> requests = 0, commands = [], recorded = [] \<rparr>, written = [] \<rparr>"

definition secureEqual :: "string \<Rightarrow> string \<Rightarrow> bool" where
  "secureEqual actual expected = (if actual = [] \<or> expected = [] then False else actual = expected)"

definition str_param :: "string \<Rightarrow> params \<Rightarrow> string" where
  "str_param k ps = (case map_of ps k of Some (VStr s) \<Rightarrow> s | _ \<Rightarrow> [])"

definition kill_active :: "Server \<Rightarrow> bool" where
  "kill_active s = IsActive (switch (prx s))"

section \<open>Handlers\<close>

text \<open>
  A handler's value with the name \<open>resultTypeName\<close> gives it in the log: a typed nil that
  accompanies an error has one, too.
\<close>

type_synonym outcome = "(tool_err, tool_result) result \<times> string option"

definition log_handler :: "menv \<Rightarrow> data \<Rightarrow> Server \<Rightarrow> Server" where
  "log_handler E d s =
    s\<lparr> mstore := snd (LogEntry (handler_id E) (handler_now E) ''mcp'' ''kill_switch'' (Some d) (mstore s)) \<rparr>"

definition handleCheckURL :: "menv \<Rightarrow> params \<Rightarrow> Server \<Rightarrow> outcome \<times> Server" where
  "handleCheckURL E ps s =
    (let rawURL = str_param ''url'' ps in
     if rawURL = [] then ((Inl (EmptyParam ''url''), Some ''check_result''), s)
     else (let (r, p) = CheckURL (proxy_env E) rawURL (prx s)
           in ((Inr (UrlCheck r), Some ''check_result''), s\<lparr> prx := p \<rparr>)))"

text \<open>\<open>int(li)\<close> of a float: truncation; out of range it is the least integer.\<close>

definition int_of_float :: "rat \<Rightarrow> int" where
  "int_of_float x =
    (let n = (if x < 0 then - \<lfloor>- x\<rfloor> else \<lfloor>x\<rfloor>) in if in_int64 n then n else - max_int - 1)"

definition handleGetAuditLog :: "params \<Rightarrow> Server \<Rightarrow> Entry list" where
  "handleGetAuditLog ps s =
    (let eventType = str_param ''event_type'' ps;
         limit = (case map_of ps ''limit'' of Some (VNum x) \<Rightarrow> int_of_float x | _ \<Rightarrow> 50)
     in if eventType \<noteq> [] then SearchEntries eventType [] (mstore s) else RecentEntries limit (mstore s))"

definition handleActivateKillSwitch :: "menv \<Rightarrow> params \<Rightarrow> Server \<Rightarrow> outcome \<times> Server" where
  "handleActivateKillSwitch E ps s =
    (let reason = str_param ''reason'' ps;
         who = (if reason = [] then ''mcp:unknown'' else ''mcp:'' @ reason);
         s1 = s\<lparr> prx := (prx s)\<lparr> switch := Activate (act_now E) who (switch (prx s)) \<rparr> \<rparr>;
         s2 = log_handler E [(''action'', VStr ''activate''), (''reason'', VStr reason), (''by'', VStr who)] s1
     in ((Inr (KillStatus (Status (zone E) (switch (prx s2)))), Some ''killswitch_status''), s2))"

definition handleDeactivateKillSwitch :: "menv \<Rightarrow> params \<Rightarrow> Server \<Rightarrow> outcome \<times> Server" where
  "handleDeactivateKillSwitch E ps s =
    (if deactivationToken s = []
     then ((Inl DeactivationNotConfigured, Some ''killswitch_status''),
       log_handler E [(''action'', VStr ''deactivate_denied''), (''reason'', VStr (err_text E DeactivationNotConfigured))] s)
     else if \<not> secureEqual (str_param ''token'' ps) (deactivationToken s)
     then ((Inl InvalidToken, Some ''killswitch_status''),
       log_handler E [(''action'', VStr ''deactivate_denied''), (''reason'', VStr (err_text E InvalidToken))] s)
     else
       (let s1 = s\<lparr> prx := (prx s)\<lparr> switch := Deactivate (switch (prx s)) \<rparr> \<rparr>;
            s2 = log_handler E [(''action'', VStr ''deactivate'')] s1
        in ((Inr (KillStatus (Status (zone E) (switch (prx s2)))), Some ''killswitch_status''), s2)))"

text \<open>An array of strings, each put through a check of its own; \<open>None\<close> for another value.\<close>

fun each_string ::
  "string \<Rightarrow> (nat \<Rightarrow> string \<Rightarrow> (tool_err, 'a) result) \<Rightarrow> nat \<Rightarrow> val list \<Rightarrow> (tool_err, 'a list) result" where
  "each_string name f i [] = Inr []"
| "each_string name f i (VStr x # xs) =
    (case f i x of Inl e \<Rightarrow> Inl e
     | Inr y \<Rightarrow> (case each_string name f (Suc i) xs of Inl e \<Rightarrow> Inl e | Inr ys \<Rightarrow> Inr (y # ys)))"
| "each_string name f i (x # xs) = Inl (NotAString name i)"

definition safe_url :: "nat \<Rightarrow> string \<Rightarrow> (tool_err, string) result" where
  "safe_url i raw =
    (let u = (if contains raw ''://'' then raw else ''https://'' @ raw)
     in case url_parse u of Inl e \<Rightarrow> Inl (InvalidURLAt i e) | Inr _ \<Rightarrow> Inr u)"

definition handleRunSafeCheck :: "menv \<Rightarrow> params \<Rightarrow> Server \<Rightarrow> outcome \<times> Server" where
  "handleRunSafeCheck E ps s =
    (case map_of ps ''urls'' of
       Some (VList xs) \<Rightarrow>
         (case each_string ''urls'' safe_url 0 xs of
            Inl e \<Rightarrow> ((Inl e, Some ''generic_map''), s)
          | Inr urls \<Rightarrow>
            (let (rs, p) = RunSafeCheck (proxy_env E) urls (prx s)
             in ((Inr (SafeChecks rs), Some ''generic_map''), s\<lparr> prx := p \<rparr>)))
     | None \<Rightarrow> ((Inl (MissingArray ''urls''), Some ''generic_map''), s)
     | Some _ \<Rightarrow> ((Inl (NotAnArray ''urls''), Some ''generic_map''), s))"

definition exactHostOnlyScope :: "ScopeRule list \<Rightarrow> bool" where
  "exactHostOnlyScope rules = (rules \<noteq> [] \<and> list_all (\<lambda>r. RuleType r = ''exact_host'') rules)"

definition specialistTargets :: "val option \<Rightarrow> (tool_err, string list) result" where
  "specialistTargets raw =
    (case raw of
       Some (VList xs) \<Rightarrow>
         (case those (map (\<lambda>x. case x of VStr t \<Rightarrow> if t = [] then None else Some t | _ \<Rightarrow> None) xs) of
            None \<Rightarrow> Inl BadTargets
          | Some ts \<Rightarrow> if ts = [] then Inl (NoElements ''targets'')
                      else if length ts > 100 then Inl (TooManyElements ''targets'') else Inr ts)
     | _ \<Rightarrow> Inl (NotAnArray ''targets''))"

text \<open>The run through the interface, with the report Vuln leaves behind.\<close>

definition run_registered ::
  "menv \<Rightarrow> string \<Rightarrow> string list \<Rightarrow> SpecConfig \<Rightarrow> Server \<Rightarrow> outcome \<times> Server" where
  "run_registered E name targets cfg s =
    (let (r, a, w) =
       (if name = ''run_vuln_specialist''
        then Vuln_Run (adapter E) (reporter E) (elapsed E) targets cfg (tool_runs s)
        else if name = ''run_recon_specialist''
        then (case Recon_Run (adapter E) targets cfg (tool_runs s) of (r, a) \<Rightarrow> (r, a, None))
        else (case Gate_Run (adapter E) targets cfg (tool_runs s) of (r, a) \<Rightarrow> (r, a, None)))
     in ((case r of Inl e \<Rightarrow> Inl (SpecialistFailed e) | Inr res \<Rightarrow> Inr (SpecialistResult res), Some ''specialist_result''),
         s\<lparr> tool_runs := a, written := written s @ (case w of None \<Rightarrow> [] | Some x \<Rightarrow> [x]) \<rparr>))"

definition handleRunSpecialist :: "menv \<Rightarrow> string \<Rightarrow> params \<Rightarrow> Server \<Rightarrow> outcome \<times> Server" where
  "handleRunSpecialist E name ps s =
    (if kill_active s then ((Inl KillSwitchDenies, None), s)
     else (case specialistTargets (map_of ps ''targets'') of
       Inl e \<Rightarrow> ((Inl e, None), s)
     | Inr targets \<Rightarrow>
       if \<not> registered s then ((Inl (NotRegistered name), None), s)
       else if name = ''run_gate_specialist'' \<and> gateApprovalToken s = []
       then ((Inl ApprovalNotConfigured, None), s)
       else if name = ''run_gate_specialist'' \<and> \<not> secureEqual (str_param ''approval_token'' ps) (gateApprovalToken s)
       then ((Inl ApprovalDenied, None), s)
       else if name = ''run_recon_specialist'' \<and> exactHostOnlyScope (IncludeRules (engine (prx s)))
       then ((Inr (ReconSkipped targets), Some ''generic_map''), s)
       else run_registered E name targets
         (if name = ''run_gate_specialist'' then (specialistConfig s)\<lparr> AllowExploitation := True \<rparr>
          else specialistConfig s) s))"

text \<open>The hosts of an array parameter: at most \<open>bound\<close>, none empty.\<close>

definition host_list :: "nat \<Rightarrow> params \<Rightarrow> (tool_err, string list) result" where
  "host_list bound ps =
    (case map_of ps ''hosts'' of
       None \<Rightarrow> Inl (MissingArray ''hosts'')
     | Some (VList xs) \<Rightarrow>
         if xs = [] then Inl (NoElements ''hosts'')
         else if length xs > bound then Inl (TooManyElements ''hosts'')
         else each_string ''hosts'' (\<lambda>i h. if h = [] then Inl (EmptyElement ''hosts'' i) else Inr h) 0 xs
     | Some _ \<Rightarrow> Inl (NotAnArray ''hosts''))"

definition handleValidateHosts :: "menv \<Rightarrow> params \<Rightarrow> Server \<Rightarrow> outcome" where
  "handleValidateHosts E ps s =
    (case host_list 100 ps of Inl e \<Rightarrow> (Inl e, Some ''unknown'')
     | Inr hosts \<Rightarrow>
       (Inr (HostChecks (map (\<lambda>h. let d = IsHostInScope (tenv (proxy_env E)) (engine (prx s)) h
          in \<lparr> HHost = h, HInScope = InScope d, HReason = Reason d \<rparr>) hosts)), Some ''unknown''))"

definition handleHealth :: "menv \<Rightarrow> Server \<Rightarrow> tool_result" where
  "handleHealth E s =
    Health (ListenAddr (pconf (prx s))) (elapsed E) (ProgramID (pconf (prx s))) (kill_active s)"

definition scope_advice :: "nat \<Rightarrow> nat \<Rightarrow> bool \<Rightarrow> string" where
  "scope_advice exactCount wildcardCount hasCIDR =
    (if exactCount > 0 \<and> wildcardCount = 0 \<and> \<not> hasCIDR
     then ''Exact-host only scope: subdomain enumeration adds no value. ''
       @ ''Focus on endpoint discovery and nuclei against known hosts.''
     else if wildcardCount > 0
     then ''Wildcard scope detected: subdomain enumeration is valuable. ''
       @ ''Run passive recon (BBOT) first, then nuclei against subdomains.''
     else if hasCIDR then ''CIDR scope detected: port scanning and service discovery recommended.''
     else [])"

definition handleScopeShape :: "Server \<Rightarrow> tool_result" where
  "handleScopeShape s =
    (let rules = IncludeRules (engine (prx s));
         exactCount = length (filter (\<lambda>r. RuleType r = ''exact_host'') rules);
         wildcardCount = length (filter (\<lambda>r. RuleType r = ''wildcard_host'') rules);
         hasCIDR = list_ex (\<lambda>r. RuleType r = ''cidr'') rules
     in ScopeShape (wildcardCount > 0) hasCIDR exactCount wildcardCount
          (scope_advice exactCount wildcardCount hasCIDR))"

definition handleRecallEngagement :: "params \<Rightarrow> Server \<Rightarrow> outcome" where
  "handleRecallEngagement ps s =
    (let program = str_param ''program'' ps in
     if program = [] then (Inl (EmptyParam ''program''), Some ''generic_map'')
     else (Inr (Engagement program (GetAssets program (mstore s)) (GetFindings program (mstore s))
       (GetTested program (mstore s))), Some ''generic_map''))"

definition handleRecordAssets :: "menv \<Rightarrow> params \<Rightarrow> Server \<Rightarrow> outcome \<times> Server" where
  "handleRecordAssets E ps s =
    (let program = str_param ''program'' ps; source = str_param ''source'' ps in
     if program = [] then ((Inl (EmptyParam ''program''), Some ''generic_map''), s)
     else (case host_list 1000 ps of Inl e \<Rightarrow> ((Inl e, Some ''generic_map''), s)
     | Inr hosts \<Rightarrow>
       (let as = map (\<lambda>h. \<lparr> AHost = h, ASource = source, FirstSeen = None, LastSeen = None,
                            AInScope = False, Tech = [] \<rparr>) hosts
        in ((Inr (AssetsRecorded program (length as)), Some ''generic_map''),
            s\<lparr> mstore := RecordAssets (act_now E) program as (mstore s) \<rparr>))))"

text \<open>The first of the named parameters that is not a non-empty string.\<close>

definition empty_param :: "string list \<Rightarrow> params \<Rightarrow> string option" where
  "empty_param ks ps = find (\<lambda>k. str_param k ps = []) ks"

definition handleRecordFinding :: "menv \<Rightarrow> params \<Rightarrow> Server \<Rightarrow> outcome \<times> Server" where
  "handleRecordFinding E ps s =
    (case empty_param [''program'', ''host'', ''title''] ps of
       Some k \<Rightarrow> ((Inl (EmptyParam k), Some ''generic_map''), s)
     | None \<Rightarrow>
       (let severity = str_param ''severity'' ps in
        if severity \<notin> set severity_names then ((Inl (BadChoice ''severity'' severity), Some ''generic_map''), s)
        else
          (let (f, st) = RecordFinding (finding_id E) (act_now E) (str_param ''program'' ps)
             \<lparr> FID = [], FTitle = str_param ''title'' ps, FSeverity = severity, FHost = str_param ''host'' ps,
               FStatus = ''open'', PoCRef = str_param ''poc_ref'' ps, Created = None \<rparr> (mstore s)
           in ((Inr (FindingRecorded (FID f)), Some ''generic_map''), s\<lparr> mstore := st \<rparr>))))"

definition handleMarkTested :: "menv \<Rightarrow> params \<Rightarrow> Server \<Rightarrow> outcome \<times> Server" where
  "handleMarkTested E ps s =
    (case empty_param [''program'', ''host'', ''endpoint'', ''check''] ps of
       Some k \<Rightarrow> ((Inl (EmptyParam k), Some ''generic_map''), s)
     | None \<Rightarrow>
       (let outcome = str_param ''result'' ps in
        if outcome \<notin> {''not_vulnerable'', ''vulnerable'', ''error'', ''timeout'', ''skipped''}
        then ((Inl (BadChoice ''result'' outcome), Some ''generic_map''), s)
        else ((Inr TestedRecorded, Some ''generic_map''),
          s\<lparr> mstore := MarkTested (act_now E) (str_param ''program'' ps)
            \<lparr> TEHost = str_param ''host'' ps, TEEndpoint = str_param ''endpoint'' ps,
              TECheck = str_param ''check'' ps, TEResult = outcome, TestedAt = None \<rparr> (mstore s) \<rparr>)))"

section \<open>Dispatch\<close>

text \<open>The handlers that cannot fail read the state only, or change the switch.\<close>

definition dispatch :: "menv \<Rightarrow> string \<Rightarrow> params \<Rightarrow> Server \<Rightarrow> outcome \<times> Server" where
  "dispatch E name ps s =
    (if name = ''get_scope_status'' then ((Inr (ScopeStatus (Scope_Summary (prx s))), Some ''generic_map''), s)
     else if name = ''check_url'' then handleCheckURL E ps s
     else if name = ''get_audit_log'' then ((Inr (AuditEntries (handleGetAuditLog ps s)), Some ''audit_entries''), s)
     else if name = ''get_recent_decisions''
     then ((Inr (AuditEntries (RecentEntries 50 (mstore s))), Some ''audit_entries''), s)
     else if name = ''get_ratelimit_status''
     then ((Inr (RateLimits (RateLimitStatus (prx s))), Some ''ratelimit_state''), s)
     else if name = ''activate_kill_switch'' then handleActivateKillSwitch E ps s
     else if name = ''deactivate_kill_switch'' then handleDeactivateKillSwitch E ps s
     else if name = ''is_kill_switch_active'' then ((Inr (KillActive (kill_active s)), Some ''generic_map''), s)
     else if name = ''run_safe_check'' then handleRunSafeCheck E ps s
     else if name \<in> {''run_recon_specialist'', ''run_vuln_specialist'', ''run_gate_specialist''}
     then handleRunSpecialist E name ps s
     else if name = ''validate_hosts'' then (handleValidateHosts E ps s, s)
     else if name = ''health'' then ((Inr (handleHealth E s), Some ''generic_map''), s)
     else if name = ''scope_shape'' then ((Inr (handleScopeShape s), Some ''generic_map''), s)
     else if name = ''recall_engagement'' then (handleRecallEngagement ps s, s)
     else if name = ''record_assets'' then handleRecordAssets E ps s
     else if name = ''record_finding'' then handleRecordFinding E ps s
     else handleMarkTested E ps s)"

definition invocation_data :: "menv \<Rightarrow> string \<Rightarrow> params \<Rightarrow> outcome \<Rightarrow> data" where
  "invocation_data E name ps out =
    [(''tool'', VStr name), (''params'', VMap (redactSensitiveMap (tenv (proxy_env E)) ps))]
    @ (case fst out of Inl e \<Rightarrow> [(''error'', VStr (err_text E e))] | Inr _ \<Rightarrow> [])
    @ (case snd out of None \<Rightarrow> [] | Some t \<Rightarrow> [(''result_type'', VStr t)])"

definition logToolInvocation :: "menv \<Rightarrow> string \<Rightarrow> params \<Rightarrow> outcome \<Rightarrow> Server \<Rightarrow> Server" where
  "logToolInvocation E name ps out s =
    s\<lparr> mstore := snd (LogEntry (call_id E) (call_now E) ''mcp'' ''tool_invocation''
         (Some (invocation_data E name ps out)) (mstore s)) \<rparr>"

definition callTool :: "menv \<Rightarrow> string \<Rightarrow> params \<Rightarrow> Server \<Rightarrow> (tool_err, tool_result) result \<times> Server" where
  "callTool E name ps s =
    (case find (\<lambda>t. ToolName t = name) (ListTools (registered s)) of
       None \<Rightarrow> (Inl (UnknownTool name), s)
     | Some t \<Rightarrow>
       (case validateParams t ps of
          Some e \<Rightarrow> (Inl (BadParams name e), s)
        | None \<Rightarrow>
          (let (out, s1) = dispatch E name ps s
           in (fst out, logToolInvocation E name ps out s1))))"

section \<open>JSON-RPC\<close>

datatype rpc_result = ToolList "ToolDef list" | ToolValue tool_result

datatype rpc_err = ParseError | InvalidRequestErr | MethodNotFound | InvalidParams | Unauthorized | ToolFailed tool_err

record rpc_response =
  rpc_status :: nat
  rpc_result :: "rpc_result option"
  rpc_error :: "rpc_err option"
  rpc_id :: json

record rpc_request =
  jsonrpc :: string
  rpc_method :: string
  rpc_params :: "params option"
  req_id :: json

record mcp_http =
  http_method :: string
  http_header :: header
  http_body :: string

definition rpc_ok :: "rpc_result \<Rightarrow> json \<Rightarrow> rpc_response" where
  "rpc_ok r i = \<lparr> rpc_status = 200, rpc_result = Some r, rpc_error = None, rpc_id = i \<rparr>"

definition rpc_fail :: "nat \<Rightarrow> rpc_err \<Rightarrow> json \<Rightarrow> rpc_response" where
  "rpc_fail st e i = \<lparr> rpc_status = st, rpc_result = None, rpc_error = Some e, rpc_id = i \<rparr>"

text \<open>\<open>null\<close> makes the map nil; a second object is put into the map of the first.\<close>

definition set_params :: "json \<Rightarrow> params option \<Rightarrow> params option option" where
  "set_params v x =
    (case v of JNull \<Rightarrow> Some None
     | JObj ms \<Rightarrow>
       map_option (\<lambda>kvs. Some (put_all kvs (case x of None \<Rightarrow> [] | Some m \<Rightarrow> m)))
         (those (map (\<lambda>(k, v). map_option (Pair k) (to_val v)) ms))
     | _ \<Rightarrow> None)"

definition set_id :: "json \<Rightarrow> json \<Rightarrow> json option" where
  "set_id v x = map_option (\<lambda>_. v) (to_val v)"

definition decode_request :: "text_env \<Rightarrow> json \<Rightarrow> rpc_request option" where
  "decode_request E v =
    (case struct_members v of None \<Rightarrow> None
     | Some ms \<Rightarrow>
       (case (decode_field E ''jsonrpc'' set_string [] ms, decode_field E ''method'' set_string [] ms,
              decode_field E ''params'' set_params None ms, decode_field E ''id'' set_id JNull ms) of
          (Some j, Some m, Some ps, Some i) \<Rightarrow>
            Some \<lparr> jsonrpc = j, rpc_method = m, rpc_params = ps, req_id = i \<rparr>
        | _ \<Rightarrow> None))"

definition authorized :: "string \<Rightarrow> header \<Rightarrow> bool" where
  "authorized key h =
    (key = [] \<or>
     (let auth = (case header_values ''Authorization'' h of [] \<Rightarrow> [] | a # _ \<Rightarrow> a)
      in 7 < length auth \<and> take 7 auth = ''Bearer '' \<and> secureEqual (drop 7 auth) key))"

definition call_response ::
  "menv \<Rightarrow> string \<Rightarrow> params \<Rightarrow> json \<Rightarrow> Server \<Rightarrow> rpc_response \<times> Server" where
  "call_response E name ps i s =
    (case callTool E name ps s of
       (Inl e, s1) \<Rightarrow> (rpc_fail 200 (ToolFailed e) i, s1)
     | (Inr r, s1) \<Rightarrow> (rpc_ok (ToolValue r) i, s1))"

definition handle_method :: "menv \<Rightarrow> rpc_request \<Rightarrow> Server \<Rightarrow> rpc_response \<times> Server" where
  "handle_method E r s =
    (if rpc_method r \<in> {''list_tools'', ''tools/list''}
     then (rpc_ok (ToolList (ListTools (registered s))) (req_id r), s)
     else if rpc_method r \<in> {''call_tool'', ''tools/call''}
     then (case rpc_params r of
         None \<Rightarrow> (rpc_fail 200 InvalidParams (req_id r), s)
       | Some ps \<Rightarrow>
         call_response E (str_param ''name'' ps)
           (case map_of ps ''arguments'' of Some (VMap m) \<Rightarrow> m | _ \<Rightarrow> []) (req_id r) s)
     else if isKnownTool (registered s) (rpc_method r)
     then call_response E (rpc_method r) (case rpc_params r of None \<Rightarrow> [] | Some ps \<Rightarrow> ps) (req_id r) s
     else (rpc_fail 200 MethodNotFound (req_id r), s))"

text \<open>\<open>MaxBytesReader\<close> lets the decoder see the first mebibyte.\<close>

definition max_body :: nat where "max_body = 1048576"

definition Mcp_ServeHTTP :: "menv \<Rightarrow> mcp_http \<Rightarrow> Server \<Rightarrow> rpc_response \<times> Server" where
  "Mcp_ServeHTTP E r s =
    (if http_method r \<noteq> ''POST'' then (rpc_fail 405 InvalidRequestErr JNull, s)
     else if \<not> authorized (serverKey s) (http_header r) then (rpc_fail 401 Unauthorized JNull, s)
     else (case json_decode (take max_body (http_body r)) of
         None \<Rightarrow> (rpc_fail 400 ParseError JNull, s)
       | Some v \<Rightarrow>
         (case decode_request (tenv (proxy_env E)) v of
            None \<Rightarrow> (rpc_fail 400 ParseError JNull, s)
          | Some req \<Rightarrow>
            if jsonrpc req \<noteq> ''2.0'' then (rpc_fail 400 InvalidRequestErr (req_id req), s)
            else handle_method E req s)))"


section \<open>The printed response\<close>

definition rpc_error_of :: "menv \<Rightarrow> rpc_err \<Rightarrow> int \<times> string" where
  "rpc_error_of E e =
    (case e of
       ParseError \<Rightarrow> (-32700, ''Parse error'')
     | InvalidRequestErr \<Rightarrow> (-32600, ''Invalid Request'')
     | MethodNotFound \<Rightarrow> (-32601, ''Method not found'')
     | InvalidParams \<Rightarrow> (-32602, ''Invalid params'')
     | Unauthorized \<Rightarrow> (-32001, ''unauthorized'')
     | ToolFailed t \<Rightarrow> (-32602, err_text E t))"

definition decision_json :: "menv \<Rightarrow> Decision \<Rightarrow> json" where
  "decision_json E d =
    JObj ([(''in_scope'', JBool (InScope d)), (''reason'', JStr (scope_text E (Reason d)))]
      @ (if MatchedRule d = [] then [] else [(''matched_rule'', JStr (MatchedRule d))]))"

definition flag :: "string \<Rightarrow> bool \<Rightarrow> (string \<times> json) list" where
  "flag k b = (if b then [(k, JBool True)] else [])"

definition check_json :: "menv \<Rightarrow> CheckResult \<Rightarrow> json" where
  "check_json E r =
    JObj ([(''url'', JStr (CRurl r)), (''allowed'', JBool (Allowed r))]
      @ (case ScopeResult r of None \<Rightarrow> [] | Some d \<Rightarrow> [(''scope_result'', decision_json E d)])
      @ flag ''blocked_ip'' (BlockedIP r) @ flag ''denied_scheme'' (DeniedScheme r)
      @ flag ''rate_limited'' (RateLimited r) @ [(''reason'', JStr (check_text E (CReason r)))])"

text \<open>The results the adapter's client reads; the others are not printed here.\<close>

definition result_json :: "menv \<Rightarrow> rpc_result \<Rightarrow> json option" where
  "result_json E r =
    (case r of
       ToolValue (UrlCheck c) \<Rightarrow> Some (check_json E c)
     | ToolValue (SafeChecks rs) \<Rightarrow> Some (JObj [(''results'', JArr (map (check_json E) rs))])
     | ToolValue (KillActive b) \<Rightarrow> Some (JObj [(''active'', JBool b)])
     | _ \<Rightarrow> None)"

definition response_json :: "menv \<Rightarrow> rpc_response \<Rightarrow> json option" where
  "response_json E r =
    (case rpc_error r of
       Some e \<Rightarrow> (case rpc_error_of E e of (code, m) \<Rightarrow>
         Some (JObj [(''jsonrpc'', JStr ''2.0''),
           (''error'', JObj [(''code'', JNum (itoa code)), (''message'', JStr m)]), (''id'', rpc_id r)]))
     | None \<Rightarrow>
       (case rpc_result r of None \<Rightarrow> None
        | Some q \<Rightarrow> (case result_json E q of None \<Rightarrow> None
          | Some j \<Rightarrow> Some (JObj [(''jsonrpc'', JStr ''2.0''), (''result'', j), (''id'', rpc_id r)]))))"

definition writeJSON :: "menv \<Rightarrow> rpc_response \<Rightarrow> string option" where
  "writeJSON E r = map_option (\<lambda>v. json_print v @ [CHR 0x0A]) (response_json E r)"

section \<open>A server for the witnesses\<close>

text \<open>A server as \<open>cmd/pentest\<close> sets it up, with any keys and with or without specialists.\<close>

definition configured ::
  "ProxyConfig \<Rightarrow> int \<Rightarrow> string \<Rightarrow> string \<Rightarrow> string \<Rightarrow> string \<Rightarrow> SpecConfig option \<Rightarrow> Server" where
  "configured cfg n pid key tok gate spec =
    (let s = NewServer (NewProxy cfg None) (NewMemoryStore n)
     in SetProgramID pid (SetAPIKey key (SetDeactivationToken tok (SetGateApprovalToken gate
          (case spec of None \<Rightarrow> s | Some c \<Rightarrow> ConfigureSpecialists c s)))))"

definition demo_menv :: menv where
  "demo_menv = \<lparr> proxy_env = demo_env, adapter = demo_tools, reporter = demo_report_env, elapsed = ''1s'', zone = 0,
     act_now = 0, finding_id = ''f'', handler_id = ''h'', handler_now = 0, call_id = ''c'', call_now = 0,
     err_text = (\<lambda>_. ''error''), check_text = (\<lambda>_. ''check''), scope_text = (\<lambda>_. ''scope'') \<rparr>"

definition demo_server :: Server where
  "demo_server = configured demo_config 5 ''p'' ''key'' ''off'' ''gate'' (Some demo_spec)"

lemma demo_server_fields: "prx demo_server = demo_proxy" "serverKey demo_server = ''key''"
  by (simp_all add: demo_server_def configured_def SetProgramID_def SetAPIKey_def SetDeactivationToken_def
      SetGateApprovalToken_def ConfigureSpecialists_def NewServer_def demo_proxy_def Let_def)

end
