(* ===== verification/Mcp_Safety.thy ===== *)
theory Mcp_Safety
  imports Mcp
begin

text \<open>
  What one call of the MCP server can do: with the kill switch active, to the commands of the
  specialists, and to the parameters it logs.
\<close>

section \<open>What a call can change\<close>

lemma if_cases: "(c \<Longrightarrow> P a) \<Longrightarrow> (\<not> c \<Longrightarrow> P b) \<Longrightarrow> P (if c then a else b)"
  by simp

text \<open>Every branch of the dispatch keeps the state or is one of the handlers that change it.\<close>

lemma dispatch_rule:
  assumes "\<And>out. P (out, s)" "P (handleCheckURL E ps s)" "P (handleRunSafeCheck E ps s)"
    "name = ''activate_kill_switch'' \<Longrightarrow> P (handleActivateKillSwitch E ps s)"
    "name = ''deactivate_kill_switch'' \<Longrightarrow> P (handleDeactivateKillSwitch E ps s)"
    "name \<in> {''run_recon_specialist'', ''run_vuln_specialist'', ''run_gate_specialist''} \<Longrightarrow> P (handleRunSpecialist E name ps s)"
    "P (handleRecordAssets E ps s)" "P (handleRecordFinding E ps s)" "P (handleMarkTested E ps s)"
  shows "P (dispatch E name ps s)"
  unfolding dispatch_def
  by (intro if_cases [where P = P]) (rule assms, assumption?)+

text \<open>The settings of the server, which no call changes.\<close>

definition settings :: "Server \<Rightarrow> string \<times> string \<times> SpecConfig \<times> bool \<times> string" where
  "settings s = (serverKey s, deactivationToken s, specialistConfig s, registered s, gateApprovalToken s)"

lemma log_handler_simps [simp]:
  "prx (log_handler E d s) = prx s" "tool_runs (log_handler E d s) = tool_runs s"
  "settings (log_handler E d s) = settings s" "kill_active (log_handler E d s) = kill_active s"
  by (simp_all add: log_handler_def settings_def kill_active_def)

lemma logToolInvocation_simps [simp]:
  "prx (logToolInvocation E name ps out s) = prx s" "tool_runs (logToolInvocation E name ps out s) = tool_runs s"
  "settings (logToolInvocation E name ps out s) = settings s"
  "kill_active (logToolInvocation E name ps out s) = kill_active s"
  by (simp_all add: logToolInvocation_def settings_def kill_active_def)

lemmas handlers = handleCheckURL_def handleRunSafeCheck_def handleActivateKillSwitch_def
  handleDeactivateKillSwitch_def handleRecordAssets_def handleRecordFinding_def handleMarkTested_def

lemma settings_run [simp]: "settings (snd (run_registered E name targets cfg s)) = settings s"
  by (simp add: run_registered_def settings_def case_prod_unfold Let_def)

lemma settings_specialist [simp]: "settings (snd (handleRunSpecialist E name ps s)) = settings s"
  by (simp add: handleRunSpecialist_def split: sum.split)

lemma settings_dispatch: "settings (snd (dispatch E name ps s)) = settings s"
  by (rule dispatch_rule [where P = "\<lambda>x. settings (snd x) = settings s"])
    (use settings_specialist [of E name ps s, unfolded settings_def] in
      \<open>auto simp: handlers settings_def case_prod_unfold Let_def log_handler_def split: sum.split option.split val.split\<close>)

section \<open>The kill switch\<close>

definition held :: "Server \<Rightarrow> Server \<Rightarrow> bool" where
  "held s s' = (trace (prx s') = trace (prx s) \<and> tool_runs s' = tool_runs s)"

lemma active_switch: "kill_active s \<longleftrightarrow> CheckKillSwitch (prx s)"
  by (simp add: kill_active_def CheckKillSwitch_def)

lemma kill_after_dispatch:
  assumes "kill_active s"
  shows "held s (snd (dispatch E name ps s)) \<and>
    (kill_active (snd (dispatch E name ps s)) \<or>
     name = ''deactivate_kill_switch'' \<and> deactivationToken s \<noteq> [] \<and> str_param ''token'' ps = deactivationToken s)"
proof -
  have checks: "snd (CheckURL F raw (prx s)) = prx s" "snd (RunSafeCheck F urls (prx s)) = prx s" for F raw urls
    using killed_check killed_checks assms by (simp_all add: active_switch)
  show ?thesis
    by (rule dispatch_rule [where P = "\<lambda>x. held s (snd x) \<and>
        (kill_active (snd x) \<or> name = ''deactivate_kill_switch'' \<and> deactivationToken s \<noteq> [] \<and>
         str_param ''token'' ps = deactivationToken s)"])
      (use assms checks in \<open>auto simp: held_def handlers handleRunSpecialist_def case_prod_unfold Let_def
        kill_active_def IsActive_def Activate_def log_handler_def secureEqual_def
        split: sum.split option.split val.split\<close>)
qed


text \<open>From an invariant of the dispatch to one of the HTTP handler.\<close>

lemma callTool_cases:
  "snd (callTool E name ps s) = s \<or>
    (\<exists>out. snd (callTool E name ps s) = logToolInvocation E name ps out (snd (dispatch E name ps s)))"
  by (auto simp: callTool_def case_prod_unfold Let_def split: option.split) (metis prod.collapse)

definition tool_call_of :: "menv \<Rightarrow> mcp_http \<Rightarrow> Server \<Rightarrow> string \<Rightarrow> params \<Rightarrow> bool" where
  "tool_call_of E r s name ps =
    (http_method r = ''POST'' \<and> authorized (serverKey s) (http_header r) \<and>
     (\<exists>v req. json_decode (take max_body (http_body r)) = Some v \<and>
        decode_request (tenv (proxy_env E)) v = Some req \<and> jsonrpc req = ''2.0'' \<and>
        (if rpc_method req \<in> {''call_tool'', ''tools/call''}
         then (\<exists>qs. rpc_params req = Some qs \<and> name = str_param ''name'' qs \<and>
           ps = (case map_of qs ''arguments'' of Some (VMap m) \<Rightarrow> m | _ \<Rightarrow> []))
         else name = rpc_method req \<and> ps = (case rpc_params req of None \<Rightarrow> [] | Some qs \<Rightarrow> qs))))"

lemma snd_call_response: "snd (call_response E name ps i s) = snd (callTool E name ps s)"
  by (simp add: call_response_def split: prod.split sum.split)

lemma Mcp_ServeHTTP_cases:
  "snd (Mcp_ServeHTTP E r s) = s \<or>
    (\<exists>name ps. tool_call_of E r s name ps \<and> snd (Mcp_ServeHTTP E r s) = snd (callTool E name ps s))"
proof (cases "http_method r = ''POST'' \<and> authorized (serverKey s) (http_header r)")
  case True
  show ?thesis
  proof (cases "\<exists>v req. json_decode (take max_body (http_body r)) = Some v \<and>
      decode_request (tenv (proxy_env E)) v = Some req \<and> jsonrpc req = ''2.0''")
    case ok: True
    then obtain v req where v: "json_decode (take max_body (http_body r)) = Some v"
      "decode_request (tenv (proxy_env E)) v = Some req" "jsonrpc req = ''2.0''" by blast
    have eq: "Mcp_ServeHTTP E r s = handle_method E req s" using True v by (simp add: Mcp_ServeHTTP_def)
    show ?thesis
      unfolding eq using True v
      by (cases "rpc_params req")
        (auto simp: handle_method_def tool_call_of_def snd_call_response simp del: insert_iff)
  next
    case False
    then have "snd (Mcp_ServeHTTP E r s) = s"
      using True by (auto simp: Mcp_ServeHTTP_def split: option.split)
    then show ?thesis by blast
  qed
qed (auto simp: Mcp_ServeHTTP_def)

text \<open>A relation between the states that logging and doing nothing respect.\<close>

lemma Mcp_step:
  assumes "R s s" "\<And>t name ps out. R s t \<Longrightarrow> R s (logToolInvocation E name ps out t)"
    and "\<And>name ps. tool_call_of E r s name ps \<Longrightarrow> R s (snd (dispatch E name ps s))"
  shows "R s (snd (Mcp_ServeHTTP E r s))"
  using Mcp_ServeHTTP_cases [of E r s] callTool_cases assms by metis

lemma settings_ServeHTTP: "settings (snd (Mcp_ServeHTTP E r s)) = settings s"
  by (rule Mcp_step [where R = "\<lambda>s t. settings t = settings s"]) (simp_all add: settings_dispatch)

definition carries_token :: "menv \<Rightarrow> mcp_http \<Rightarrow> Server \<Rightarrow> bool" where
  "carries_token E r s =
    (deactivationToken s \<noteq> [] \<and>
     (\<exists>ps. tool_call_of E r s ''deactivate_kill_switch'' ps \<and> str_param ''token'' ps = deactivationToken s))"

lemma kill_after_ServeHTTP:
  assumes "kill_active s"
  shows "held s (snd (Mcp_ServeHTTP E r s)) \<and> (kill_active (snd (Mcp_ServeHTTP E r s)) \<or> carries_token E r s)"
  by (rule Mcp_step [where R = "\<lambda>s t. held s t \<and> (kill_active t \<or> carries_token E r s)"])
    (use assms kill_after_dispatch [OF assms, of E] in \<open>auto simp: held_def carries_token_def\<close>)

section \<open>Proxy traffic and calls interleaved\<close>

datatype sys_op = Traffic penv gw_op | Call menv mcp_http

fun sys_apply :: "sys_op \<Rightarrow> Server \<Rightarrow> Server" where
  "sys_apply (Traffic E op) s = s\<lparr> prx := gw_apply E op (prx s) \<rparr>"
| "sys_apply (Call E r) s = snd (Mcp_ServeHTTP E r s)"

fun opens_switch :: "Server \<Rightarrow> sys_op \<Rightarrow> bool" where
  "opens_switch s (Traffic E op) = (op = GwUnkill)"
| "opens_switch s (Call E r) = carries_token E r s"

lemma carries_token_cong: "settings s = settings t \<Longrightarrow> opens_switch s op = opens_switch t op"
  by (cases op) (auto simp: settings_def carries_token_def tool_call_of_def)

lemma settings_apply: "settings (sys_apply op s) = settings s"
  by (cases op) (simp_all add: settings_ServeHTTP, simp add: settings_def)

lemma kill_after_apply:
  assumes "kill_active s" "\<not> opens_switch s op"
  shows "held s (sys_apply op s) \<and> kill_active (sys_apply op s)"
proof (cases op)
  case (Traffic E gop)
  then show ?thesis
    using killed_apply [of "prx s" gop E] assms by (simp add: held_def active_switch)
next
  case (Call E r)
  then show ?thesis using kill_after_ServeHTTP [OF assms(1), of E r] assms(2) by auto
qed

text \<open>
  C2: once the kill switch is active, no sequence of proxy traffic and MCP requests without
  an authorised deactivation call that carries the deactivation token turns it off, puts
  anything on the network or starts a tool.
\<close>

theorem kill_switch_holds_the_system:
  assumes "kill_active s0" "\<forall>op\<in>set ops. \<not> opens_switch s0 op"
  shows "kill_active (fold sys_apply ops s0) \<and> trace (prx (fold sys_apply ops s0)) = trace (prx s0) \<and>
    tool_runs (fold sys_apply ops s0) = tool_runs s0"
  using assms
proof (induction ops arbitrary: s0)
  case (Cons op ops)
  let ?s = "sys_apply op s0"
  have "held s0 ?s" "kill_active ?s" using kill_after_apply Cons.prems by auto
  moreover have "\<forall>op\<in>set ops. \<not> opens_switch ?s op"
    using Cons.prems carries_token_cong [OF settings_apply [of op s0]] by simp
  ultimately show ?case using Cons.IH [of ?s] by (auto simp: held_def)
qed simp

theorem kill_switch_holds_the_system_witness:
  "kill_active (fold sys_apply [Traffic demo_env (GwServe demo_request),
       Call demo_menv \<lparr> http_method = ''POST'', http_header = [], http_body = ''{}'' \<rparr>]
     (demo_server\<lparr> prx := gw_apply demo_env (GwKill 0 ''admin'') demo_proxy \<rparr>))"
proof -
  let ?s = "demo_server\<lparr> prx := gw_apply demo_env (GwKill 0 ''admin'') demo_proxy \<rparr>"
  have k: "kill_active ?s" by (simp add: kill_active_def IsActive_def Activate_def demo_defs)
  have "\<not> opens_switch ?s (Call demo_menv \<lparr> http_method = ''POST'', http_header = [], http_body = ''{}'' \<rparr>)"
    by (simp add: carries_token_def tool_call_of_def authorized_def header_values_def demo_server_fields Let_def)
  with kill_switch_holds_the_system [OF k, of "[Traffic demo_env (GwServe demo_request),
       Call demo_menv \<lparr> http_method = ''POST'', http_header = [], http_body = ''{}'' \<rparr>]"]
  show ?thesis by simp
qed

section \<open>Commands a call can start\<close>

text \<open>The run behind a specialist tool is one of the registered ones.\<close>

lemma run_registered_call:
  assumes "name \<in> {''run_recon_specialist'', ''run_vuln_specialist'', ''run_gate_specialist''}"
  shows "tool_runs (snd (run_registered E name targets cfg s)) =
    run_call (adapter E) (reporter E) (elapsed E) (tool_runs s) (name, targets, cfg)"
  using assms
  by (auto simp: run_registered_def run_call_def specialists_def vuln_run_def case_prod_unfold Let_def)

definition approved :: "params \<Rightarrow> Server \<Rightarrow> bool" where
  "approved ps s = (gateApprovalToken s \<noteq> [] \<and> str_param ''approval_token'' ps = gateApprovalToken s)"

definition run_config :: "string \<Rightarrow> Server \<Rightarrow> SpecConfig" where
  "run_config name s =
    (if name = ''run_gate_specialist'' then (specialistConfig s)\<lparr> AllowExploitation := True \<rparr> else specialistConfig s)"

lemma specialistTargets_bound: "specialistTargets raw = Inr ts \<Longrightarrow> ts \<noteq> [] \<and> length ts \<le> 100"
  by (auto simp: specialistTargets_def split: option.splits val.splits if_splits)

lemma specialist_commands:
  assumes "name \<in> {''run_recon_specialist'', ''run_vuln_specialist'', ''run_gate_specialist''}"
  shows "tool_runs (snd (handleRunSpecialist E name ps s)) = tool_runs s \<or>
    (\<exists>targets. \<not> kill_active s \<and> registered s \<and> (name = ''run_gate_specialist'' \<longrightarrow> approved ps s) \<and>
      length targets \<le> 100 \<and>
      tool_runs (snd (handleRunSpecialist E name ps s)) =
        run_call (adapter E) (reporter E) (elapsed E) (tool_runs s) (name, targets, run_config name s))"
proof (cases "specialistTargets (map_of ps ''targets'')")
  case (Inr targets)
  then show ?thesis
    using run_registered_call [OF assms, of E targets _ s] specialistTargets_bound [OF Inr]
    by (auto simp: handleRunSpecialist_def approved_def run_config_def secureEqual_def simp del: insert_iff
        split: if_splits)
qed (simp add: handleRunSpecialist_def)

definition spec_names :: "string set" where
  "spec_names = {''run_recon_specialist'', ''run_vuln_specialist'', ''run_gate_specialist''}"

text \<open>The conditions under which a call of the tool \<open>name\<close> may start the command.\<close>

definition may_start :: "menv \<Rightarrow> Server \<Rightarrow> string \<Rightarrow> params \<Rightarrow> command \<Rightarrow> bool" where
  "may_start E s name ps cmd =
    (name \<in> spec_names \<and> \<not> kill_active s \<and> registered s \<and> \<not> SDryRun (specialistConfig s) \<and>
     (name = ''run_gate_specialist'' \<longrightarrow> approved ps s) \<and>
     (\<exists>targets. length targets \<le> 100 \<and> permitted_command (adapter E) (run_config name s) targets cmd))"

definition started_by :: "Server \<Rightarrow> (command \<Rightarrow> bool) \<Rightarrow> Server \<Rightarrow> bool" where
  "started_by s P s' =
    (\<exists>cmds. commands (tool_runs s') = commands (tool_runs s) @ cmds \<and> list_all P cmds)"

lemma started_by_same: "tool_runs s' = tool_runs s \<Longrightarrow> started_by s P s'"
  unfolding started_by_def by (intro exI [of _ "[]"]) simp

lemma dispatch_starts: "started_by s (may_start E s name ps) (snd (dispatch E name ps s))"
proof (rule dispatch_rule [where P = "\<lambda>x. started_by s (may_start E s name ps) (snd x)"])
  assume n: "name \<in> {''run_recon_specialist'', ''run_vuln_specialist'', ''run_gate_specialist''}"
  show "started_by s (may_start E s name ps) (snd (handleRunSpecialist E name ps s))"
  proof (cases "tool_runs (snd (handleRunSpecialist E name ps s)) = tool_runs s")
    case False
    with specialist_commands [OF n, of E ps s] obtain targets where
      t: "\<not> kill_active s" "registered s" "name = ''run_gate_specialist'' \<longrightarrow> approved ps s" "length targets \<le> 100"
        "tool_runs (snd (handleRunSpecialist E name ps s)) =
          run_call (adapter E) (reporter E) (elapsed E) (tool_runs s) (name, targets, run_config name s)" by blast
    from run_call_permitted [of "adapter E" "reporter E" "elapsed E" "tool_runs s" name targets "run_config name s"]
    obtain cmds where c: "commands (tool_runs (snd (handleRunSpecialist E name ps s))) = commands (tool_runs s) @ cmds"
      "SDryRun (run_config name s) \<longrightarrow> cmds = []"
      "\<forall>cmd\<in>set cmds. permitted_command (adapter E) (run_config name s) targets cmd"
      unfolding t(5) by blast
    have "SDryRun (run_config name s) = SDryRun (specialistConfig s)" by (simp add: run_config_def)
    with c t n have "list_all (may_start E s name ps) cmds"
      unfolding may_start_def spec_names_def list_all_iff by (metis empty_iff empty_set)
    with c(1) show ?thesis unfolding started_by_def by blast
  qed (rule started_by_same)
qed (auto intro!: started_by_same simp: handlers log_handler_def case_prod_unfold Let_def
    split: sum.split option.split val.split)

lemma started_mono: "started_by s P s' \<Longrightarrow> (\<And>cmd. P cmd \<Longrightarrow> Q cmd) \<Longrightarrow> started_by s Q s'"
  by (fastforce simp: started_by_def list_all_iff)

lemma mcp_started:
  "\<exists>cmds. commands (tool_runs (snd (Mcp_ServeHTTP E r s))) = commands (tool_runs s) @ cmds \<and>
    list_all (\<lambda>cmd. \<exists>name ps. tool_call_of E r s name ps \<and> may_start E s name ps cmd) cmds"
proof -
  let ?P = "\<lambda>cmd. \<exists>name ps. tool_call_of E r s name ps \<and> may_start E s name ps cmd"
  have "started_by s ?P (snd (Mcp_ServeHTTP E r s))"
  proof (rule Mcp_step [where R = "\<lambda>s s'. started_by s ?P s'"])
    show "started_by s ?P (logToolInvocation E name ps out t)" if "started_by s ?P t" for t name ps out
      using that by (simp add: started_by_def)
  next
    fix name ps assume "tool_call_of E r s name ps"
    then show "started_by s ?P (snd (dispatch E name ps s))"
      using started_mono [OF dispatch_starts [of s E name ps], of ?P] by blast
  qed (simp add: started_by_same)
  then show ?thesis by (simp add: started_by_def)
qed

text \<open>
  C9: the commands an MCP request starts are all due to a tool call it carries, of a
  registered specialist that may start them: the switch is off, the targets are at most a
  hundred hosts, the gate's approval token was given where it is needed, and the adapter
  permits the command.
\<close>

theorem mcp_commands_permitted:
  "\<exists>cmds. commands (tool_runs (snd (Mcp_ServeHTTP E r s))) = commands (tool_runs s) @ cmds \<and>
    list_all (\<lambda>cmd. \<exists>name ps. tool_call_of E r s name ps \<and> may_start E s name ps cmd) cmds"
  by (rule mcp_started)

section \<open>What the log keeps of the parameters\<close>

text \<open>The entries of a map at every depth: through maps, and through lists of maps.\<close>

inductive occurs :: "val \<Rightarrow> string \<Rightarrow> val \<Rightarrow> bool" where
  here: "(k, v) \<in> set m \<Longrightarrow> occurs (VMap m) k v"
| in_map: "(j, VMap n) \<in> set m \<Longrightarrow> occurs (VMap n) k v \<Longrightarrow> occurs (VMap m) k v"
| in_list: "(j, VList xs) \<in> set m \<Longrightarrow> VMap n \<in> set xs \<Longrightarrow> occurs (VMap n) k v \<Longrightarrow> occurs (VMap m) k v"

inductive_simps occurs_map: "occurs (VMap m) k v"

lemma redact_val_cases:
  "(\<exists>m. x = VMap m) \<or> redact_val E x = x"
  by (cases x) auto

lemma redact_to_map: "redact_val E x = VMap n \<Longrightarrow> \<exists>m. x = VMap m"
  by (cases x) auto

lemma redact_entry_to_map: "redact_entry E x = VMap n \<Longrightarrow> \<exists>m. x = VMap m \<and> redact_val E x = VMap n"
  by (cases x) auto

lemma redact_entry_to_list: "redact_entry E x = VList ys \<Longrightarrow> \<exists>xs. x = VList xs \<and> ys = map (redact_val E) xs"
  by (cases x) auto

lemma redacted_occurs:
  "occurs w k v \<Longrightarrow> w = redact_val E x \<Longrightarrow> isSensitiveKey E k \<Longrightarrow> v = redacted_value"
proof (induction arbitrary: x rule: occurs.induct)
  case (here k v m)
  then obtain m0 where "x = VMap m0" using redact_to_map by metis
  with here show ?case by (auto split: if_splits)
next
  case (in_map j n m k v)
  then obtain m0 where x: "x = VMap m0" using redact_to_map by metis
  from in_map.hyps(1) in_map.prems(1) have "\<exists>y. redact_entry E y = VMap n"
    unfolding x by (auto simp: redacted_value_def split: if_splits)
  then obtain y where "redact_entry E y = VMap n" ..
  with redact_entry_to_map [of E y n] in_map.IH [of y] in_map.prems(2) show ?case by auto
next
  case (in_list j xs m n k v)
  then obtain m0 where x: "x = VMap m0" using redact_to_map by metis
  from in_list.hyps(1) in_list.prems(1) have "\<exists>y. redact_entry E y = VList xs"
    unfolding x by (auto simp: redacted_value_def split: if_splits)
  then obtain y where "redact_entry E y = VList xs" ..
  with redact_entry_to_list [of E y xs] in_list.hyps(2) obtain z where "VMap n = redact_val E z" by auto
  with in_list.IH [of z] in_list.prems(2) show ?case by blast
qed

lemma redact_map_val: "VMap (redactSensitiveMap E ps) = redact_val E (VMap ps)"
  by (simp add: redactSensitiveMap_def)

text \<open>A list inside a list is copied as it is.\<close>

lemma nested_list_kept:
  "redactSensitiveMap E [(''x'', VList [VList [VMap [(''token'', VStr ''t'')]]])] =
    [(''x'', VList [VList [VMap [(''token'', VStr ''t'')]]])]" if "\<not> isSensitiveKey E ''x''"
  using that by (simp add: redactSensitiveMap_def)

text \<open>
  C12: wherever a sensitive key occurs in the logged parameters, at any depth through maps
  and through lists of maps, its value is the redaction mark.
\<close>

theorem logged_parameters_redacted:
  assumes "occurs (VMap (redactSensitiveMap E ps)) k v" "isSensitiveKey E k"
  shows "v = redacted_value"
  using redacted_occurs [OF assms(1) redact_map_val assms(2)] .

theorem logged_parameters_redacted_witness:
  "occurs (VMap (redactSensitiveMap ascii_env [(''arguments'', VMap [(''token'', VStr ''secret'')])])) ''token'' redacted_value"
proof -
  have "isSensitiveKey ascii_env ''token''" "\<not> isSensitiveKey ascii_env ''arguments''"
    by (simp_all add: isSensitiveKey_def go_eval)
  moreover have "occurs (VMap [(''arguments'', VMap [(''token'', redacted_value)])]) ''token'' redacted_value"
    by (rule occurs.in_map [of "''arguments''" "[(''token'', redacted_value)]"]) (auto intro: occurs.here)
  moreover from calculation have "occurs (VMap (redactSensitiveMap ascii_env
      [(''arguments'', VMap [(''token'', VStr ''secret'')])])) ''token'' redacted_value"
    by (simp add: redactSensitiveMap_def)
  ultimately show ?thesis
    using logged_parameters_redacted [of ascii_env "[(''arguments'', VMap [(''token'', VStr ''secret'')])]" "''token''" redacted_value]
    by simp
qed

section \<open>The system keeps its invariants\<close>

lemma dispatch_prx:
  "prx (snd (dispatch E name ps s)) = prx s \<or>
    (\<exists>op. prx (snd (dispatch E name ps s)) = gw_apply (proxy_env E) op (prx s))"
proof -
  have check: "snd (CheckURL (proxy_env E) u p) = gw_apply (proxy_env E) (GwCheck [u]) p" for u p
    by (simp add: case_prod_unfold Let_def)
  have spec: "prx (snd (handleRunSpecialist E name ps s)) = prx s"
    by (simp add: handleRunSpecialist_def run_registered_def case_prod_unfold Let_def split: sum.split)
  show ?thesis
  proof (rule dispatch_rule [where P = "\<lambda>x. prx (snd x) = prx s \<or> (\<exists>op. prx (snd x) = gw_apply (proxy_env E) op (prx s))"])
    show "prx (snd (handleCheckURL E ps s)) = prx s \<or> (\<exists>op. prx (snd (handleCheckURL E ps s)) = gw_apply (proxy_env E) op (prx s))"
      using check [of "str_param ''url'' ps" "prx s"] by (auto simp: handleCheckURL_def case_prod_unfold Let_def simp del: gw_apply.simps)
  next
    show "prx (snd (handleRunSafeCheck E ps s)) = prx s \<or> (\<exists>op. prx (snd (handleRunSafeCheck E ps s)) = gw_apply (proxy_env E) op (prx s))"
      using gw_apply.simps(2) [of "proxy_env E" _ "prx s"]
      by (auto simp: handleRunSafeCheck_def case_prod_unfold Let_def simp del: gw_apply.simps split: option.split val.split sum.split) metis
  next
    show "prx (snd (handleActivateKillSwitch E ps s)) = prx s \<or> (\<exists>op. prx (snd (handleActivateKillSwitch E ps s)) = gw_apply (proxy_env E) op (prx s))"
      by (intro disjI2 exI [of _ "GwKill (act_now E) (if str_param ''reason'' ps = [] then ''mcp:unknown''
          else ''mcp:'' @ str_param ''reason'' ps)"]) (simp add: handleActivateKillSwitch_def log_handler_def Let_def)
  next
    show "prx (snd (handleDeactivateKillSwitch E ps s)) = prx s \<or> (\<exists>op. prx (snd (handleDeactivateKillSwitch E ps s)) = gw_apply (proxy_env E) op (prx s))"
      using gw_apply.simps(4) [of "proxy_env E" "prx s"]
      by (auto simp: handleDeactivateKillSwitch_def log_handler_def Let_def simp del: gw_apply.simps) metis
  qed (use spec in \<open>auto simp: handleRecordAssets_def handleRecordFinding_def handleMarkTested_def
      case_prod_unfold Let_def split: sum.split option.split\<close>)
qed

end
