(* ===== verification/Mcp_System.thy ===== *)
theory Mcp_System
  imports Mcp_Safety
begin

text \<open>
  The server as a state machine: \<open>sys_reach\<close> are the states that proxy traffic and MCP requests,
  in any order and with any answers of the environment, reach from a configured server. The
  invariant composes those of the proxy and of the store with the record of the commands.
  Calls are atomic; a specialist's own requests to the server are answers of the environment.
\<close>

section \<open>What a call leaves in the store\<close>

lemma RecordFinding_inv: "store_inv s \<Longrightarrow> store_inv (snd (RecordFinding i t p f s))"
  by (simp add: RecordFinding_def store_inv_def Let_def)

lemma MarkTested_inv: "store_inv s \<Longrightarrow> store_inv (MarkTested t p te s)"
  by (simp add: MarkTested_def store_inv_def Let_def)

lemma log_handler_inv: "store_inv (mstore s) \<Longrightarrow> store_inv (mstore (log_handler E d s))"
  by (simp add: log_handler_def LogEntry_inv)

lemma mstore_specialist [simp]: "mstore (snd (handleRunSpecialist E name ps s)) = mstore s"
  by (simp add: handleRunSpecialist_def run_registered_def case_prod_unfold Let_def split: sum.split)

lemma dispatch_store_inv:
  assumes "store_inv (mstore s)"
  shows "store_inv (mstore (snd (dispatch E name ps s)))"
proof (rule dispatch_rule [where P = "\<lambda>x. store_inv (mstore (snd x))"])
  show "store_inv (mstore (snd (handleRecordFinding E ps s)))"
    using RecordFinding_inv [OF assms] assms
    by (auto simp: handleRecordFinding_def case_prod_unfold Let_def split: option.split)
next
  show "store_inv (mstore (snd (handleActivateKillSwitch E ps s)))"
    unfolding handleActivateKillSwitch_def Let_def snd_conv by (rule log_handler_inv) (simp add: assms)
next
  show "store_inv (mstore (snd (handleDeactivateKillSwitch E ps s)))"
    using assms by (auto simp: handleDeactivateKillSwitch_def Let_def intro!: log_handler_inv)
qed (use assms in \<open>auto simp: handleCheckURL_def handleRunSafeCheck_def handleRecordAssets_def handleMarkTested_def
    case_prod_unfold Let_def RecordAssets_inv MarkTested_inv split: sum.split option.split val.split\<close>)

lemma log_call_inv: "store_inv (mstore s) \<Longrightarrow> store_inv (mstore (logToolInvocation E name ps out s))"
  by (simp add: logToolInvocation_def LogEntry_inv)

section \<open>Reachable states\<close>

inductive sys_reach :: "penv \<Rightarrow> ProxyConfig \<Rightarrow> adapter_env \<Rightarrow> Server \<Rightarrow> bool" for E0 cfg A where
  start: "sys_reach E0 cfg A (configured cfg n pid key tok gate spec)"
| traffic: "sys_reach E0 cfg A s \<Longrightarrow> tenv E = tenv E0 \<Longrightarrow> sys_reach E0 cfg A (sys_apply (Traffic E op) s)"
| mcp: "sys_reach E0 cfg A s \<Longrightarrow> tenv (proxy_env E) = tenv E0 \<Longrightarrow> adapter E = A \<Longrightarrow>
    sys_reach E0 cfg A (sys_apply (Call E r) s)"

text \<open>A command any earlier call may have started.\<close>

definition command_ok :: "adapter_env \<Rightarrow> Server \<Rightarrow> command \<Rightarrow> bool" where
  "command_ok A s cmd =
    (\<exists>name targets. name \<in> spec_names \<and> registered s \<and> \<not> SDryRun (specialistConfig s) \<and>
      (name = ''run_gate_specialist'' \<longrightarrow> gateApprovalToken s \<noteq> []) \<and> length targets \<le> 100 \<and>
      permitted_command A (run_config name s) targets cmd)"

lemma command_ok_settings: "settings s = settings t \<Longrightarrow> command_ok A s = command_ok A t"
  by (auto simp: command_ok_def settings_def run_config_def fun_eq_iff)

lemma may_start_ok: "may_start E s name ps cmd \<Longrightarrow> command_ok (adapter E) s cmd"
  unfolding may_start_def command_ok_def approved_def by blast

definition sys_inv :: "penv \<Rightarrow> ProxyConfig \<Rightarrow> adapter_env \<Rightarrow> Server \<Rightarrow> bool" where
  "sys_inv E0 cfg A s =
    (gw_inv E0 cfg (prx s) \<and> store_inv (mstore s) \<and> list_all (command_ok A s) (commands (tool_runs s)))"

lemma sys_inv_start: "sys_inv E0 cfg A (configured cfg n pid key tok gate spec)"
  by (cases spec) (simp_all add: configured_def sys_inv_def gw_inv_start SetProgramID_def SetAPIKey_def
      SetDeactivationToken_def SetGateApprovalToken_def ConfigureSpecialists_def NewServer_def)

lemma sys_inv_traffic:
  assumes "sys_inv E0 cfg A s" "tenv E = tenv E0"
  shows "sys_inv E0 cfg A (sys_apply (Traffic E op) s)"
proof -
  have "command_ok A (sys_apply (Traffic E op) s) = command_ok A s"
    by (rule command_ok_settings [OF settings_apply])
  then show ?thesis using assms gw_inv_apply [of E0 cfg "prx s" E op] by (simp add: sys_inv_def)
qed

lemma sys_inv_call:
  assumes inv: "sys_inv E0 cfg A s" and E: "tenv (proxy_env E) = tenv E0" "adapter E = A"
  shows "sys_inv E0 cfg A (sys_apply (Call E r) s)"
proof -
  let ?s = "sys_apply (Call E r) s"
  have state: "gw_inv E0 cfg (prx ?s) \<and> store_inv (mstore ?s)"
    unfolding sys_apply.simps
  proof (rule Mcp_step [where R = "\<lambda>_ t. gw_inv E0 cfg (prx t) \<and> store_inv (mstore t)"])
    show "gw_inv E0 cfg (prx (snd (dispatch E name ps s))) \<and> store_inv (mstore (snd (dispatch E name ps s)))" for name ps
      using dispatch_prx [of E name ps s] dispatch_store_inv [of s E name ps] gw_inv_apply [OF _ E(1)] inv
      by (auto simp: sys_inv_def)
  qed (use inv in \<open>auto simp: sys_inv_def log_call_inv\<close>)
  obtain cmds where c: "commands (tool_runs ?s) = commands (tool_runs s) @ cmds"
      "list_all (\<lambda>cmd. \<exists>name ps. tool_call_of E r s name ps \<and> may_start E s name ps cmd) cmds"
    using mcp_started [of E r s] by auto
  have "list_all (command_ok A s) cmds"
    using c(2) may_start_ok [of E s] E(2) by (auto simp: list_all_iff)
  moreover have "command_ok A ?s = command_ok A s" by (rule command_ok_settings [OF settings_apply])
  ultimately show ?thesis using state inv c(1) by (simp add: sys_inv_def)
qed

lemma sys_reach_inv: "sys_reach E0 cfg A s \<Longrightarrow> sys_inv E0 cfg A s"
  by (induction rule: sys_reach.induct) (simp_all add: sys_inv_start sys_inv_traffic sys_inv_call del: sys_apply.simps)

text \<open>Steps whose environments share the text tables and the adapters.\<close>

fun op_in :: "penv \<Rightarrow> adapter_env \<Rightarrow> sys_op \<Rightarrow> bool" where
  "op_in E0 A (Traffic E op) = (tenv E = tenv E0)"
| "op_in E0 A (Call E r) = (tenv (proxy_env E) = tenv E0 \<and> adapter E = A)"

lemma sys_inv_step: "sys_inv E0 cfg A s \<Longrightarrow> op_in E0 A op \<Longrightarrow> sys_inv E0 cfg A (sys_apply op s)"
  by (cases op) (simp_all add: sys_inv_traffic sys_inv_call del: sys_apply.simps)

lemma sys_inv_run: "sys_inv E0 cfg A s \<Longrightarrow> list_all (op_in E0 A) ops \<Longrightarrow> sys_inv E0 cfg A (fold sys_apply ops s)"
  by (induction ops arbitrary: s) (simp_all add: sys_inv_step)

theorem system_safe:
  assumes "sys_reach E0 cfg A s"
  shows "resolved_ok (prx s) \<and> switch_ok (switch (prx s)) \<and>
    list_all (event_permitted E0 (NewProxy cfg None)) (trace (prx s)) \<and> store_inv (mstore s) \<and>
    list_all (command_ok A s) (commands (tool_runs s))"
  using sys_reach_inv [OF assms] by (simp add: sys_inv_def gw_inv_def)

theorem system_safe_witness:
  "sys_reach demo_env demo_config A (sys_apply (Traffic demo_env (GwServe demo_request)) demo_server) \<and>
   sent (prx (sys_apply (Traffic demo_env (GwServe demo_request)) demo_server)) = [demo_x, demo_url] \<and>
   list_all (event_permitted demo_env (NewProxy demo_config None))
     (trace (prx (sys_apply (Traffic demo_env (GwServe demo_request)) demo_server)))"
proof -
  have "sys_reach demo_env demo_config A (sys_apply (Traffic demo_env (GwServe demo_request)) demo_server)"
    unfolding demo_server_def by (intro sys_reach.traffic sys_reach.start refl)
  with system_safe [OF this] demo_run(1) show ?thesis by (simp add: demo_server_fields)
qed

section \<open>Every call is logged\<close>

definition valid_call :: "Server \<Rightarrow> string \<Rightarrow> params \<Rightarrow> bool" where
  "valid_call s name ps =
    (case find (\<lambda>t. ToolName t = name) (ListTools (registered s)) of
       None \<Rightarrow> False | Some t \<Rightarrow> validateParams t ps = None)"

lemma callTool_valid:
  "valid_call s name ps \<Longrightarrow>
    callTool E name ps s = (case dispatch E name ps s of (out, s1) \<Rightarrow> (fst out, logToolInvocation E name ps out s1))"
  by (auto simp: valid_call_def callTool_def Let_def split: option.splits)

lemma callTool_invalid: "\<not> valid_call s name ps \<Longrightarrow> snd (callTool E name ps s) = s \<and> is_err (fst (callTool E name ps s))"
  by (auto simp: valid_call_def callTool_def is_err_def split: option.splits)

lemma dispatch_logger:
  assumes "name \<notin> {''activate_kill_switch'', ''deactivate_kill_switch''}"
  shows "logger (mstore (snd (dispatch E name ps s))) = logger (mstore s)"
proof (rule dispatch_rule [where P = "\<lambda>x. logger (mstore (snd x)) = logger (mstore s)"])
qed (use assms in \<open>auto simp: handleCheckURL_def handleRunSafeCheck_def handleRecordAssets_def handleMarkTested_def
    handleRecordFinding_def RecordFinding_def RecordAssets_def MarkTested_def
    case_prod_unfold Let_def split: sum.split option.split val.split\<close>)

text \<open>
  C11: a valid tool call returns what its handler returns and appends to the log the handler
  left exactly one entry, with component, event type, clock reading, the tool's name, the
  parameters redacted, and the error or the kind of result; apart from the two kill switch
  tools the handlers themselves log nothing. An invalid call returns an error and changes
  nothing.
\<close>

theorem calls_logged:
  assumes "store_inv (mstore s)" "dispatch E name ps s = (out, s1)"
  shows "if valid_call s name ps
    then fst (callTool E name ps s) = fst out
      \<and> entries (logger (mstore (snd (callTool E name ps s)))) =
          last_n (maxEntries (logger (mstore s1))) (entries (logger (mstore s1)) @
            [\<lparr> EntryID = call_id E, Timestamp = rfc3339_nano 0 (call_now E), Component = ''mcp'',
               EventType = ''tool_invocation'',
               EData = Some ([(''tool'', VStr name), (''params'', VMap (redactSensitiveMap (tenv (proxy_env E)) ps))]
                 @ (case fst out of Inl e \<Rightarrow> [(''error'', VStr (err_text E e))] | Inr _ \<Rightarrow> [])
                 @ (case snd out of None \<Rightarrow> [] | Some t \<Rightarrow> [(''result_type'', VStr t)])),
               Redacted = False \<rparr>])
      \<and> (name \<notin> {''activate_kill_switch'', ''deactivate_kill_switch''} \<longrightarrow>
         logger (mstore s1) = logger (mstore s))
    else is_err (fst (callTool E name ps s)) \<and> snd (callTool E name ps s) = s"
proof (cases "valid_call s name ps")
  case True
  have "logger_ok (logger (mstore s1))"
    using dispatch_store_inv [OF assms(1), of E name ps] assms(2) by (simp add: store_inv_def)
  note pushed = append_entry_items [OF this]
  have call: "callTool E name ps s = (fst out, logToolInvocation E name ps out s1)"
    using True assms(2) by (simp add: callTool_valid)
  have "logger (mstore s1) = logger (mstore s)" if "name \<notin> {''activate_kill_switch'', ''deactivate_kill_switch''}"
    using dispatch_logger [of name E ps s] that assms(2) by simp
  with True show ?thesis
    unfolding call
    by (simp add: logToolInvocation_def LogEntry_push push_entry_def pushed new_entry_def invocation_data_def)
qed (simp add: callTool_invalid)

lemma demo_token: "deactivationToken demo_server = ''off''"
  by (simp add: demo_server_def configured_def SetProgramID_def SetAPIKey_def SetDeactivationToken_def
      SetGateApprovalToken_def ConfigureSpecialists_def NewServer_def)

theorem calls_logged_witness:
  "\<exists>err. map_option (take 3) (EData (last (entries (logger (mstore (snd
      (callTool demo_menv ''deactivate_kill_switch'' [(''token'', VStr ''guess'')] demo_server))))))) =
    Some [(''tool'', VStr ''deactivate_kill_switch''), (''params'', VMap [(''token'', VStr ''[REDACTED]'')]),
      (''error'', VStr err)]"
proof -
  let ?ps = "[(''token'', VStr ''guess'')]"
  have v: "valid_call demo_server ''deactivate_kill_switch'' ?ps"
    by (simp add: valid_call_def ListTools_def no_params_def tool_check_url_def tool_audit_log_def
        tool_activate_def tool_deactivate_def validateParams_def)
  have st: "store_inv (mstore demo_server)"
    using sys_inv_start [of demo_env demo_config demo_tools 5] by (simp add: sys_inv_def demo_server_def)
  obtain e t s1 where d: "dispatch demo_menv ''deactivate_kill_switch'' ?ps demo_server = ((Inl e, Some t), s1)"
    by (cases "deactivationToken demo_server = []") (auto simp: dispatch_def handleDeactivateKillSwitch_def
        demo_token str_param_def secureEqual_def)
  have "0 < maxEntries (logger (mstore s1))"
    using dispatch_store_inv [OF st, of demo_menv "''deactivate_kill_switch''" ?ps] d
    by (simp add: store_inv_def logger_ok_def)
  moreover have "isSensitiveKey (tenv (proxy_env demo_menv)) ''token''"
    by (simp add: isSensitiveKey_def demo_menv_def demo_env_def go_eval)
  ultimately show ?thesis
    using calls_logged [OF st d] v by (simp add: last_n_snoc redactSensitiveMap_def redacted_value_def)
qed

section \<open>Authorization\<close>

lemma authorized_key:
  "authorized key h \<longleftrightarrow> key = [] \<or> (\<exists>as. header_values ''Authorization'' h = (''Bearer '' @ key) # as)"
proof (cases "key = []")
  case False
  show ?thesis
  proof (cases "header_values ''Authorization'' h")
    case (Cons a as)
    have "7 < length a \<and> take 7 a = ''Bearer '' \<and> drop 7 a = key \<longleftrightarrow> a = ''Bearer '' @ key"
    proof
      assume "7 < length a \<and> take 7 a = ''Bearer '' \<and> drop 7 a = key"
      then show "a = ''Bearer '' @ key" using append_take_drop_id [of 7 a] by metis
    qed (use False in \<open>simp add: numeral_eq_Suc\<close>)
    with False Cons show ?thesis by (auto simp: authorized_def secureEqual_def)
  qed (simp add: authorized_def False)
qed (simp add: authorized_def)

lemma handle_method_status: "rpc_status (fst (handle_method E req s)) = 200"
  by (auto simp: handle_method_def call_response_def rpc_ok_def rpc_fail_def split: option.split prod.split sum.split)

text \<open>
  C10: a request that is not a POST, has no matching bearer key or is not JSON gets status
  405, 401 or 400 and changes nothing; any other gets status 200 or 400.
\<close>

theorem only_authorized_posts_act:
  "if http_method r \<noteq> ''POST'' then Mcp_ServeHTTP E r s = (rpc_fail 405 InvalidRequestErr JNull, s)
   else if serverKey s \<noteq> [] \<and> take 1 (header_values ''Authorization'' (http_header r)) \<noteq> [''Bearer '' @ serverKey s]
   then Mcp_ServeHTTP E r s = (rpc_fail 401 Unauthorized JNull, s)
   else if json_decode (take max_body (http_body r)) = None
   then Mcp_ServeHTTP E r s = (rpc_fail 400 ParseError JNull, s)
   else rpc_status (fst (Mcp_ServeHTTP E r s)) \<in> {200, 400}"
proof -
  have "authorized (serverKey s) (http_header r) \<longleftrightarrow>
      \<not> (serverKey s \<noteq> [] \<and> take 1 (header_values ''Authorization'' (http_header r)) \<noteq> [''Bearer '' @ serverKey s])"
    by (cases "header_values ''Authorization'' (http_header r)") (auto simp: authorized_key)
  then show ?thesis
    by (auto simp: Mcp_ServeHTTP_def handle_method_status rpc_fail_def split: option.split)
qed

end
