(* ===== verification/Mcp_Wire.thy ===== *)
theory Mcp_Wire
  imports Mcp_System
begin

text \<open>
  The two ends of the protocol composed: the requests the adapter's client and Gate print are
  read by the server, its responses are printed, and the client reads back the server's own
  decision. Strings are ASCII here; the round trip of JSON does the rest.
\<close>

section \<open>The adapter's client against this server\<close>

text \<open>The answer of the server in the state \<open>s\<close> to a POST.\<close>

definition mcp_post :: "menv \<Rightarrow> Server \<Rightarrow> header \<Rightarrow> string \<Rightarrow> (string, int \<times> string) result" where
  "mcp_post M s h body =
    (let r = fst (Mcp_ServeHTTP M \<lparr> http_method = ''POST'', http_header = h, http_body = body \<rparr> s)
     in case writeJSON M r of None \<Rightarrow> Inl [] | Some t \<Rightarrow> Inr (int (rpc_status r), t))"

lemma request_names:
  "list_all is_lower_ascii [''arguments'', ''params'', ''method'', ''scope_result'', ''in_scope'', ''matched_rule'',
     ''denied_scheme'', ''rate_limited'']"
  by code_simp

lemma one_literal: "\<exists>x. json_float ''1'' = Some x"
proof -
  have "literal_value ''1'' = 1" by code_simp
  then show ?thesis by (simp add: json_float_def f64_one float_max_def)
qed

lemma decode_call:
  assumes "those (map (\<lambda>(k, v). map_option (Pair k) (to_val v)) args) = Some kvs"
  shows "decode_request E (tool_call tool args) = Some \<lparr> jsonrpc = ''2.0'', rpc_method = ''call_tool'',
     rpc_params = Some [(''arguments'', VMap (put_all kvs [])), (''name'', VStr tool)], req_id = JNum ''1'' \<rparr>"
  using field_names request_names one_literal assms
  by (auto simp: decode_request_def tool_call_def struct_members_def decode_lower set_string_def set_id_def set_params_def put_all_def)
text \<open>A bound on the printed length.\<close>

fun printed_bound :: "json \<Rightarrow> nat" where
  "printed_bound JNull = 4"
| "printed_bound (JBool b) = 5"
| "printed_bound (JNum n) = length n"
| "printed_bound (JStr s) = 6 * length s + 2"
| "printed_bound (JArr vals) = 2 + sum_list (map (\<lambda>v. Suc (printed_bound v)) vals)"
| "printed_bound (JObj ms) = 2 + sum_list (map (\<lambda>(k, v). 6 * length k + 4 + printed_bound v) ms)"

lemma length_join: "length (join [c] ws) \<le> sum_list (map (\<lambda>w. Suc (length w)) ws)"
  by (induction "[c]" ws rule: join.induct) auto

lemma length_quote_char: "byte c < 128 \<Longrightarrow> length (quote_char c) \<le> 6"
  by (erule quote_char_cases) (simp_all add: u_escape_def)

lemma length_quote:
  assumes "is_ascii s"
  shows "length (json_quote s) \<le> 6 * length s + 2"
proof -
  have "length (concat (map quote_char s)) \<le> 6 * length s"
    using assms by (induction s) (auto dest: length_quote_char)
  then show ?thesis by (simp add: json_quote_ascii assms)
qed

lemma length_print: "json_plain v \<Longrightarrow> length (json_print v) \<le> printed_bound v"
proof (induction v)
  case (JArr vals)
  have "sum_list (map (\<lambda>w. Suc (length w)) (map json_print vals)) \<le> sum_list (map (\<lambda>v. Suc (printed_bound v)) vals)"
    unfolding map_map comp_def using JArr by (intro sum_list_mono) (auto simp: list_all_iff)
  with length_join [of "CHR '',''" "map json_print vals"] show ?case by simp
next
  case (JObj ms)
  let ?p = "\<lambda>(k, v). json_quote k @ '':'' @ json_print v"
  have "length (?p m) \<le> (case m of (k, v) \<Rightarrow> 6 * length k + 3 + printed_bound v)" if "m \<in> set ms" for m
  proof (cases m)
    case (Pair k v)
    with that JObj.prems have "is_ascii k" "json_plain v" by (auto simp: list_all_iff)
    with length_quote [of k] JObj.IH [of m v] that Pair show ?thesis by force
  qed
  then have "sum_list (map (\<lambda>w. Suc (length w)) (map ?p ms)) \<le>
      sum_list (map (\<lambda>(k, v). 6 * length k + 4 + printed_bound v) ms)"
    unfolding map_map comp_def by (intro sum_list_mono) fastforce
  with length_join [of "CHR '',''" "map ?p ms"] show ?case by simp
qed (use length_quote in auto)

lemma plain_one: "json_plain (JNum ''1'')"
  by (simp add: int_literal_def is_digit_def byte_def between_def)

lemma call_read:
  assumes "is_ascii tool" "list_all (\<lambda>(k, v). is_ascii k \<and> json_plain v) args" "json_depth (JObj args) \<le> 100"
  shows "json_decode (json_print (tool_call tool args)) = Some (tool_call tool args) \<and>
    length (json_print (tool_call tool args)) \<le> printed_bound (tool_call tool args)"
proof -
  have "json_plain (tool_call tool args)"
    using assms field_names request_names plain_one
    by (auto simp: tool_call_def is_lower_ascii_def byte_def list_all_iff simp del: json_plain.simps(1))
  moreover have "json_depth (tool_call tool args) \<le> max_depth"
    using assms(3) by (simp add: tool_call_def max_depth_def)
  ultimately show ?thesis
    using json_decode_print [of "tool_call tool args" "[]"] length_print [of "tool_call tool args"] by simp
qed

lemma applied_key:
  assumes "APIKey c \<noteq> []"
  shows "header_values ''Authorization'' (applyHeaders c []) = [''Bearer '' @ APIKey c]"
proof -
  have "canonical_key ''Authorization'' = ''Authorization''" "canonical_key ''Content-Type'' = ''Content-Type''"
    by (simp_all add: go_eval)
  then show ?thesis using assms by (simp add: applyHeaders_def header_set_def header_values_def Let_def)
qed

text \<open>A call that gets past the transport.\<close>

lemma post_call:
  assumes "json_decode (take max_body (json_print (tool_call tool args))) = Some (tool_call tool args)"
    "those (map (\<lambda>(k, v). map_option (Pair k) (to_val v)) args) = Some kvs"
    "authorized (serverKey s) h"
  shows "mcp_post M s h (json_print (tool_call tool args)) =
    (case writeJSON M (fst (call_response M tool (put_all kvs []) (JNum ''1'') s)) of
       None \<Rightarrow> Inl [] | Some t \<Rightarrow> Inr (200, t))"
  using assms decode_call [OF assms(2)]
  by (simp add: mcp_post_def Mcp_ServeHTTP_def handle_method_def str_param_def Let_def rpc_ok_def rpc_fail_def
      call_response_def split: prod.split sum.split option.split)

text \<open>The result a client reads out of the printed response.\<close>

lemma response_read:
  assumes "result_json M q = Some j" "json_plain j" "json_depth j \<le> 100"
  obtains t v where "writeJSON M (rpc_ok q (JNum ''1'')) = Some t" "json_decode t = Some v"
    "MCPResponse E v = Some (Some j, None)"
proof
  let ?v = "JObj [(''jsonrpc'', JStr ''2.0''), (''result'', j), (''id'', JNum ''1'')]"
  show "writeJSON M (rpc_ok q (JNum ''1'')) = Some (json_print ?v @ [CHR 0x0A])"
    using assms(1) by (simp add: writeJSON_def response_json_def rpc_ok_def)
  have "json_plain ?v" using assms(2) plain_one by (simp add: byte_def del: json_plain.simps(1))
  then show "json_decode (json_print ?v @ [CHR 0x0A]) = Some ?v"
    using assms(3) by (intro json_decode_print) (simp_all add: max_depth_def)
  have "atoi ''1'' = Some 1" by code_simp
  then show "MCPResponse E ?v = Some (Some j, None)"
    using field_names
    by (simp add: MCPResponse_def struct_members_def decode_lower set_string_def set_int_def set_raw_def)
qed

lemma CheckURL_url: "CRurl (fst (CheckURL E raw p)) = raw"
  by (auto simp: CheckURL_def refused_def check_scope_def Let_def split: sum.split option.split prod.split)

lemma check_json_depth: "json_depth (check_json M r) \<le> 2"
  by (auto simp: check_json_def flag_def decision_json_def split: option.split)

lemma decode_check_json:
  "decode_check E (check_json M r) = Some \<lparr> SafeURL = CRurl r, SafeAllowed = Allowed r,
     SafeReason = check_text M (CReason r), SafeBlockedIP = BlockedIP r, SafeDeniedHost = False, SafeDryRun = False \<rparr>"
  using field_names request_names
  by (simp add: decode_check_def check_json_def flag_def struct_members_def decode_lower set_string_def set_bool_def
      split: option.split)

lemma call_check_url:
  assumes "raw \<noteq> []"
  shows "fst (call_response M ''check_url'' [(''url'', VStr raw)] i s) =
    rpc_ok (ToolValue (UrlCheck (fst (CheckURL (proxy_env M) raw (prx s))))) i"
  using assms
  by (simp add: call_response_def callTool_def ListTools_def no_params_def tool_check_url_def validateParams_def
      dispatch_def handleCheckURL_def str_param_def case_prod_unfold Let_def)

lemma call_kill_status:
  "fst (call_response M ''is_kill_switch_active'' [] i s) = rpc_ok (ToolValue (KillActive (kill_active s))) i"
  by (simp add: call_response_def callTool_def ListTools_def no_params_def tool_check_url_def tool_audit_log_def
      tool_activate_def tool_deactivate_def validateParams_def dispatch_def case_prod_unfold Let_def)

text \<open>The client's requests are answered by the server in the state \<open>s\<close>.\<close>

definition served_by :: "adapter_env \<Rightarrow> nat \<Rightarrow> MCPClient \<Rightarrow> header \<Rightarrow> menv \<Rightarrow> Server \<Rightarrow> bool" where
  "served_by E n c h M s =
    (\<not> is_err (url_parse (ClientURL c @ ''/mcp'')) \<and> authorized (serverKey s) h \<and>
     (\<forall>body. post E n (ClientURL c @ ''/mcp'') h body = mcp_post M s h body))"

lemma client_reads_the_check:
  assumes "served_by E n c (applyHeaders c []) M s"
    and "raw \<noteq> []" "is_ascii raw" "length raw \<le> 100000"
    and "json_plain (check_json M (fst (CheckURL (proxy_env M) raw (prx s))))"
  shows "\<exists>r. Client_CheckURL E c n raw = Inr r \<and>
    SafeURL r = raw \<and>
    SafeAllowed r = Allowed (fst (CheckURL (proxy_env M) raw (prx s))) \<and>
    SafeBlockedIP r = BlockedIP (fst (CheckURL (proxy_env M) raw (prx s))) \<and> \<not> SafeDeniedHost r \<and> \<not> SafeDryRun r"
proof -
  let ?r = "fst (CheckURL (proxy_env M) raw (prx s))" and ?req = "tool_call ''check_url'' [(''url'', JStr raw)]"
  have "json_decode (json_print ?req) = Some ?req \<and> length (json_print ?req) \<le> printed_bound ?req"
    using assms(3) field_names by (intro call_read) (simp_all add: byte_def is_lower_ascii_def)
  moreover have "printed_bound ?req \<le> max_body"
    using assms(4) by (simp add: tool_call_def max_body_def)
  moreover have "those (map (\<lambda>(k, v). map_option (Pair k) (to_val v)) [(''url'', JStr raw)]) = Some [(''url'', VStr raw)]"
    by simp
  ultimately have p: "post E n (ClientURL c @ ''/mcp'') (applyHeaders c []) (json_print ?req) =
      (case writeJSON M (rpc_ok (ToolValue (UrlCheck ?r)) (JNum ''1'')) of None \<Rightarrow> Inl [] | Some t \<Rightarrow> Inr (200, t))"
    using assms(1,2) post_call [of "''check_url''" "[(''url'', JStr raw)]" "[(''url'', VStr raw)]" s "applyHeaders c []" M]
    by (simp add: served_by_def put_all_def call_check_url)
  obtain t v where t: "writeJSON M (rpc_ok (ToolValue (UrlCheck ?r)) (JNum ''1'')) = Some t" "json_decode t = Some v"
      "MCPResponse (atext E) v = Some (Some (check_json M ?r), None)"
    by (rule response_read [of M "ToolValue (UrlCheck ?r)" "check_json M ?r" "atext E"])
      (use assms(5) check_json_depth [of M ?r] in \<open>simp_all add: result_json_def\<close>)
  then have "Client_CheckURL E c n raw = Inr \<lparr> SafeURL = CRurl ?r, SafeAllowed = Allowed ?r,
     SafeReason = check_text M (CReason ?r), SafeBlockedIP = BlockedIP ?r, SafeDeniedHost = False, SafeDryRun = False \<rparr>"
    using assms(1) p
    by (auto simp: Client_CheckURL_def call_tool_def served_by_def is_err_def decode_check_json split: sum.splits)
  then show ?thesis by (simp add: CheckURL_url)
qed

text \<open>A host whose check can be sent and printed.\<close>

definition printable :: "menv \<Rightarrow> Server \<Rightarrow> string \<Rightarrow> bool" where
  "printable M s h =
    (is_ascii h \<and> length h \<le> 1000 \<and> json_plain (check_json M (fst (CheckURL (proxy_env M) (''https://'' @ h) (prx s)))))"

lemma served_allows:
  assumes "served_by E n c (applyHeaders c []) M s" "printable M s h"
  shows "server_allows E c n h \<longleftrightarrow> Allowed (fst (CheckURL (proxy_env M) (''https://'' @ h) (prx s)))"
proof -
  have "is_ascii (''https://'' @ h)" using assms(2) by (simp add: printable_def byte_def)
  with client_reads_the_check [OF assms(1), of "''https://'' @ h"] assms(2)
  show ?thesis by (auto simp: server_allows_def printable_def)
qed

text \<open>
  C5: when the adapter's requests are served by the MCP server, the hosts the adapter keeps
  are exactly those for which the proxy's own check of their URL, in the state that serves
  the request, says allowed: the JSON of both sides agrees.
\<close>

theorem scope_filter_end_to_end:
  assumes "\<forall>i<length hosts. served_by E (n + i) c (applyHeaders c []) (M i) (S i) \<and> printable (M i) (S i) (hosts ! i)"
  shows "fst (snd (FilterInScope E c n hosts)) = map snd (filter (\<lambda>(i, h).
      Allowed (fst (CheckURL (proxy_env (M i)) (''https://'' @ h) (prx (S i))))) (List.enumerate 0 hosts))"
  using assms
proof (induction hosts arbitrary: n M S)
  case (Cons h hs)
  have "served_by E n c (applyHeaders c []) (M 0) (S 0)" "printable (M 0) (S 0) h"
    using Cons.prems [rule_format, of 0] by simp_all
  note h = served_allows [OF this]
  have "\<forall>i<length hs. served_by E (Suc n + i) c (applyHeaders c []) (M (Suc i)) (S (Suc i)) \<and>
      printable (M (Suc i)) (S (Suc i)) (hs ! i)"
    using Cons.prems [rule_format, of "Suc i" for i] by simp
  note IH = Cons.IH [OF this]
  have shift: "List.enumerate (Suc 0) hs = map (\<lambda>(i, h). (Suc i, h)) (List.enumerate 0 hs)"
    by (simp add: enumerate_eq_zip map_Suc_upt [symmetric] zip_map1 del: upt_Suc)
  show ?case using IH h
    by (simp add: FilterInScope_eq allowed_hosts_def shift filter_map comp_def case_prod_unfold)
qed (simp add: FilterInScope_eq allowed_hosts_def)

text \<open>
  C17: when the specialist's request is served by the MCP server, Gate reads exactly the
  state of that server's kill switch.
\<close>

theorem gate_reads_the_switch:
  assumes "served_by E n (mcpClient cfg) (kill_headers cfg) M s"
  shows "killSwitchActive E cfg n = Inr (kill_active s)"
proof -
  let ?q = "ToolValue (KillActive (kill_active s))" and ?req = "tool_call ''is_kill_switch_active'' []"
  have "json_decode (json_print ?req) = Some ?req \<and> length (json_print ?req) \<le> printed_bound ?req"
    by (intro call_read) (simp_all add: byte_def)
  moreover have "printed_bound ?req \<le> max_body" by (simp add: tool_call_def max_body_def)
  moreover have "those (map (\<lambda>(k, v). map_option (Pair k) (to_val v)) []) = Some []" by simp
  ultimately have p: "post E n (ClientURL (mcpClient cfg) @ ''/mcp'') (kill_headers cfg) (json_print ?req) =
      (case writeJSON M (rpc_ok ?q (JNum ''1'')) of None \<Rightarrow> Inl [] | Some t \<Rightarrow> Inr (200, t))"
    using assms post_call [of "''is_kill_switch_active''" "[]" "[]" s "kill_headers cfg" M]
    by (simp add: served_by_def put_all_def call_kill_status)
  obtain t v where t: "writeJSON M (rpc_ok ?q (JNum ''1'')) = Some t" "json_decode t = Some v"
      "MCPResponse (atext E) v = Some (Some (JObj [(''active'', JBool (kill_active s))]), None)"
    by (rule response_read [of M ?q "JObj [(''active'', JBool (kill_active s))]" "atext E"])
      (simp_all add: result_json_def byte_def)
  have "decode_active (atext E) (JObj [(''active'', JBool (kill_active s))]) = Some (kill_active s)"
    using field_names by (simp add: decode_active_def struct_members_def decode_lower set_bool_def)
  with assms p t show ?thesis
    by (auto simp: killSwitchActive_def served_by_def is_err_def Let_def split: sum.splits)
qed


section \<open>A server and its client\<close>

text \<open>The tools of the demonstration, asking this server.\<close>

definition wired :: adapter_env where
  "wired = demo_tools\<lparr> post := (\<lambda>_ _ h body. mcp_post demo_menv demo_server h body) \<rparr>"

lemma demo_served:
  assumes "header_values ''Authorization'' h = [''Bearer key'']"
  shows "served_by wired n demo_client h demo_menv demo_server"
  using demo_url assms by (simp add: served_by_def wired_def authorized_def demo_server_fields secureEqual_def)

lemma demo_checks:
  "fst (CheckURL demo_env ''https://a.io'' demo_proxy) = \<lparr> CRurl = ''https://a.io'', Allowed = True,
     ScopeResult = Some \<lparr> InScope = True, Reason = URLMatches, MatchedRule = ''a.io'' \<rparr>,
     BlockedIP = False, DeniedScheme = False, RateLimited = False, CReason = CheckPassed \<rparr>"
  "fst (CheckURL demo_env ''https://b.io'' demo_proxy) = \<lparr> CRurl = ''https://b.io'', Allowed = False,
     ScopeResult = Some \<lparr> InScope = False, Reason = NoHostRule, MatchedRule = [] \<rparr>,
     BlockedIP = False, DeniedScheme = False, RateLimited = False, CReason = CheckScope NoHostRule \<rparr>"
  by (simp_all add: CheckURL_def demo_defs ValidateScheme_def ValidatePort_def CheckKillSwitch_def IsActive_def
      LookupHost_def emit_def go_eval)

lemma demo_printable: "printable demo_menv demo_server ''a.io''" "printable demo_menv demo_server ''b.io''"
  using field_names request_names
  by (simp_all add: printable_def demo_menv_def demo_server_fields demo_checks check_json_def decision_json_def
      flag_def is_lower_ascii_def byte_def)

lemma demo_headers:
  "header_values ''Authorization'' (applyHeaders demo_client []) = [''Bearer key'']"
  "header_values ''Authorization'' (kill_headers demo_spec) = [''Bearer key'']"
proof -
  have "APIKey demo_client = ''key''"
    by (simp add: demo_client_def NewMCPClientWithAPIKey_def go_eval)
  with applied_key [of demo_client] show "header_values ''Authorization'' (applyHeaders demo_client []) = [''Bearer key'']"
    by simp
  have "canonical_key ''Authorization'' = ''Authorization''" "canonical_key ''Content-Type'' = ''Content-Type''"
    by (simp_all add: go_eval)
  then show "header_values ''Authorization'' (kill_headers demo_spec) = [''Bearer key'']"
    by (simp add: kill_headers_def demo_spec_def header_set_def header_values_def Let_def)
qed

theorem scope_filter_end_to_end_witness:
  "fst (snd (FilterInScope wired demo_client 0 [''a.io'', ''b.io''])) = [''a.io'']"
proof -
  have "proxy_env demo_menv = demo_env" by (simp add: demo_menv_def)
  with scope_filter_end_to_end [of "[''a.io'', ''b.io'']" wired 0 demo_client "\<lambda>_. demo_menv" "\<lambda>_. demo_server"]
    demo_served [OF demo_headers(1)] demo_printable demo_checks
  show ?thesis by (simp add: less_Suc_eq numeral_2_eq_2 demo_server_fields all_conj_distrib)
qed

theorem gate_reads_the_switch_witness:
  "killSwitchActive wired demo_spec 0 = Inr (kill_active demo_server) \<and> \<not> kill_active demo_server"
proof -
  have "\<not> kill_active demo_server"
    by (simp add: kill_active_def demo_server_fields IsActive_def demo_defs)
  with gate_reads_the_switch [of wired 0 demo_spec demo_menv demo_server] demo_served [OF demo_headers(2)]
  show ?thesis by (simp add: demo_spec_client)
qed

end
