(* ===== verification/Vpn.thy ===== *)
theory Vpn
  imports Go_Strings
begin

text \<open>
  internal/vpn: the controller of the gateway container. It only runs podman: the answer to the
  \<open>k\<close>-th command (its output and its error) and the clock are \<open>vpn_env\<close>, the commands so far and
  the number of clock readings the state. The wait for the tunnel polls until a deadline, so it
  is a partial function, and that it returns is a theorem about the clock.
\<close>

section \<open>Configuration\<close>

record VpnConfig =
  VWGConfigPath :: string
  VContainerName :: string
  VContainerImage :: string
  VPodmanBinary :: string
  VpnEnabled :: bool
  VpnKillSwitch :: bool
  StartupTimeout :: int   \<comment> \<open>nanoseconds\<close>

definition setDefaults :: "VpnConfig \<Rightarrow> VpnConfig" where
  "setDefaults c0 =
    (let c1 = (if VContainerName c0 = [] then c0\<lparr> VContainerName := ''scopepilot-vpn-gateway'' \<rparr> else c0);
         c2 = (if VContainerImage c1 = [] then c1\<lparr> VContainerImage := ''localhost/scopepilot-wireguard:latest'' \<rparr> else c1);
         c3 = (if VPodmanBinary c2 = [] then c2\<lparr> VPodmanBinary := ''podman'' \<rparr> else c2)
     in if StartupTimeout c3 = 0 then c3\<lparr> StartupTimeout := 30 * 1000000000 \<rparr> else c3)"

definition Vpn_Validate :: "VpnConfig \<Rightarrow> bool" where
  "Vpn_Validate c = (\<not> (VpnEnabled c \<and> VWGConfigPath c = []))"

definition Vpn_New :: "VpnConfig \<Rightarrow> VpnConfig" where
  "Vpn_New c = setDefaults c"

section \<open>Running podman\<close>

record vpn_env =
  podman :: "nat \<Rightarrow> string list \<Rightarrow> string \<times> string option"
  clock :: "nat \<Rightarrow> int"

record vpn_state =
  ran :: "string list list"
  ticks :: nat

datatype vpn_err =
    Disabled
  | ListImages string
  | LocalImageMissing string
  | PullImage string string
  | RunContainer string string
  | TimedOut int string

record VpnStatus =
  Running :: bool
  VContainer :: string
  PublicIP :: string
  Connection :: string

definition vpn_exec :: "vpn_env \<Rightarrow> VpnConfig \<Rightarrow> string list \<Rightarrow> vpn_state \<Rightarrow> string \<times> string option \<times> vpn_state" where
  "vpn_exec E c args s =
    (let cmd = VPodmanBinary c # args; (out, err) = podman E (length (ran s)) cmd
     in (out, err, s\<lparr> ran := ran s @ [cmd] \<rparr>))"

definition nl :: char where "nl = char_of (10::nat)"

definition images_args :: "string list" where
  "images_args = [''images'', ''--format'', ''{{.Repository}}:{{.Tag}}'']"

definition image_listed :: "string \<Rightarrow> string \<Rightarrow> bool" where
  "image_listed ref output =
    (let short = trim_prefix (trim_prefix ref ''docker.io/'') ''library/''
     in list_ex (\<lambda>raw. let line = trim_space raw
          in line \<noteq> [] \<and> (line = ref \<or> line = short \<or> contains line short)) (split_on nl output))"

definition ensureImage :: "vpn_env \<Rightarrow> VpnConfig \<Rightarrow> vpn_state \<Rightarrow> vpn_err option \<times> vpn_state" where
  "ensureImage E c s =
    (let ref = VContainerImage c in
     if has_prefix ref ''localhost/''
     then (case vpn_exec E c images_args s of
         (out, Some e, s1) \<Rightarrow> (Some (ListImages e), s1)
       | (out, None, s1) \<Rightarrow>
         if list_ex (\<lambda>line. trim_space line = ref) (split_on nl out) then (None, s1)
         else (Some (LocalImageMissing ref), s1))
     else (case vpn_exec E c images_args s of
         (out, Some e, s1) \<Rightarrow> (Some (ListImages e), s1)
       | (out, None, s1) \<Rightarrow>
         if image_listed ref out then (None, s1)
         else (case vpn_exec E c [''pull'', ref] s1 of
             (pulled, Some e, s2) \<Rightarrow> (Some (PullImage e pulled), s2)
           | (_, None, s2) \<Rightarrow> (None, s2))))"

definition ps_args :: "VpnConfig \<Rightarrow> string \<Rightarrow> string list" where
  "ps_args c fmt = [''ps'', ''--filter'', ''name='' @ VContainerName c, ''--format'', fmt]"

definition rm_args :: "VpnConfig \<Rightarrow> string list" where
  "rm_args c = [''rm'', ''-f'', VContainerName c]"

definition run_args :: "VpnConfig \<Rightarrow> string list" where
  "run_args c =
    [''run'', ''-d'', ''--name'', VContainerName c, ''--cap-add'', ''NET_ADMIN'', ''--device'', ''/dev/net/tun'',
     ''--sysctl'', ''net.ipv4.conf.all.src_valid_mark=1'', ''-v'', VWGConfigPath c @ '':/config/wg0.conf:ro'']
    @ (if VpnKillSwitch c then [''-e'', ''KILLSWITCH=true''] else []) @ [VContainerImage c]"

definition startContainer :: "vpn_env \<Rightarrow> VpnConfig \<Rightarrow> vpn_state \<Rightarrow> vpn_err option \<times> vpn_state" where
  "startContainer E c s =
    (let (out, err, s1) = vpn_exec E c (ps_args c ''{{.Names}}'') s in
     if err = None \<and> trim_space out = VContainerName c then (None, s1)
     else (let (_, _, s2) = vpn_exec E c (rm_args c) s1 in
       case vpn_exec E c (run_args c) s2 of
         (text, Some e, s3) \<Rightarrow> (Some (RunContainer e text), s3)
       | (_, None, s3) \<Rightarrow> (None, s3)))"

definition logs_args :: "VpnConfig \<Rightarrow> string \<Rightarrow> string list" where
  "logs_args c n = [''logs'', ''--tail'', n, VContainerName c]"

definition log_connected :: "string \<Rightarrow> bool" where
  "log_connected l = (contains l ''connected'' \<or> contains l ''Success'' \<or> contains l ''WireGuard connected'')"

definition now_reading :: "vpn_env \<Rightarrow> vpn_state \<Rightarrow> int \<times> vpn_state" where
  "now_reading E s = (clock E (ticks s), s\<lparr> ticks := Suc (ticks s) \<rparr>)"

partial_function (option) wait_loop ::
  "vpn_env \<Rightarrow> VpnConfig \<Rightarrow> int \<Rightarrow> vpn_state \<Rightarrow> (vpn_err option \<times> vpn_state) option" where
  "wait_loop E c deadline s =
    (let (t, s1) = now_reading E s in
     if t < deadline
     then (let (out, err, s2) = vpn_exec E c (logs_args c ''10'') s1 in
       if err = None \<and> log_connected out then Some (None, s2) else wait_loop E c deadline s2)
     else (let (out, _, s2) = vpn_exec E c (logs_args c ''20'') s1 in
       Some (Some (TimedOut (StartupTimeout c) out), s2)))"

definition waitForConnection :: "vpn_env \<Rightarrow> VpnConfig \<Rightarrow> vpn_state \<Rightarrow> (vpn_err option \<times> vpn_state) option" where
  "waitForConnection E c s =
    (let (t, s1) = now_reading E s in wait_loop E c (t + StartupTimeout c) s1)"

definition Vpn_Start :: "vpn_env \<Rightarrow> VpnConfig \<Rightarrow> vpn_state \<Rightarrow> (vpn_err option \<times> vpn_state) option" where
  "Vpn_Start E c s =
    (if \<not> VpnEnabled c then Some (Some Disabled, s)
     else (case ensureImage E c s of
         (Some e, s1) \<Rightarrow> Some (Some e, s1)
       | (None, s1) \<Rightarrow>
         (case startContainer E c s1 of
            (Some e, s2) \<Rightarrow> Some (Some e, s2)
          | (None, s2) \<Rightarrow> waitForConnection E c s2)))"

definition Vpn_Stop :: "vpn_env \<Rightarrow> VpnConfig \<Rightarrow> vpn_state \<Rightarrow> vpn_state" where
  "Vpn_Stop E c s = snd (snd (vpn_exec E c (rm_args c) s))"

definition curl_args :: "VpnConfig \<Rightarrow> string list" where
  "curl_args c = [''exec'', VContainerName c, ''curl'', ''-s'', ''--max-time'', ''5'', ''https://ifconfig.me'']"

definition Vpn_Status :: "vpn_env \<Rightarrow> VpnConfig \<Rightarrow> vpn_state \<Rightarrow> VpnStatus \<times> vpn_state" where
  "Vpn_Status E c s =
    (let st = \<lparr> Running = False, VContainer = VContainerName c, PublicIP = [], Connection = [] \<rparr>;
         (out, err, s1) = vpn_exec E c (ps_args c ''{{.Status}}'') s
     in if err \<noteq> None \<or> trim_space out = [] then (st, s1)
        else
          (let (l, lerr, s2) = vpn_exec E c (logs_args c ''5'') s1;
               (ip, ierr, s3) = vpn_exec E c (curl_args c) s2
           in (st\<lparr> Running := True,
                 Connection := (if lerr \<noteq> None then []
                   else if contains l ''connected'' \<or> contains l ''Success'' then ''connected'' else ''disconnected''),
                 PublicIP := (if ierr \<noteq> None then [] else trim_space ip) \<rparr>, s3)))"

section \<open>Commands of the controller\<close>

text \<open>Every command is podman's, on the images or on the controller's own container.\<close>

definition vpn_command :: "VpnConfig \<Rightarrow> string list \<Rightarrow> bool" where
  "vpn_command c cmd =
    (\<exists>args \<in> {images_args, [''pull'', VContainerImage c], ps_args c ''{{.Names}}'', ps_args c ''{{.Status}}'', rm_args c,
       run_args c, logs_args c ''5'', logs_args c ''10'', logs_args c ''20'', curl_args c}. cmd = VPodmanBinary c # args)"

text \<open>A step that only runs such commands.\<close>

definition vpn_steps :: "VpnConfig \<Rightarrow> vpn_state \<Rightarrow> vpn_state \<Rightarrow> bool" where
  "vpn_steps c s s' = (\<exists>cmds. ran s' = ran s @ cmds \<and> list_all (vpn_command c) cmds)"

lemma vpn_steps_refl [simp]: "vpn_steps c s s" "vpn_steps c s (s\<lparr> ticks := k \<rparr>)"
  unfolding vpn_steps_def by (intro exI [of _ "[]"]; simp)+

lemma vpn_steps_ticks [simp]: "vpn_steps c (s\<lparr> ticks := k \<rparr>) s' = vpn_steps c s s'"
  by (simp add: vpn_steps_def)

lemma vpn_steps_trans: "vpn_steps c s t \<Longrightarrow> vpn_steps c t u \<Longrightarrow> vpn_steps c s u"
  unfolding vpn_steps_def by force

lemma vpn_exec_steps:
  assumes "vpn_exec E c args s = (out, err, s')" "vpn_command c (VPodmanBinary c # args)"
  shows "vpn_steps c s s' \<and> ticks s' = ticks s"
  using assms unfolding vpn_steps_def
  by (intro conjI exI [of _ "[VPodmanBinary c # args]"]) (auto simp: vpn_exec_def Let_def split: prod.splits)

lemma vpn_exec_last:
  "vpn_exec E c args s = (out, err, s') \<Longrightarrow> ran s' = ran s @ [VPodmanBinary c # args] \<and>
    podman E (length (ran s)) (VPodmanBinary c # args) = (out, err)"
  by (auto simp: vpn_exec_def Let_def split: prod.splits)

lemma own_commands [simp]:
  "vpn_command c (VPodmanBinary c # images_args)" "vpn_command c [VPodmanBinary c, ''pull'', VContainerImage c]"
  "vpn_command c (VPodmanBinary c # ps_args c ''{{.Names}}'')" "vpn_command c (VPodmanBinary c # ps_args c ''{{.Status}}'')"
  "vpn_command c (VPodmanBinary c # rm_args c)" "vpn_command c (VPodmanBinary c # run_args c)"
  "vpn_command c (VPodmanBinary c # logs_args c ''5'')" "vpn_command c (VPodmanBinary c # logs_args c ''10'')"
  "vpn_command c (VPodmanBinary c # logs_args c ''20'')" "vpn_command c (VPodmanBinary c # curl_args c)"
  by (auto simp: vpn_command_def)

lemma ensureImage_steps:
  assumes "ensureImage E c s = (r, s')"
  shows "vpn_steps c s s' \<and> ticks s' = ticks s"
  using assms
  by (auto simp: ensureImage_def Let_def split: prod.splits option.splits if_splits
      dest!: vpn_exec_steps intro: vpn_steps_trans)

lemma startContainer_steps:
  assumes "startContainer E c s = (r, s')"
  shows "vpn_steps c s s' \<and> ticks s' = ticks s"
  using assms
  by (auto simp: startContainer_def Let_def split: prod.splits option.splits if_splits
      dest!: vpn_exec_steps intro: vpn_steps_trans)

section \<open>The wait\<close>

text \<open>Success means that the last command read a log that says so.\<close>

definition saw_connection :: "vpn_env \<Rightarrow> VpnConfig \<Rightarrow> vpn_state \<Rightarrow> bool" where
  "saw_connection E c s =
    (\<exists>before out. ran s = before @ [VPodmanBinary c # logs_args c ''10''] \<and>
      podman E (length before) (VPodmanBinary c # logs_args c ''10'') = (out, None) \<and> log_connected out)"

lemma wait_loop_result:
  assumes "wait_loop E c deadline s = Some (r, s')"
  shows "vpn_steps c s s' \<and> (r = None \<longrightarrow> saw_connection E c s')"
proof -
  have "case (r, s') of (r, s') \<Rightarrow> vpn_steps c s s' \<and> (r = None \<longrightarrow> saw_connection E c s')"
  proof (induction rule: wait_loop.raw_induct [OF _ assms])
    case (1 loop E c deadline s y)
    note IH = 1(1) and body = 1(2)
    obtain t s1 where t: "now_reading E s = (t, s1)" by fastforce
    then have s1: "vpn_steps c s s1" by (auto simp: now_reading_def)
    show ?case
    proof (cases "t < deadline")
      case True
      obtain out err s2 where x: "vpn_exec E c (logs_args c ''10'') s1 = (out, err, s2)" by (metis prod_cases3)
      have s2: "vpn_steps c s s2" using vpn_exec_steps [OF x] s1 by (auto intro: vpn_steps_trans)
      show ?thesis
      proof (cases "err = None \<and> log_connected out")
        case ok: True
        then have "y = (None, s2)" using body t True x by simp
        moreover have "saw_connection E c s2"
          using vpn_exec_last [OF x] ok unfolding saw_connection_def by blast
        ultimately show ?thesis using s2 by simp
      next
        case False
        then have "loop E c deadline s2 = Some y" using body t True x by (simp split: if_splits)
        from IH [OF this] show ?thesis using s2 by (auto intro: vpn_steps_trans)
      qed
    next
      case False
      then show ?thesis
        using body t s1 by (auto split: prod.splits dest!: vpn_exec_steps intro: vpn_steps_trans)
    qed
  qed
  then show ?thesis by simp
qed

lemma wait_loop_returns:
  assumes "deadline \<le> clock E k" "ticks s \<le> k"
  shows "\<exists>r. wait_loop E c deadline s = Some r"
  using assms(2)
proof (induction "k - ticks s" arbitrary: s rule: less_induct)
  case less
  let ?s1 = "s\<lparr> ticks := Suc (ticks s) \<rparr>"
  have t: "now_reading E s = (clock E (ticks s), ?s1)" by (simp add: now_reading_def)
  show ?case
  proof (cases "clock E (ticks s) < deadline")
    case True
    obtain out err s2 where x: "vpn_exec E c (logs_args c ''10'') ?s1 = (out, err, s2)" by (metis prod_cases3)
    have lt: "ticks s < k" using True assms(1) less.prems by (cases "ticks s = k") auto
    have "ticks s2 = Suc (ticks s)" using vpn_exec_steps [OF x] by simp
    then have "\<exists>r. wait_loop E c deadline s2 = Some r"
      using lt by (intro less.hyps) auto
    then show ?thesis using t True x by (subst wait_loop.simps) simp
  next
    case False
    then show ?thesis using t by (subst wait_loop.simps) (simp split: prod.split)
  qed
qed

section \<open>Properties\<close>

text \<open>
  C40: starting the VPN returns as soon as some later reading of the clock is past the
  deadline, whatever the container prints.
\<close>

theorem vpn_start_returns:
  assumes "ticks s < k" "clock E (ticks s) + StartupTimeout c \<le> clock E k"
  shows "\<exists>r s'. Vpn_Start E c s = Some (r, s')"
proof -
  obtain r1 s1 where e: "ensureImage E c s = (r1, s1)" by fastforce
  obtain r2 s2 where st: "startContainer E c s1 = (r2, s2)" by fastforce
  have "ticks s2 = ticks s" using ensureImage_steps [OF e] startContainer_steps [OF st] by simp
  then have "\<exists>r. waitForConnection E c s2 = Some r"
    using wait_loop_returns [OF assms(2), of "s2\<lparr> ticks := Suc (ticks s) \<rparr>" c] assms(1)
    by (simp add: waitForConnection_def now_reading_def)
  then show ?thesis using e st by (auto simp: Vpn_Start_def split: option.split)
qed

text \<open>A start that succeeds has run at least one command.\<close>

lemma Vpn_Start_runs:
  assumes "Vpn_Start E c s = Some (r, s')" "r = None"
  shows "\<exists>cmd cmds. ran s' = ran s @ cmd # cmds"
proof -
  obtain r1 s1 where e: "ensureImage E c s = (r1, s1)" by fastforce
  have "\<exists>cmd cmds. ran s1 = ran s @ cmd # cmds"
    using e by (auto simp: ensureImage_def vpn_exec_def Let_def split: prod.splits option.splits if_splits)
  moreover have "vpn_steps c s1 s'"
    using assms e
    by (auto simp: Vpn_Start_def waitForConnection_def now_reading_def split: if_splits prod.splits option.splits
        dest!: startContainer_steps wait_loop_result intro: vpn_steps_trans)
  ultimately show ?thesis by (auto simp: vpn_steps_def)
qed

text \<open>
  C39: starting the VPN only runs the commands of the manager, and it succeeds only when the
  VPN is enabled and the last command, run after the start began, read the tail of the
  container's log and found the text connected (which disconnected contains) or Success in
  it.
\<close>

theorem vpn_start_connected:
  assumes "Vpn_Start E c s = Some (r, s')"
  shows "vpn_steps c s s' \<and> (r = None \<longrightarrow> VpnEnabled c \<and>
    (\<exists>cmds out. ran s' = ran s @ cmds @ [[VPodmanBinary c, ''logs'', ''--tail'', ''10'', VContainerName c]] \<and>
      podman E (length (ran s @ cmds)) [VPodmanBinary c, ''logs'', ''--tail'', ''10'', VContainerName c] = (out, None) \<and>
      (contains out ''connected'' \<or> contains out ''Success'')))"
proof -
  have "contains out ''connected''" if "contains out ''WireGuard connected''" for out
  proof -
    from that obtain u v where "out = u @ ''WireGuard connected'' @ v" by (auto simp: contains_iff)
    then have "out = (u @ ''WireGuard '') @ ''connected'' @ v" by simp
    then show ?thesis unfolding contains_iff by blast
  qed
  then have saw: "saw_connection E c s' \<Longrightarrow>
    \<exists>before out. ran s' = before @ [[VPodmanBinary c, ''logs'', ''--tail'', ''10'', VContainerName c]] \<and>
      podman E (length before) [VPodmanBinary c, ''logs'', ''--tail'', ''10'', VContainerName c] = (out, None) \<and>
      (contains out ''connected'' \<or> contains out ''Success'')"
    by (fastforce simp: saw_connection_def logs_args_def log_connected_def)
  have steps: "vpn_steps c s s' \<and> (r = None \<longrightarrow> VpnEnabled c \<and> saw_connection E c s')"
    using assms
    by (auto simp: Vpn_Start_def waitForConnection_def now_reading_def split: if_splits prod.splits option.splits
        dest!: ensureImage_steps startContainer_steps wait_loop_result intro: vpn_steps_trans)
  have "\<exists>cmds. before = ran s @ cmds" if "r = None" "ran s' = before @ [look]" for before look
    using Vpn_Start_runs [OF assms] that by (auto simp: append_eq_append_conv2 Cons_eq_append_conv)
  with steps saw show ?thesis by (metis append.assoc)
qed


text \<open>A log line that says the tunnel is down counts as one that says it is up.\<close>

lemma disconnected_is_connected: "log_connected ''disconnected''"
  by (simp add: log_connected_def contains_def go_eval)

definition demo_vpn :: VpnConfig where
  "demo_vpn = Vpn_New \<lparr> VWGConfigPath = ''/wg.conf'', VContainerName = [], VContainerImage = [], VPodmanBinary = [],
     VpnEnabled = True, VpnKillSwitch = True, StartupTimeout = 0 \<rparr>"

text \<open>The image is there, the container is not, and the second look at the log finds the tunnel.\<close>

definition demo_podman :: vpn_env where
  "demo_podman = \<lparr> podman = (\<lambda>n cmd. if n = 0 then (''localhost/scopepilot-wireguard:latest'', None)
       else if n = 5 then (''WireGuard connected'', None) else ([], None)), clock = (\<lambda>k. 10000000000 * int k) \<rparr>"

lemmas vpn_run = Vpn_Start_def ensureImage_def startContainer_def waitForConnection_def wait_loop.simps now_reading_def
  vpn_exec_def demo_podman_def demo_vpn_def Vpn_New_def setDefaults_def nl_def log_connected_def contains_def Let_def

lemma demo_vpn_start: "\<exists>s'. Vpn_Start demo_podman demo_vpn \<lparr> ran = [], ticks = 0 \<rparr> = Some (None, s')"
  by (simp add: vpn_run go_eval)

theorem vpn_start_connected_witness:
  "\<exists>s' cmds. Vpn_Start demo_podman demo_vpn \<lparr> ran = [], ticks = 0 \<rparr> = Some (None, s') \<and>
    ran s' = cmds @ [[VPodmanBinary demo_vpn, ''logs'', ''--tail'', ''10'', VContainerName demo_vpn]]"
proof -
  from demo_vpn_start obtain s' where "Vpn_Start demo_podman demo_vpn \<lparr> ran = [], ticks = 0 \<rparr> = Some (None, s')" ..
  with vpn_start_connected [OF this] show ?thesis by auto
qed

theorem vpn_start_returns_witness:
  "\<exists>r s'. Vpn_Start demo_podman demo_vpn \<lparr> ran = [], ticks = 0 \<rparr> = Some (r, s')"
  by (rule vpn_start_returns [of _ 4]) (simp_all add: demo_podman_def demo_vpn_def Vpn_New_def setDefaults_def)

end
