(* ===== verification/Setup.thy ===== *)
theory Setup
  imports Config Adapter
begin

text \<open>
  cmd/pentest/init.go, import.go and connect.go: the commands that write a configuration file
  or read targets from one. The records are those of init.go; \<open>as_config\<close> is the configuration
  the server reads out of the written file, the keys of the two sets of structs being the same.
  YAML itself is third-party code: an argument where a file is read.
\<close>

section \<open>The generated configuration\<close>

record InitDefaults =
  IDRequestsPerSecond :: int
  IDMaxConcurrency :: int
  IDMaxResponseBytes :: int
  IDAllowedSchemes :: "string list"
  IDAllowedPorts :: "int list"
  IDDryRun :: bool

record InitAudit =
  IAEnabled :: bool
  IARetainDays :: int
  IARedactSecrets :: bool

record InitGlobal =
  IKillSwitch :: bool
  IVPN :: bool
  IDefaults :: InitDefaults
  IAudit :: InitAudit
  ILogLevel :: string
  ILogFormat :: string

record InitRule =
  IRType :: string
  IRValue :: string

record InitProgram =
  IPID :: string
  IPName :: string
  IPActive :: bool
  IPRequestsPerSecond :: int
  IPMaxConcurrency :: int
  IPInclude :: "InitRule list"
  IPExclude :: "InitRule list"
  IPStatus :: string

record initConfig =
  IGlobal :: InitGlobal
  IPrograms :: "InitProgram list"

definition init_global :: "int \<Rightarrow> InitGlobal" where
  "init_global rate = \<lparr> IKillSwitch = False, IVPN = False,
     IDefaults = \<lparr> IDRequestsPerSecond = rate, IDMaxConcurrency = 3, IDMaxResponseBytes = 10485760,
       IDAllowedSchemes = [''https''], IDAllowedPorts = [443], IDDryRun = False \<rparr>,
     IAudit = \<lparr> IAEnabled = True, IARetainDays = 30, IARedactSecrets = True \<rparr>,
     ILogLevel = ''info'', ILogFormat = ''text'' \<rparr>"

definition init_program :: "string \<Rightarrow> string \<Rightarrow> int \<Rightarrow> InitRule list \<Rightarrow> InitProgram" where
  "init_program i name rate rules = \<lparr> IPID = i, IPName = name, IPActive = True, IPRequestsPerSecond = rate,
     IPMaxConcurrency = 3, IPInclude = rules, IPExclude = [], IPStatus = ''active'' \<rparr>"

definition buildInitConfig :: "string \<Rightarrow> string list \<Rightarrow> int \<Rightarrow> initConfig" where
  "buildInitConfig name domains rateLimit =
    \<lparr> IGlobal = init_global rateLimit,
      IPrograms = [init_program name name rateLimit
        (map (\<lambda>d. \<lparr> IRType = ''exact_host'', IRValue = d \<rparr>) domains)] \<rparr>"

text \<open>The answers of the dialogue; \<open>scanned\<close> is what \<open>Sscanf\<close> leaves in the rate limit.\<close>

definition runInit :: "string \<Rightarrow> string \<Rightarrow> string \<Rightarrow> (string \<Rightarrow> int) \<Rightarrow> initConfig" where
  "runInit name_line domains_line rate_line scanned =
    (let rate = trim_space rate_line
     in buildInitConfig (trim_space name_line)
          (map trim_space (split_on (CHR '','') (trim_space domains_line)))
          (if rate = [] then 5 else scanned rate))"

section \<open>Importing domains\<close>

definition host_char :: "char \<Rightarrow> bool" where
  "host_char c = (between 97 122 c \<or> between 65 90 c \<or> is_digit c \<or> c \<in> {CHR ''.'', CHR ''*'', CHR ''-''})"

definition letter :: "char \<Rightarrow> bool" where
  "letter c = (between 97 122 c \<or> between 65 90 c)"

text \<open>
  The whole of a string against \<open>[a-zA-Z0-9.*-]+\.[a-zA-Z]{2,}\<close>: the last label is letters
  only, so the dot before it is the last one.
\<close>

definition domain_like :: "string \<Rightarrow> bool" where
  "domain_like s =
    (let last = rev (takeWhile (\<lambda>c. c \<noteq> CHR ''.'') (rev s));
         front = take (length s - length last - 1) s
     in CHR ''.'' \<in> set s \<and> list_all letter last \<and> 2 \<le> length last \<and> front \<noteq> [] \<and> list_all host_char front)"

definition strip_url :: "string \<Rightarrow> string" where
  "strip_url raw =
    trim_suffix (trim_suffix (trim_suffix (trim_prefix (trim_prefix (trim_space raw) ''https://'') ''http://'') ''/'') ''/*'') ''/''"

text \<open>The optional group is tried first.\<close>

definition cleanDomain :: "string \<Rightarrow> string" where
  "cleanDomain raw0 =
    (let raw = strip_url raw0
     in if has_prefix raw ''*.'' \<and> domain_like (drop 2 raw) then drop 2 raw else raw)"

definition import_rule :: "string \<Rightarrow> InitRule" where
  "import_rule d =
    (if has_prefix d ''*.'' then \<lparr> IRType = ''wildcard_host'', IRValue = trim_prefix d ''*.'' \<rparr>
     else \<lparr> IRType = ''exact_host'', IRValue = d \<rparr>)"

definition buildImportConfig :: "string list \<Rightarrow> initConfig" where
  "buildImportConfig domains =
    \<lparr> IGlobal = init_global 5,
      IPrograms = [init_program ''imported'' ''Imported Scope'' 5 (map import_rule domains)] \<rparr>"

text \<open>The lines of the file or of the standard input; \<open>None\<close>: no domains.\<close>

definition runImport :: "string list \<Rightarrow> initConfig option" where
  "runImport input_lines =
    (let domains = map cleanDomain (filter (\<lambda>l. l \<noteq> []) (map trim_space input_lines))
     in if domains = [] then None else Some (buildImportConfig domains))"

section \<open>Reading it back\<close>

definition no_switch :: KillSwitchConfig where
  "no_switch = \<lparr> KSEnabled = False, KSActivatedBy = [], KSActivatedAt = [] \<rparr>"

definition as_rule :: "InitRule \<Rightarrow> ScopeRule" where
  "as_rule r = \<lparr> RuleType = IRType r, RuleValue = IRValue r, RuleHost = [], IncludeApex = False \<rparr>"

definition as_program :: "InitProgram \<Rightarrow> ProgramConfig" where
  "as_program p =
    \<lparr> PID = IPID p, PName = IPName p, AuthorizationRef = [], ActiveTestingEnabled = IPActive p, PKillSwitch = no_switch,
      NetworkPolicy = \<lparr> VPNPolicy = [], StableSourceIPRequired = False \<rparr>,
      Limits = \<lparr> RequestsPerSecondPerHost = IPRequestsPerSecond p, MaxConcurrency = IPMaxConcurrency p,
        MaxResponseBytes = 0, AllowedSchemes = [], AllowedPorts = [], MaxRequestsPerJob = 0, MaxCrawlDepth = 0 \<rparr>,
      PScope = \<lparr> Include = map as_rule (IPInclude p), Exclude = map as_rule (IPExclude p) \<rparr>,
      Restrictions = \<lparr> AutomatedScanning = [], HistoricalURLCollection = [], SubdomainEnumeration = [], Notes = [] \<rparr>,
      PStatus = IPStatus p \<rparr>"

definition as_global :: "InitGlobal \<Rightarrow> GlobalConfig" where
  "as_global g =
    \<lparr> GKillSwitch = no_switch\<lparr> KSEnabled := IKillSwitch g \<rparr>,
      Defaults = (let d = IDefaults g in
        \<lparr> DefRequestsPerSecondPerHost = IDRequestsPerSecond d, DefMaxConcurrency = IDMaxConcurrency d,
          DefMaxResponseBytes = IDMaxResponseBytes d, DefAllowedSchemes = IDAllowedSchemes d,
          DefAllowedPorts = IDAllowedPorts d, DefDryRun = IDDryRun d \<rparr>),
      GAudit = (let a = IAudit g in
        \<lparr> AuditEnabled = IAEnabled a, RetainDays = IARetainDays a, RedactSecrets = IARedactSecrets a \<rparr>),
      Database = \<lparr> ConnString = [], DBEnabled = False, MaxConns = 0 \<rparr>,
      GVPN = \<lparr> VPNEnabled = IVPN g, VPNCountry = [], VPNServer = [], WGConfigPath = [], VPNContainerName = [],
        VPNContainerImage = [], VPNKillSwitch = False, PodmanBinary = [] \<rparr>,
      Sandbox = \<lparr> MaxFileSize = 0, MaxArchiveDepth = 0, MaxDecompressRatio = 0, TimeoutSeconds = 0 \<rparr>,
      LLM = \<lparr> Provider = [], LLMModel = [], APIKeyEnv = [], BaseURL = [] \<rparr>,
      Tools = \<lparr> BBOTPath = [], NucleiPath = [], TemplateDir = [] \<rparr>,
      LogLevel = ILogLevel g, LogFormat = ILogFormat g \<rparr>"

definition as_config :: "initConfig \<Rightarrow> Config" where
  "as_config c = \<lparr> Programs = map as_program (IPrograms c), Global = as_global (IGlobal c) \<rparr>"

section \<open>Connecting a language model\<close>

definition split_slash :: "string \<Rightarrow> (string \<times> string) option" where
  "split_slash s = (case cut s (CHR ''/'') of (a, b, ok) \<Rightarrow> if ok then Some (a, b) else None)"

definition env_providers :: "(string \<times> string) list" where
  "env_providers = [(''OPENAI_API_KEY'', ''openai/gpt-4o''), (''ANTHROPIC_API_KEY'', ''anthropic/claude-sonnet-4''),
     (''DEEPSEEK_API_KEY'', ''deepseek/deepseek-chat'')]"

definition no_llm :: LLMConfig where
  "no_llm = \<lparr> Provider = [], LLMModel = [], APIKeyEnv = [], BaseURL = [] \<rparr>"

text \<open>\<open>file_llm\<close>: the configuration the file \<open>--llm-config\<close> holds, if it can be read and parsed.\<close>

definition llmFromArgs :: "adapter_env \<Rightarrow> string \<Rightarrow> string \<Rightarrow> (string \<Rightarrow> LLMConfig option) \<Rightarrow> LLMConfig \<Rightarrow> LLMConfig" where
  "llmFromArgs E llmFlag llmConfigFlag file_llm cfgLLM =
    (if llmFlag \<noteq> []
     then (case split_slash llmFlag of
         Some (a, b) \<Rightarrow> \<lparr> Provider = a @ ''/'' @ b, LLMModel = b,
           APIKeyEnv = to_upper (upper_rune E) a @ ''_API_KEY'', BaseURL = [] \<rparr>
       | None \<Rightarrow> no_llm\<lparr> Provider := llmFlag, LLMModel := llmFlag \<rparr>)
     else (case (if llmConfigFlag = [] then None
                 else (case file_llm llmConfigFlag of None \<Rightarrow> None
                   | Some c \<Rightarrow> if Provider c \<noteq> [] then Some c else None)) of
         Some c \<Rightarrow> c
       | None \<Rightarrow>
         if Provider cfgLLM \<noteq> [] then cfgLLM
         else (case find (\<lambda>(v, _). getenv E v \<noteq> []) env_providers of
             Some (v, name) \<Rightarrow> no_llm\<lparr> Provider := name, APIKeyEnv := v,
               LLMModel := (case split_slash name of Some (_, b) \<Rightarrow> b | None \<Rightarrow> []) \<rparr>
           | None \<Rightarrow> no_llm)))"

definition target_lines :: "string \<Rightarrow> string list" where
  "target_lines content =
    filter (\<lambda>l. l \<noteq> [])
      (map (\<lambda>l. trim_suffix (trim_prefix (trim_prefix l ''https://'') ''http://'') ''/'')
        (filter (\<lambda>l. l \<noteq> [] \<and> \<not> has_prefix l ''#'') (map trim_space (split_on (char_of (10::nat)) content))))"

text \<open>
  The include rules \<open>connect\<close> shows; \<open>is_yaml\<close> and \<open>yaml_config\<close> are the YAML library on the
  file. \<open>None\<close>: no model or no rules, and the command fails.
\<close>

definition connect_rules :: "(string \<Rightarrow> bool) \<Rightarrow> (string \<Rightarrow> Config option) \<Rightarrow> string \<Rightarrow> ScopeRule list" where
  "connect_rules is_yaml yaml_config content =
    (if is_yaml content \<and> contains content ''include:''
     then (case yaml_config content of
         Some c \<Rightarrow> (case Programs c of p # _ \<Rightarrow> Include (PScope p) | [] \<Rightarrow> [])
       | None \<Rightarrow> [])
     else map (\<lambda>d. \<lparr> RuleType = ''exact_host'', RuleValue = d, RuleHost = [], IncludeApex = False \<rparr>) (target_lines content))"

definition runConnect ::
  "adapter_env \<Rightarrow> LLMConfig \<Rightarrow> (string \<Rightarrow> bool) \<Rightarrow> (string \<Rightarrow> Config option) \<Rightarrow> string \<Rightarrow> (LLMConfig \<times> bool \<times> ScopeRule list) option" where
  "runConnect E llm is_yaml yaml_config content =
    (if Provider llm = [] then None
     else (let rules = connect_rules is_yaml yaml_config content
       in if rules = [] then None else Some (llm, getenv E (APIKeyEnv llm) \<noteq> [], rules)))"

section \<open>Properties\<close>

lemma init_global_valid: "1 \<le> rate \<Longrightarrow> rate \<le> 50 \<Longrightarrow> GlobalConfig_Validate (as_global (init_global rate)) = None"
  by (simp add: GlobalConfig_Validate_def as_global_def init_global_def scheme_error_def port_error_def Let_def)

lemma as_program_refused: "ProgramConfig_Validate (as_program p) = Some AuthorizationRequired"
  by (simp add: ProgramConfig_Validate_def as_program_def Let_def)

text \<open>The configurations the two generators write are refused by the server they are written for.\<close>

theorem generated_configs_refused:
  assumes "1 \<le> rate" "rate \<le> 50" "name \<noteq> []"
  shows "Config_Validate (as_config (buildInitConfig name domains rate)) = Some (InProgram name AuthorizationRequired) \<and>
    Config_Validate (as_config (buildImportConfig domains)) = Some (InProgram ''imported'' AuthorizationRequired)"
  using assms init_global_valid [of rate] init_global_valid [of 5]
  by (simp add: Config_Validate_def as_config_def buildInitConfig_def buildImportConfig_def as_program_refused)
    (simp add: as_program_def init_program_def)

theorem generated_configs_refused_witness:
  "Config_Validate (as_config (buildInitConfig ''acme'' [''a.io''] 5)) = Some (InProgram ''acme'' AuthorizationRequired)"
  using generated_configs_refused [of 5 "''acme''" "[''a.io'']"] by simp

text \<open>A wildcard loses its star before the rules are built, so it is imported as one exact host.\<close>

lemma imported_wildcard:
  assumes "has_prefix (strip_url raw) ''*.''" "domain_like (drop 2 (strip_url raw))"
    "\<not> has_prefix (drop 2 (strip_url raw)) ''*.''"
  shows "import_rule (cleanDomain raw) = \<lparr> IRType = ''exact_host'', IRValue = drop 2 (strip_url raw) \<rparr>"
  using assms by (simp add: cleanDomain_def import_rule_def Let_def)

end
