(* ===== verification/Pentest.thy ===== *)
theory Pentest
  imports Mcp_System Queue Vpn Setup
begin

text \<open>
  cmd/pentest/main.go and check.go: the commands of the program on top of the components. A
  \<open>log.Fatal\<close> is an error result. \<open>cmd_env\<close> is what the operating system decides: files, ports,
  programs on the path, the YAML library, clocks, HTTP answers; its \<open>tools\<close> is the environment of the
  adapters. Flag parsing and printing are left out.
\<close>

section \<open>Environment and errors\<close>

record cmd_env =
  tools :: adapter_env
  read_file :: "string \<Rightarrow> (string, string) result"
  yaml :: "string \<Rightarrow> (string, Config) result"
  can_listen :: "string \<Rightarrow> bool"
  in_path :: "string \<Rightarrow> bool"
  boot_now :: instant
  audit_db :: "(db_env \<times> bool \<times> Row list) option"
  config_dir :: "string option"

datatype fatal =
    NoConfigFile string
  | ConfigParse string
  | ConfigInvalid config_err
  | ProgramNotFound string
  | VPNNotEnforceable
  | CannotBind string
  | StoreFailed store_err
  | APIKeyRequired
  | KeyFileUnreadable string
  | BadListenAddress addr_err
  | NoTargets
  | SafeCheckFailed client_err
  | BadSafeCheck
  | AllBlocked
  | NetworkPolicyDenied
  | ToolNotFound string
  | ToolFailure adapter_err
  | NoLLMConfigured
  | ScopeFileUnreadable string
  | NoScopeRules

definition defaultConfigPath :: "cmd_env \<Rightarrow> string" where
  "defaultConfigPath E =
    (case config_dir E of Some d \<Rightarrow> file_join [d, ''scopepilot'', ''config.yaml'']
     | None \<Rightarrow> ''/etc/scopepilot/config.yaml'')"

section \<open>Configuration\<close>

definition loadConfig :: "cmd_env \<Rightarrow> string \<Rightarrow> (fatal, Config) result" where
  "loadConfig E fname =
    (case (case read_file E fname of Inr d \<Rightarrow> Inr d | Inl _ \<Rightarrow> read_file E ''config/config.yaml'') of
       Inl e \<Rightarrow> Inl (NoConfigFile fname)
     | Inr text \<Rightarrow>
       (case Load (yaml E) text of Inl e \<Rightarrow> Inl (ConfigParse e)
        | Inr cfg \<Rightarrow> (case Config_Validate cfg of Some e \<Rightarrow> Inl (ConfigInvalid e) | None \<Rightarrow> Inr cfg)))"

definition findProgram :: "Config \<Rightarrow> string \<Rightarrow> (fatal, ProgramConfig) result" where
  "findProgram cfg i =
    (case find (\<lambda>p. PID p = i) (Programs cfg) of None \<Rightarrow> Inl (ProgramNotFound i) | Some p \<Rightarrow> Inr p)"

definition extractTargets :: "ProgramConfig \<Rightarrow> string list" where
  "extractTargets prog = map RuleValue (filter (\<lambda>r. RuleType r = ''exact_host'') (Include (PScope prog)))"

text \<open>The program's list, or the default when it is empty.\<close>

definition effective_schemes :: "Config \<Rightarrow> ProgramConfig \<Rightarrow> string list" where
  "effective_schemes cfg prog =
    (if AllowedSchemes (Limits prog) = [] then DefAllowedSchemes (Defaults (Global cfg)) else AllowedSchemes (Limits prog))"

definition effective_ports :: "Config \<Rightarrow> ProgramConfig \<Rightarrow> int list" where
  "effective_ports cfg prog =
    (if AllowedPorts (Limits prog) = [] then DefAllowedPorts (Defaults (Global cfg)) else AllowedPorts (Limits prog))"

section \<open>API keys\<close>

definition key_variable :: string where "key_variable = ''SCOPEPILOT_MCP_API_KEY''"

definition apiKeyOrEnv :: "cmd_env \<Rightarrow> string \<Rightarrow> string" where
  "apiKeyOrEnv E given =
    (if trim_space given \<noteq> [] then trim_space given else trim_space (getenv (tools E) key_variable))"

definition apiKeyResolve :: "cmd_env \<Rightarrow> string \<Rightarrow> string \<Rightarrow> (fatal, string) result" where
  "apiKeyResolve E given file =
    (if trim_space given \<noteq> [] then Inr (trim_space given)
     else (let fname = trim_space file; env_key = trim_space (getenv (tools E) key_variable) in
       if fname = [] then Inr env_key
       else (case read_file E fname of Inl _ \<Rightarrow> Inl (KeyFileUnreadable fname)
         | Inr text \<Rightarrow> Inr (if trim_space text \<noteq> [] then trim_space text else env_key))))"

definition requiredMCPAPIKey :: "cmd_env \<Rightarrow> (fatal, string) result" where
  "requiredMCPAPIKey E =
    (let k = trim_space (getenv (tools E) key_variable) in if k = [] then Inl APIKeyRequired else Inr k)"

definition resolveMCPAPIKey :: "cmd_env \<Rightarrow> string \<Rightarrow> string \<Rightarrow> (fatal, string) result" where
  "resolveMCPAPIKey E given file =
    (case apiKeyResolve E given file of Inl e \<Rightarrow> Inl e
     | Inr k \<Rightarrow> if k \<noteq> [] then Inr k else requiredMCPAPIKey E)"

definition listenerURL :: "string \<Rightarrow> (addr_err, string) result" where
  "listenerURL addr =
    (case split_host_port addr of Inl e \<Rightarrow> Inl e
     | Inr (h, port) \<Rightarrow>
       Inr (''http://'' @ join_host_port (if h \<in> {[], ''0.0.0.0'', ''::''} then ''127.0.0.1'' else h) port))"

section \<open>The server\<close>

definition zero_program :: ProgramConfig where
  "zero_program =
    \<lparr> PID = [], PName = [], AuthorizationRef = [], ActiveTestingEnabled = False, PKillSwitch = no_switch,
      NetworkPolicy = \<lparr> VPNPolicy = [], StableSourceIPRequired = False \<rparr>,
      Limits = \<lparr> RequestsPerSecondPerHost = 0, MaxConcurrency = 0, MaxResponseBytes = 0, AllowedSchemes = [],
        AllowedPorts = [], MaxRequestsPerJob = 0, MaxCrawlDepth = 0 \<rparr>,
      PScope = \<lparr> Include = [], Exclude = [] \<rparr>,
      Restrictions = \<lparr> AutomatedScanning = [], HistoricalURLCollection = [], SubdomainEnumeration = [], Notes = [] \<rparr>,
      PStatus = [] \<rparr>"

definition served_program :: "Config \<Rightarrow> ProgramConfig" where
  "served_program cfg = (case Programs cfg of p # _ \<Rightarrow> p | [] \<Rightarrow> zero_program)"

definition server_proxy_config :: "Config \<Rightarrow> string \<Rightarrow> ProxyConfig" where
  "server_proxy_config cfg listen =
    (let prog = served_program cfg in
     \<lparr> ListenAddr = listen, ProgramID = PID prog, ScopeCfg = PScope prog, PLimits = Limits prog,
       PSchemes = effective_schemes cfg prog, PPorts = effective_ports cfg prog,
       ProxyConfig.DryRun = DefDryRun (Defaults (Global cfg)), TestingEnabled = ActiveTestingEnabled prog \<rparr>)"

definition boot_activate :: "instant \<Rightarrow> KillSwitchConfig \<Rightarrow> string \<Rightarrow> Switch \<Rightarrow> Switch" where
  "boot_activate t ks default_by sw =
    (if KSEnabled ks then Activate t (if KSActivatedBy ks = [] then default_by else KSActivatedBy ks) sw else sw)"

definition boot_switch :: "cmd_env \<Rightarrow> Config \<Rightarrow> Switch \<Rightarrow> Switch" where
  "boot_switch E cfg sw =
    boot_activate (boot_now E) (PKillSwitch (served_program cfg)) ''program-config''
      (boot_activate (boot_now E) (GKillSwitch (Global cfg)) ''global-config'' sw)"

definition or_default :: "string \<Rightarrow> string \<Rightarrow> string" where
  "or_default s d = (if s = [] then d else s)"

definition server_specialists :: "cmd_env \<Rightarrow> Config \<Rightarrow> string \<Rightarrow> string \<Rightarrow> string \<Rightarrow> SpecConfig" where
  "server_specialists E cfg key mcpURL proxyURL =
    (let t = Tools (Global cfg); prog = served_program cfg in
     \<lparr> BBOTBinary = or_default (BBOTPath t) ''bbot'', NucleiBinary = or_default (NucleiPath t) ''nuclei'',
       SpecConfig.TemplateDir = (if ToolsConfig.TemplateDir t = [] then DiscoverNucleiTemplates (tools E) else ToolsConfig.TemplateDir t),
       MCPURL = mcpURL, MCPAPIKey = key, SProgramID = PID prog, SProxyURL = proxyURL, SVPNContainer = [],
       SDryRun = (DefDryRun (Defaults (Global cfg)) \<or> \<not> ActiveTestingEnabled prog),
       AllowExploitation = False, OutputDir = [] \<rparr>)"

text \<open>
  The log of the proxy: when audit.db opens (\<open>audit_db\<close> has its codec, whether the select succeeds, and
  its rows), the in-memory log of a \<open>PersistentLogger\<close>, with the last rows replayed.
\<close>

definition persistent_audit :: "cmd_env \<Rightarrow> Logger option" where
  "persistent_audit E = (case audit_db E of None \<Rightarrow> None
     | Some (D, query_ok, rows) \<Rightarrow> Some (mem (NewPersistentLogger D query_ok rows 10000)))"

text \<open>The server \<open>runServer\<close> puts behind its two listeners.\<close>

definition runServer ::
  "cmd_env \<Rightarrow> string \<Rightarrow> string \<Rightarrow> string \<Rightarrow> string \<Rightarrow> string \<Rightarrow> (fatal, Server) result" where
  "runServer E cfgPath listenProxy listenMCP keyFlag keyFile =
    (case loadConfig E cfgPath of Inl e \<Rightarrow> Inl e
     | Inr cfg \<Rightarrow>
       if VPNEnabled (GVPN (Global cfg)) then Inl VPNNotEnforceable
       else if \<not> can_listen E listenProxy then Inl (CannotBind listenProxy)
       else if \<not> can_listen E listenMCP then Inl (CannotBind listenMCP)
       else
         (let p0 = NewProxy (server_proxy_config cfg listenProxy) (persistent_audit E);
              prx = p0\<lparr> switch := boot_switch E cfg (switch p0) \<rparr>;
              db = Database (Global cfg)
          in case NewConfiguredStore (getenv (tools E))
                 \<lparr> PostgreSQLEnabled = DBEnabled db, SConnString = ConnString db, SMaxConns = MaxConns db \<rparr> of
            Inl e \<Rightarrow> Inl (StoreFailed e)
          | Inr st \<Rightarrow>
            (case resolveMCPAPIKey E keyFlag keyFile of Inl e \<Rightarrow> Inl e
             | Inr key \<Rightarrow>
               (case listenerURL listenMCP of Inl e \<Rightarrow> Inl (BadListenAddress e)
                | Inr mcpURL \<Rightarrow>
                  (case listenerURL listenProxy of Inl e \<Rightarrow> Inl (BadListenAddress e)
                   | Inr proxyURL \<Rightarrow>
                     (let s0 = SetAPIKey key (SetProgramID (PID (served_program cfg)) (NewServer prx st));
                          tok = getenv (tools E) ''SCOPEPILOT_DEACTIVATION_TOKEN'';
                          gtok = getenv (tools E) ''SCOPEPILOT_GATE_APPROVAL_TOKEN'';
                          s1 = (if tok \<noteq> [] then SetDeactivationToken tok s0 else s0);
                          s2 = (if gtok \<noteq> [] then SetGateApprovalToken gtok s1 else s1)
                      in Inr (ConfigureSpecialists (server_specialists E cfg key mcpURL proxyURL) s2)))))))"

section \<open>discover and scan\<close>

definition targetsToURLs :: "string list \<Rightarrow> string list" where
  "targetsToURLs targets = map (\<lambda>t. ''https://'' @ t @ ''/'') targets"

definition filterAllowedTargets :: "string list \<Rightarrow> SafeCheckResult list \<Rightarrow> string list option" where
  "filterAllowedTargets targets results =
    (if map SafeURL results \<noteq> targetsToURLs targets then None
     else Some (map fst (filter (\<lambda>(t, r). SafeAllowed r) (zip targets results))))"

definition validateScannerNetworkPolicy :: "Config \<Rightarrow> ProgramConfig \<Rightarrow> bool" where
  "validateScannerNetworkPolicy cfg prog =
    (VPNPolicy (NetworkPolicy prog) \<noteq> ''required'' \<and> \<not> VPNEnabled (GVPN (Global cfg)))"

datatype scan_outcome = Validated "string list" | Scanned ToolResult

text \<open>What the two commands share: the targets the server lets through.\<close>

definition checked_targets ::
  "cmd_env \<Rightarrow> MCPClient \<Rightarrow> ProgramConfig \<Rightarrow> adapter_state \<Rightarrow> (fatal, string list) result \<times> adapter_state" where
  "checked_targets E c prog s =
    (let targets = extractTargets prog in
     if targets = [] then (Inl NoTargets, s)
     else (let s1 = s\<lparr> requests := Suc (requests s) \<rparr> in
       case Client_RunSafeCheck (tools E) c (requests s) (targetsToURLs targets) of
         Inl e \<Rightarrow> (Inl (SafeCheckFailed e), s1)
       | Inr results \<Rightarrow>
         (case filterAllowedTargets targets results of None \<Rightarrow> (Inl BadSafeCheck, s1)
          | Some passed \<Rightarrow> if passed = [] then (Inl AllBlocked, s1) else (Inr passed, s1))))"

definition discover_config :: "Config \<Rightarrow> ProgramConfig \<Rightarrow> MCPClient \<Rightarrow> string \<Rightarrow> bool \<Rightarrow> BBOTConfig" where
  "discover_config cfg prog c proxyURL noProxy =
    \<lparr> BBinaryPath = or_default (BBOTPath (Tools (Global cfg))) ''bbot'', BMCPClient = Some c, BDryRun = False,
      BProxyURL = proxyURL, BNoProxy = noProxy, BVPNContainer = [], BProgramID = PID prog, BStore = True \<rparr>"

definition scan_templates :: "cmd_env \<Rightarrow> Config \<Rightarrow> string \<Rightarrow> string" where
  "scan_templates E cfg given =
    (if given \<noteq> [] then given
     else if ToolsConfig.TemplateDir (Tools (Global cfg)) \<noteq> [] then ToolsConfig.TemplateDir (Tools (Global cfg))
     else DiscoverNucleiTemplates (tools E))"

definition scan_config :: "cmd_env \<Rightarrow> Config \<Rightarrow> MCPClient \<Rightarrow> string \<Rightarrow> string \<Rightarrow> NucleiConfig" where
  "scan_config E cfg c proxyURL templates =
    \<lparr> NBinaryPath = or_default (NucleiPath (Tools (Global cfg))) ''nuclei'', NMCPClient = Some c, NDryRun = False,
      NTemplateDir = scan_templates E cfg templates, NSeverities = [], NProxyURL = proxyURL, NVPNContainer = [] \<rparr>"

text \<open>The frame: load, check, dry run, network policy, the tool on the path, then \<open>run\<close>.\<close>

definition tool_session ::
  "cmd_env \<Rightarrow> string \<Rightarrow> string \<Rightarrow> bool \<Rightarrow> string \<Rightarrow> string \<Rightarrow> string
    \<Rightarrow> (Config \<Rightarrow> ProgramConfig \<Rightarrow> MCPClient \<Rightarrow> string list \<Rightarrow> adapter_state
        \<Rightarrow> (adapter_err, ToolResult) result \<times> adapter_state)
    \<Rightarrow> adapter_state \<Rightarrow> (fatal, scan_outcome) result \<times> adapter_state" where
  "tool_session E cfgPath pid dryRun mcpURL keyFlag tool run s =
    (case loadConfig E cfgPath of Inl e \<Rightarrow> (Inl e, s)
     | Inr cfg \<Rightarrow>
       (case findProgram cfg pid of Inl e \<Rightarrow> (Inl e, s)
        | Inr prog \<Rightarrow>
          (let c = NewMCPClientWithAPIKey mcpURL (PID prog) (apiKeyOrEnv E keyFlag) in
           case checked_targets E c prog s of
             (Inl e, s1) \<Rightarrow> (Inl e, s1)
           | (Inr passed, s1) \<Rightarrow>
             if dryRun then (Inr (Validated passed), s1)
             else if \<not> validateScannerNetworkPolicy cfg prog then (Inl NetworkPolicyDenied, s1)
             else if \<not> in_path E tool then (Inl (ToolNotFound tool), s1)
             else (case run cfg prog c passed s1 of
                 (Inl e, s2) \<Rightarrow> (Inl (ToolFailure e), s2)
               | (Inr res, s2) \<Rightarrow> (Inr (Scanned res), s2)))))"

definition runDiscover ::
  "cmd_env \<Rightarrow> string \<Rightarrow> string \<Rightarrow> bool \<Rightarrow> string \<Rightarrow> string \<Rightarrow> bool \<Rightarrow> string
    \<Rightarrow> adapter_state \<Rightarrow> (fatal, scan_outcome) result \<times> adapter_state" where
  "runDiscover E cfgPath pid dryRun mcpURL proxyURL noProxy keyFlag =
    tool_session E cfgPath pid dryRun mcpURL keyFlag ''bbot''
      (\<lambda>cfg prog c. RunBBOT (tools E) (discover_config cfg prog c proxyURL noProxy))"

definition runScan ::
  "cmd_env \<Rightarrow> string \<Rightarrow> string \<Rightarrow> bool \<Rightarrow> string \<Rightarrow> string \<Rightarrow> string \<Rightarrow> string
    \<Rightarrow> adapter_state \<Rightarrow> (fatal, scan_outcome) result \<times> adapter_state" where
  "runScan E cfgPath pid dryRun mcpURL proxyURL templates keyFlag =
    tool_session E cfgPath pid dryRun mcpURL keyFlag ''nuclei''
      (\<lambda>cfg prog c. RunNuclei (tools E) (scan_config E cfg c proxyURL templates))"

section \<open>check and queue\<close>

text \<open>A target with a scheme is a URL, any other a host.\<close>

definition has_scheme :: "string \<Rightarrow> bool" where
  "has_scheme t = (case url_parse t of Inl _ \<Rightarrow> False | Inr u \<Rightarrow> scheme u \<noteq> [])"

definition check_target :: "cmd_env \<Rightarrow> Config \<Rightarrow> ProgramConfig \<Rightarrow> string \<Rightarrow> Decision" where
  "check_target E cfg prog t =
    (let eng = NewEngine (PID prog) (PScope prog)
     in if has_scheme t
        then IsURLInScope (atext (tools E)) eng t (effective_schemes cfg prog) (effective_ports cfg prog)
        else IsHostInScope (atext (tools E)) eng t)"

text \<open>The decisions printed, in order; the exit code is 0 when all are in scope.\<close>

definition runCheck :: "cmd_env \<Rightarrow> string list \<Rightarrow> string \<Rightarrow> (fatal, (string \<times> Decision) list \<times> bool) result" where
  "runCheck E targets cfgPath =
    (case loadConfig E cfgPath of Inl e \<Rightarrow> Inl e
     | Inr cfg \<Rightarrow>
       (case Programs cfg of [] \<Rightarrow> Inl (ProgramNotFound [])
        | prog # _ \<Rightarrow>
          (let ds = map (\<lambda>t. (t, check_target E cfg prog t)) targets
           in Inr (ds, list_all (\<lambda>(_, d). InScope d) ds))))"

definition queue_validator :: "cmd_env \<Rightarrow> Config \<Rightarrow> ProgramConfig \<Rightarrow> string \<Rightarrow> bool" where
  "queue_validator E cfg prog tgt =
    (let eng = NewEngine (PID prog) (PScope prog)
     in if has_scheme tgt
        then InScope (IsURLInScope (atext (tools E)) eng tgt (effective_schemes cfg prog) (effective_ports cfg prog))
        else InScope (IsHostInScope (atext (tools E)) eng
          (if contains tgt '':'' then (case split_host_port tgt of Inr (h, _) \<Rightarrow> h | Inl _ \<Rightarrow> tgt) else tgt)))"

datatype queue_fatal =
    TargetRequired
  | TypeRequired
  | PriorityRange int
  | QueueConfig fatal
  | NoPrograms
  | IDFlagRequired
  | QueueFailed q_err

definition queue_program :: "Config \<Rightarrow> string \<Rightarrow> (queue_fatal, ProgramConfig) result" where
  "queue_program cfg pid =
    (if pid \<noteq> [] then (case findProgram cfg pid of Inl e \<Rightarrow> Inl (QueueConfig e) | Inr p \<Rightarrow> Inr p)
     else (case Programs cfg of [] \<Rightarrow> Inl NoPrograms | p # _ \<Rightarrow> Inr p))"

definition new_task :: "string \<Rightarrow> string \<Rightarrow> int \<Rightarrow> Task" where
  "new_task target ttype prio = \<lparr> TID = [], Target = target, TType = ttype, Priority = prio, TStatus = [],
     Dependencies = [], CreatedAt = 0, UpdatedAt = 0, TError = [] \<rparr>"

definition queue_add ::
  "cmd_env \<Rightarrow> q_env \<Rightarrow> string \<Rightarrow> string \<Rightarrow> string \<Rightarrow> string \<Rightarrow> int \<Rightarrow> Queue \<Rightarrow> (queue_fatal, unit) result \<times> Queue" where
  "queue_add E Q cfgPath pid target ttype prio q =
    (if target = [] then (Inl TargetRequired, q)
     else if ttype = [] then (Inl TypeRequired, q)
     else if prio < 1 \<or> prio > 5 then (Inl (PriorityRange prio), q)
     else (case loadConfig E cfgPath of Inl e \<Rightarrow> (Inl (QueueConfig e), q)
       | Inr cfg \<Rightarrow>
         (case queue_program cfg pid of Inl e \<Rightarrow> (Inl e, q)
          | Inr prog \<Rightarrow>
            (case Queue_Add (Q\<lparr> scopeValidator := Some (queue_validator E cfg prog) \<rparr>) (new_task target ttype prio) q of
               (Inl e, q1) \<Rightarrow> (Inl (QueueFailed e), q1)
             | (Inr _, q1) \<Rightarrow> (Inr (), q1)))))"

definition queue_list :: "q_env \<Rightarrow> string \<Rightarrow> Queue \<Rightarrow> (queue_fatal, Task list) result \<times> Queue" where
  "queue_list Q st q =
    (case Queue_List (Q\<lparr> scopeValidator := None \<rparr>) st q of
       (Inl e, q1) \<Rightarrow> (Inl (QueueFailed e), q1) | (Inr ts, q1) \<Rightarrow> (Inr ts, q1))"

definition queue_retry :: "q_env \<Rightarrow> string \<Rightarrow> Queue \<Rightarrow> (queue_fatal, unit) result \<times> Queue" where
  "queue_retry Q i q =
    (if i = [] then (Inl IDFlagRequired, q)
     else (case Retry (Q\<lparr> scopeValidator := None \<rparr>) i q of
       (Inl e, q1) \<Rightarrow> (Inl (QueueFailed e), q1) | (Inr _, q1) \<Rightarrow> (Inr (), q1)))"

section \<open>Workers\<close>

definition alnum :: "char \<Rightarrow> bool" where
  "alnum c = (between 97 122 c \<or> between 65 90 c \<or> is_digit c)"

definition isValidID :: "string \<Rightarrow> bool" where
  "isValidID i = (i \<noteq> [] \<and> list_all (\<lambda>c. alnum c \<or> c = CHR ''_'' \<or> c = CHR ''-'') i)"

definition validateTaskTarget :: "string \<Rightarrow> bool" where
  "validateTaskTarget t =
    (t \<noteq> [] \<and> list_all (\<lambda>c. alnum c \<or> c \<in> {CHR ''.'', CHR ''_'', CHR '':'', CHR ''/'', CHR ''-''}) t)"

fun setEnv :: "string list \<Rightarrow> string \<Rightarrow> string \<Rightarrow> string list" where
  "setEnv [] k v = [k @ ''='' @ v]"
| "setEnv (e # es) k v = (if has_prefix e (k @ ''='') then (k @ ''='' @ v) # es else e # setEnv es k v)"

definition worker_env :: "cmd_env \<Rightarrow> LLMConfig \<Rightarrow> string \<Rightarrow> string list" where
  "worker_env E llm proxyURL =
    (let e1 = foldl (\<lambda>env k. setEnv env k proxyURL) (environ (tools E))
           [''HTTP_PROXY'', ''HTTPS_PROXY'', ''http_proxy'', ''https_proxy'']
     in if Provider llm = [] then e1
        else
          (let e2 = setEnv (setEnv (setEnv e1 ''SCOPEPILOT_LLM_PROVIDER'' (Provider llm))
                 ''SCOPEPILOT_LLM_MODEL'' (LLMModel llm)) ''SCOPEPILOT_LLM_BASE_URL'' (BaseURL llm);
               key = getenv (tools E) (APIKeyEnv llm)
           in if key = [] then e2 else setEnv e2 ''SCOPEPILOT_LLM_API_KEY'' key))"

definition hunt_prompt :: "string \<Rightarrow> string \<Rightarrow> string" where
  "hunt_prompt target proxyURL = ''Hunt '' @ target @ ''. Rate limit 3/s. Proxy at '' @ proxyURL @ ''.''"

definition container_args :: "string \<Rightarrow> Task \<Rightarrow> string list" where
  "container_args proxyURL t =
    [''run'', ''--rm'', ''--network'', ''scopepilot-net'', ''-e'', ''HTTP_PROXY='' @ proxyURL,
     ''-e'', ''HTTPS_PROXY='' @ proxyURL,
     (if TType t = ''vuln'' then ''projectdiscovery/nuclei:latest'' else ''docker.io/bbot/bbot:latest'')]"

text \<open>The worker's command; the environment of a container is podman's.\<close>

definition worker_command :: "cmd_env \<Rightarrow> LLMConfig \<Rightarrow> string \<Rightarrow> string \<Rightarrow> string \<Rightarrow> Task \<Rightarrow> command option" where
  "worker_command E llm home proxyURL agent t =
    (let env = worker_env E llm proxyURL; prompt = hunt_prompt (Target t) proxyURL in
     if agent = ''codex''
     then Some (Command ''codex'' [''exec'', prompt @ '' Report to ''
         @ file_join [file_join [home, ''.scopepilot'', ''results''], TID t @ ''.json'']] env)
     else if agent = ''claude'' then Some (Command ''claude'' [''-p'', prompt] env)
     else if agent = ''agy'' then Some (Command ''agy'' [''--print'', prompt] env)
     else if agent = ''container'' then Some (Command ''podman'' (container_args proxyURL t) (environ (tools E)))
     else None)"

record SpawnState =
  squeue :: Queue
  pid_files :: "(string \<times> string) list"
  started :: "command list"

text \<open>The queue environments of the three calls, the process start, and the files.\<close>

record spawn_env =
  cmd :: cmd_env
  q_get :: q_env
  q_start :: q_env
  q_fail :: q_env
  home :: "string option"
  workers_dir_ok :: bool
  results_dir_ok :: bool
  target_error :: "string \<Rightarrow> string"
  process_start :: "command \<Rightarrow> (string, int) result"
  pid_writable :: bool

datatype spawn_result =
    NoHome | WorkersDir | AgentRequired | TaskRequired | InvalidTaskID | TaskUnreadable q_err
  | DroppedTask | SliceCrash | ResultsDir | UnknownAgent | NotStarted q_err | ProcessFailed string | SpawnedWorker int

definition fail_task :: "spawn_env \<Rightarrow> string \<Rightarrow> string \<Rightarrow> SpawnState \<Rightarrow> SpawnState" where
  "fail_task S i m s = s\<lparr> squeue := snd (Fail ((q_fail S)\<lparr> scopeValidator := None \<rparr>) i (Some m) (squeue s)) \<rparr>"

definition start_worker :: "spawn_env \<Rightarrow> string \<Rightarrow> command \<Rightarrow> SpawnState \<Rightarrow> spawn_result \<times> SpawnState" where
  "start_worker S i c s =
    (case Start ((q_start S)\<lparr> scopeValidator := None \<rparr>) i (squeue s) of
       (Inl e, q) \<Rightarrow> (NotStarted e, s\<lparr> squeue := q \<rparr>)
     | (Inr _, q) \<Rightarrow>
       (let s1 = s\<lparr> squeue := q \<rparr> in
        case process_start S c of
          Inl e \<Rightarrow> (ProcessFailed e, fail_task S i e s1)
        | Inr n \<Rightarrow>
          (SpawnedWorker n, s1\<lparr> started := started s1 @ [c],
             pid_files := (if pid_writable S then AList.update (i @ ''.pid'') (itoa n @ [char_of (10::nat)]) (pid_files s1)
                           else pid_files s1) \<rparr>)))"

definition runSpawn ::
  "spawn_env \<Rightarrow> LLMConfig \<Rightarrow> string \<Rightarrow> string \<Rightarrow> string \<Rightarrow> SpawnState \<Rightarrow> spawn_result \<times> SpawnState" where
  "runSpawn S llm agent i proxyURL s =
    (case home S of None \<Rightarrow> (NoHome, s)
     | Some h \<Rightarrow>
       if \<not> workers_dir_ok S then (WorkersDir, s)
       else if agent = [] then (AgentRequired, s)
       else if i = [] then (TaskRequired, s)
       else if \<not> isValidID i then (InvalidTaskID, s)
       else (case Get ((q_get S)\<lparr> scopeValidator := None \<rparr>) i (squeue s) of
           (Inl e, q) \<Rightarrow> (TaskUnreadable e, s\<lparr> squeue := q \<rparr>)
         | (Inr t, q) \<Rightarrow>
           (let s1 = s\<lparr> squeue := q \<rparr> in
            if \<not> validateTaskTarget (Target t)
            then (if length i < 8 then SliceCrash else DroppedTask, fail_task S i (target_error S (Target t)) s1)
            else if agent = ''codex'' \<and> \<not> results_dir_ok S then (ResultsDir, s1)
            else (case worker_command (cmd S) llm h proxyURL agent t of
                None \<Rightarrow> (UnknownAgent, s1)
              | Some c \<Rightarrow> start_worker S i c s1))))"

definition isWorkerProcess :: "text_env \<Rightarrow> string option \<Rightarrow> bool option" where
  "isWorkerProcess E ps_out =
    map_option (\<lambda>out. list_ex (contains (to_lower E out)) [''codex'', ''claude'', ''agy'', ''podman'']) ps_out"

section \<open>Health\<close>

datatype health_err =
    ProxyURLInvalid url_err | ProxyUnreachable string | ProxyHTTP int | ProxyBody | ProxyStatus string
  | MCPURLInvalid url_err | MCPUnreachable string | MCPHTTP int | MCPBody | MCPFault int string

definition proxy_health :: "cmd_env \<Rightarrow> (string \<Rightarrow> (string, int \<times> string) result) \<Rightarrow> string \<Rightarrow> health_err option" where
  "proxy_health E http_get proxyURL =
    (let target = trim_right proxyURL ''/'' @ ''/health'' in
     case url_parse target of Inl e \<Rightarrow> Some (ProxyURLInvalid e)
     | Inr _ \<Rightarrow>
       (case http_get target of Inl e \<Rightarrow> Some (ProxyUnreachable e)
        | Inr (code, body) \<Rightarrow>
          if code \<noteq> 200 then Some (ProxyHTTP code)
          else (case json_decode body of None \<Rightarrow> Some ProxyBody
            | Some v \<Rightarrow>
              (case struct_members v of None \<Rightarrow> Some ProxyBody
               | Some ms \<Rightarrow>
                 (case decode_field (atext (tools E)) ''status'' set_string [] ms of
                    None \<Rightarrow> Some ProxyBody
                  | Some st \<Rightarrow> if st \<noteq> ''ok'' then Some (ProxyStatus st) else None)))))"

definition mcp_health :: "cmd_env \<Rightarrow> string \<Rightarrow> string \<Rightarrow> nat \<Rightarrow> health_err option" where
  "mcp_health E mcpURL key n =
    (let target = trim_right mcpURL ''/'' @ ''/mcp'';
         h0 = header_set ''Content-Type'' ''application/json'' [];
         h = (if key \<noteq> [] then header_set ''Authorization'' (''Bearer '' @ key) h0 else h0) in
     case url_parse target of Inl e \<Rightarrow> Some (MCPURLInvalid e)
     | Inr _ \<Rightarrow>
       (case post (tools E) n target h (json_print (tool_call ''is_kill_switch_active'' [])) of
          Inl e \<Rightarrow> Some (MCPUnreachable e)
        | Inr (code, body) \<Rightarrow>
          if code \<noteq> 200 then Some (MCPHTTP code)
          else (case json_decode body of None \<Rightarrow> Some MCPBody
            | Some v \<Rightarrow>
              (case MCPResponse (atext (tools E)) v of None \<Rightarrow> Some MCPBody
               | Some (_, Some (c, m)) \<Rightarrow> Some (MCPFault c m)
               | Some (_, None) \<Rightarrow> None))))"

definition runHealth ::
  "cmd_env \<Rightarrow> (string \<Rightarrow> (string, int \<times> string) result) \<Rightarrow> string \<Rightarrow> string \<Rightarrow> string \<Rightarrow> nat \<Rightarrow> health_err option" where
  "runHealth E http_get proxyURL mcpURL key n =
    (case proxy_health E http_get proxyURL of Some e \<Rightarrow> Some e | None \<Rightarrow> mcp_health E mcpURL key n)"

section \<open>connect\<close>

text \<open>
  The command around Setup: \<open>loadConfig\<close> gets the empty path. \<open>file_llm\<close> and \<open>is_yaml\<close> are the YAML
  library on the model file and on the scope file.
\<close>

definition connect ::
  "cmd_env \<Rightarrow> (string \<Rightarrow> LLMConfig option) \<Rightarrow> (string \<Rightarrow> bool) \<Rightarrow> string \<Rightarrow> string \<Rightarrow> string
    \<Rightarrow> (fatal, LLMConfig \<times> bool \<times> ScopeRule list) result" where
  "connect E file_llm is_yaml llmFlag llmConfigFlag filePath =
    (case loadConfig E [] of Inl e \<Rightarrow> Inl e
     | Inr cfg \<Rightarrow>
       (let llm = llmFromArgs (tools E) llmFlag llmConfigFlag file_llm (LLM (Global cfg)) in
        if Provider llm = [] then Inl NoLLMConfigured
        else (case read_file E filePath of Inl _ \<Rightarrow> Inl (ScopeFileUnreadable filePath)
          | Inr content \<Rightarrow>
            (case runConnect (tools E) llm is_yaml (\<lambda>c. case yaml E c of Inl _ \<Rightarrow> None | Inr x \<Rightarrow> Some x) content of
               None \<Rightarrow> Inl NoScopeRules | Some r \<Rightarrow> Inr r))))"

section \<open>vpn\<close>

definition vpn_settings :: "GlobalVPNConfig \<Rightarrow> VpnConfig" where
  "vpn_settings g =
    \<lparr> VWGConfigPath = WGConfigPath g, VContainerName = VPNContainerName g, VContainerImage = VPNContainerImage g,
      VPodmanBinary = PodmanBinary g, VpnEnabled = VPNEnabled g, VpnKillSwitch = VPNKillSwitch g, StartupTimeout = 0 \<rparr>"

definition buildVPNController :: "Config \<Rightarrow> VpnConfig option" where
  "buildVPNController cfg =
    (let g = GVPN (Global cfg) in
     if \<not> VPNEnabled g \<or> WGConfigPath g = [] then None else Some (Vpn_New ((vpn_settings g)\<lparr> VpnEnabled := True \<rparr>)))"

datatype vpn_outcome = VpnStarted VpnStatus | VpnStopped | VpnReport VpnStatus | VpnFailed vpn_err | VpnUnknownAction string

definition runVPN :: "vpn_env \<Rightarrow> Config \<Rightarrow> string \<Rightarrow> vpn_state \<Rightarrow> (vpn_outcome \<times> vpn_state) option" where
  "runVPN V cfg action s =
    (let ctl = Vpn_New (vpn_settings (GVPN (Global cfg))) in
     if action = ''start''
     then (case Vpn_Start V ctl s of None \<Rightarrow> None
       | Some (Some e, s1) \<Rightarrow> Some (VpnFailed e, s1)
       | Some (None, s1) \<Rightarrow> (case Vpn_Status V ctl s1 of (st, s2) \<Rightarrow> Some (VpnStarted st, s2)))
     else if action = ''stop'' then Some (VpnStopped, Vpn_Stop V ctl s)
     else if action = ''status'' then (case Vpn_Status V ctl s of (st, s1) \<Rightarrow> Some (VpnReport st, s1))
     else Some (VpnUnknownAction action, s))"

section \<open>A started server\<close>

lemma resolved_key: "resolveMCPAPIKey E given file = Inr k \<Longrightarrow> k \<noteq> []"
  by (auto simp: resolveMCPAPIKey_def requiredMCPAPIKey_def Let_def split: sum.splits if_splits)

lemma boot_switch_ok: "switch_ok sw \<Longrightarrow> switch_ok (boot_switch E cfg sw)"
  by (simp add: boot_switch_def boot_activate_def Activate_def switch_ok_def split: if_splits)

lemma boot_switch_active:
  "activated (boot_switch E cfg sw) \<longleftrightarrow>
    activated sw \<or> KSEnabled (GKillSwitch (Global cfg)) \<or> KSEnabled (PKillSwitch (served_program cfg))"
  by (simp add: boot_switch_def boot_activate_def Activate_def)

text \<open>The state \<open>runServer\<close> builds, in one equation.\<close>

definition boot_proxy :: "cmd_env \<Rightarrow> Config \<Rightarrow> string \<Rightarrow> Proxy" where
  "boot_proxy E cfg listen =
    (let p0 = NewProxy (server_proxy_config cfg listen) (persistent_audit E) in p0\<lparr> switch := boot_switch E cfg (switch p0) \<rparr>)"

lemma runServer_state:
  assumes "runServer E cfgPath lp lm given file = Inr s"
  obtains cfg n key mcpURL proxyURL where
    "loadConfig E cfgPath = Inr cfg" "\<not> VPNEnabled (GVPN (Global cfg))"
    "resolveMCPAPIKey E given file = Inr key" "listenerURL lm = Inr mcpURL" "listenerURL lp = Inr proxyURL"
    "prx s = boot_proxy E cfg lp" "mstore s = NewMemoryStore n" "serverKey s = key"
    "specialistConfig s = server_specialists E cfg key mcpURL proxyURL" "commands (tool_runs s) = []"
proof -
  from assms obtain cfg key mcpURL proxyURL st where r:
    "loadConfig E cfgPath = Inr cfg" "\<not> VPNEnabled (GVPN (Global cfg))" "resolveMCPAPIKey E given file = Inr key"
    "listenerURL lm = Inr mcpURL" "listenerURL lp = Inr proxyURL"
    "NewConfiguredStore (getenv (tools E)) \<lparr> PostgreSQLEnabled = DBEnabled (Database (Global cfg)),
       SConnString = ConnString (Database (Global cfg)), SMaxConns = MaxConns (Database (Global cfg)) \<rparr> = Inr st"
    by (auto simp: runServer_def Let_def split: sum.splits if_splits)
  have "st = NewMemoryStore 5000" using r(6) by (auto simp: NewConfiguredStore_def split: if_splits)
  with r show ?thesis
    using assms
    by (intro that [of cfg key mcpURL proxyURL 5000])
      (auto simp: runServer_def boot_proxy_def Let_def ConfigureSpecialists_def SetGateApprovalToken_def
        SetDeactivationToken_def SetAPIKey_def SetProgramID_def NewServer_def split: if_splits)
qed

lemma persistent_audit_ok: "pred_option logger_ok (persistent_audit E)"
  by (auto simp: persistent_audit_def NewPersistentLogger_logger split: option.split)

lemma boot_proxy_inv: "gw_inv E0 (server_proxy_config cfg lp) (boot_proxy E cfg lp)"
  using gw_inv_start [OF persistent_audit_ok, of E0 "server_proxy_config cfg lp" E] boot_switch_ok [of _ E cfg]
  by (simp add: gw_inv_def boot_proxy_def Let_def resolved_ok_def)

text \<open>
  C31: a server that starts has a valid configuration without VPN and a key that is not
  empty and is the one the specialists use; its kill switch is active exactly when the
  configuration says so, testing is enabled exactly when the program enables it, the
  specialists run dry otherwise, and exploitation is off.
\<close>

theorem started_server_guarded:
  assumes "runServer E cfgPath lp lm given file = Inr s"
  shows "\<exists>cfg. loadConfig E cfgPath = Inr cfg \<and> Config_Validate cfg = None \<and> \<not> VPNEnabled (GVPN (Global cfg)) \<and>
    serverKey s \<noteq> [] \<and> MCPAPIKey (specialistConfig s) = serverKey s \<and>
    (kill_active s \<longleftrightarrow> KSEnabled (GKillSwitch (Global cfg)) \<or> KSEnabled (PKillSwitch (served_program cfg))) \<and>
    (TestingEnabled (pconf (prx s)) \<longleftrightarrow> ActiveTestingEnabled (served_program cfg)) \<and>
    (SDryRun (specialistConfig s) \<longleftrightarrow>
      DefDryRun (Defaults (Global cfg)) \<or> \<not> ActiveTestingEnabled (served_program cfg)) \<and>
    \<not> AllowExploitation (specialistConfig s) \<and> commands (tool_runs s) = []"
proof -
  from runServer_state [OF assms] obtain cfg n key mcpURL proxyURL where
    r: "loadConfig E cfgPath = Inr cfg" "\<not> VPNEnabled (GVPN (Global cfg))"
      "resolveMCPAPIKey E given file = Inr key" "listenerURL lm = Inr mcpURL" "listenerURL lp = Inr proxyURL"
      "prx s = boot_proxy E cfg lp" "mstore s = NewMemoryStore n" "serverKey s = key"
      "specialistConfig s = server_specialists E cfg key mcpURL proxyURL" "commands (tool_runs s) = []"
    by metis
  have "Config_Validate cfg = None"
    using r(1) by (auto simp: loadConfig_def split: sum.splits option.splits)
  moreover have "kill_active s \<longleftrightarrow>
      KSEnabled (GKillSwitch (Global cfg)) \<or> KSEnabled (PKillSwitch (served_program cfg))"
    by (simp add: kill_active_def IsActive_def r(6) boot_proxy_def Let_def boot_switch_active NewProxy_def new_switch_def)
  moreover have "pconf (boot_proxy E cfg lp) = pconf (NewProxy (server_proxy_config cfg lp) None)"
    by (simp add: boot_proxy_def Let_def NewProxy_def)
  then have "TestingEnabled (pconf (prx s)) \<longleftrightarrow> ActiveTestingEnabled (served_program cfg)"
    by (simp add: r(6) NewProxy_def server_proxy_config_def Let_def)
  ultimately show ?thesis
    using r resolved_key [OF r(3)] by (auto simp: server_specialists_def Let_def)
qed

text \<open>
  C1: in every state the server that the command starts reaches by any sequence of proxy
  traffic and MCP requests in environments that share the text tables, whether its audit
  database opened or not, active testing is enabled if anything left the proxy, and every
  event is tied to the scope of the configuration: a request and its connection are for a
  URL that the scheme, port, host and path rules permit, a tunnel is for an allowed https
  port of a host in scope, a pinned connection goes to an unblocked address, and every name
  looked up is a host in scope, the lookups of the programmatic URL check excepted. The pins
  are off the block list, the store satisfies its invariant, and every command started by a
  specialist is permitted by its configuration.
\<close>

theorem running_server_safe:
  assumes "runServer E cfgPath lp lm given file = Inr s0"
    and "list_all (op_in E0 A) ops" "s = fold sys_apply ops s0"
  shows "\<exists>cfg. loadConfig E cfgPath = Inr cfg \<and>
    list_all (event_permitted E0 (NewProxy (server_proxy_config cfg lp) None)) (trace (prx s)) \<and>
    resolved_ok (prx s) \<and> store_inv (mstore s) \<and> list_all (command_ok A s) (commands (tool_runs s))"
proof -
  from runServer_state [OF assms(1)] obtain cfg n key where
    r: "loadConfig E cfgPath = Inr cfg" "prx s0 = boot_proxy E cfg lp" "mstore s0 = NewMemoryStore n"
      "commands (tool_runs s0) = []" by metis
  then have "sys_inv E0 (server_proxy_config cfg lp) A s0"
    using boot_proxy_inv by (simp add: sys_inv_def)
  from sys_inv_run [OF this assms(2)] r(1) show ?thesis
    by (auto simp: assms(3) sys_inv_def gw_inv_def)
qed

section \<open>discover and scan only touch what the server allows\<close>

lemma filterAllowed_set:
  assumes "filterAllowedTargets targets results = Some ps" "h \<in> set ps"
  shows "h \<in> set targets \<and> (\<exists>r\<in>set results. SafeURL r = ''https://'' @ h @ ''/'' \<and> SafeAllowed r)"
proof -
  from assms have m: "map SafeURL results = targetsToURLs targets"
    and "h \<in> fst ` {x \<in> set (zip targets results). SafeAllowed (snd x)}"
    by (auto simp: filterAllowedTargets_def case_prod_unfold split: if_splits)
  then obtain i where i: "i < length targets" "i < length results" "targets ! i = h" "SafeAllowed (results ! i)"
    by (auto simp: set_zip)
  from m have "SafeURL (results ! i) = ''https://'' @ h @ ''/''"
    using i by (metis nth_map targetsToURLs_def)
  with i show ?thesis by (metis nth_mem)
qed

lemma checked_targets_passed:
  assumes "checked_targets E c prog s = (Inr ps, s1)"
  shows "commands s1 = commands s \<and> ps \<noteq> [] \<and> (\<exists>results.
    Client_RunSafeCheck (tools E) c (requests s) (targetsToURLs (extractTargets prog)) = Inr results \<and>
    filterAllowedTargets (extractTargets prog) results = Some ps)"
  using assms by (auto simp: checked_targets_def Let_def split: if_splits sum.splits option.splits)

lemma checked_targets_commands: "commands (snd (checked_targets E c prog s)) = commands s"
  by (simp add: checked_targets_def Let_def split: sum.split option.split)

lemma tool_session_cases:
  assumes "tool_session E cfgPath i dryRun mcpURL keyFlag tool run s0 = (r, s)"
  obtains (none) "commands s = commands s0"
  | (run) cfg prog c ps s1 where "loadConfig E cfgPath = Inr cfg" "findProgram cfg i = Inr prog"
      "c = NewMCPClientWithAPIKey mcpURL (PID prog) (apiKeyOrEnv E keyFlag)"
      "checked_targets E c prog s0 = (Inr ps, s1)" "\<not> dryRun" "validateScannerNetworkPolicy cfg prog"
      "snd (run cfg prog c ps s1) = s"
proof (cases "loadConfig E cfgPath")
  case (Inr cfg)
  note load = Inr
  show ?thesis
  proof (cases "findProgram cfg i")
    case (Inr prog)
    let ?c = "NewMCPClientWithAPIKey mcpURL (PID prog) (apiKeyOrEnv E keyFlag)"
    obtain q s1 where ck: "checked_targets E ?c prog s0 = (q, s1)" by fastforce
    have same: "commands s1 = commands s0" using checked_targets_commands [of E ?c prog s0] ck by simp
    show ?thesis
    proof (cases q)
      case q: (Inr ps)
      show ?thesis
      proof (cases "\<not> dryRun \<and> validateScannerNetworkPolicy cfg prog \<and> in_path E tool")
        case True
        then have "snd (run cfg prog ?c ps s1) = s"
          using assms load Inr ck q by (auto simp: tool_session_def Let_def split: prod.splits sum.splits)
        with True load Inr ck q show ?thesis by (intro run) auto
      next
        case False
        then have "s = s1"
          using assms load Inr ck q by (auto simp: tool_session_def Let_def split: if_splits)
        with same show ?thesis by (intro none) simp
      qed
    next
      case (Inl e)
      then have "s = s1" using assms load Inr ck by (auto simp: tool_session_def Let_def)
      with same show ?thesis by (intro none) simp
    qed
  next
    case (Inl e)
    then show ?thesis using assms load by (intro none) (auto simp: tool_session_def)
  qed
next
  case (Inl e)
  then show ?thesis using assms by (intro none) (auto simp: tool_session_def)
qed

text \<open>A target of the program that the server let through twice.\<close>

definition twice_allowed :: "cmd_env \<Rightarrow> ProgramConfig \<Rightarrow> MCPClient \<Rightarrow> nat \<Rightarrow> string \<Rightarrow> bool" where
  "twice_allowed E prog c n h =
    (h \<in> set (extractTargets prog) \<and>
     (\<exists>results. Client_RunSafeCheck (tools E) c n (targetsToURLs (extractTargets prog)) = Inr results \<and>
       (\<exists>r\<in>set results. SafeURL r = ''https://'' @ h @ ''/'' \<and> SafeAllowed r)) \<and>
     (\<exists>k. server_allows (tools E) c k h))"

lemma allowed_hosts_twice:
  assumes "checked_targets E c prog s0 = (Inr ps, s1)" "h \<in> set (allowed_hosts (tools E) c k ps)"
  shows "twice_allowed E prog c (requests s0) h"
proof -
  have "h \<in> set ps \<and> (\<exists>k. server_allows (tools E) c k h)"
    using assms(2) by (auto simp: allowed_hosts_def in_set_enumerate_eq dest: nth_mem)
  moreover from checked_targets_passed [OF assms(1)] obtain results where
    "Client_RunSafeCheck (tools E) c (requests s0) (targetsToURLs (extractTargets prog)) = Inr results"
    "filterAllowedTargets (extractTargets prog) results = Some ps" by blast
  ultimately show ?thesis using filterAllowed_set unfolding twice_allowed_def by blast
qed

text \<open>
  C32: discover starts a command only outside a dry run and when the network policy allows
  it; the commands are a version probe and one BBOT scan of hosts of the program that the
  server let through twice, in the batch check of the command and in the check of the
  adapter.
\<close>

theorem discover_scans_twice_allowed:
  assumes "runDiscover E cfgPath i dryRun mcpURL proxyURL noProxy keyFlag s0 = (r, s)" "commands s \<noteq> commands s0"
  shows "\<exists>cfg prog c hosts v. loadConfig E cfgPath = Inr cfg \<and> findProgram cfg i = Inr prog \<and> \<not> dryRun \<and>
    validateScannerNetworkPolicy cfg prog \<and> hosts \<noteq> [] \<and> list_all (twice_allowed E prog c (requests s0)) hosts \<and>
    commands s = commands s0 @
      [version_probe (tools E) (or_default (BBOTPath (Tools (Global cfg))) ''bbot''),
       bbot_command (tools E) (discover_config cfg prog c proxyURL noProxy) hosts v]"
  using assms(1) unfolding runDiscover_def
proof (cases rule: tool_session_cases)
  case (run cfg prog c ps s1)
  let ?cfg = "discover_config cfg prog c proxyURL noProxy"
  have s1: "commands s1 = commands s0" using checked_targets_passed [OF run(4)] by simp
  obtain q where q: "RunBBOT (tools E) ?cfg ps s1 = (q, s)" using run(7) by (metis prod.collapse)
  then show ?thesis
  proof (cases rule: RunBBOT_cases)
    case (scan c' res0 res)
    have c: "c' = c" using scan(1) by (simp add: discover_config_def)
    have "list_all (twice_allowed E prog c (requests s0)) (allowed_hosts (tools E) c (requests s1) ps)"
      using allowed_hosts_twice [OF run(4)] by (simp add: list_all_iff)
    moreover from bbot_scan_state [OF scan(7)] obtain v where
      "commands s = commands s1 @ [version_probe (tools E) (BBinaryPath ?cfg),
         bbot_command (tools E) ?cfg (allowed_hosts (tools E) c (requests s1) ps) v]" by (auto simp: c)
    ultimately show ?thesis
      using run scan(5) s1 by (auto simp: c discover_config_def)
  qed (use assms(2) s1 in auto)
qed (use assms(2) in simp)

section \<open>Workers get the proxy\<close>

lemma setEnv_sets: "(k @ ''='' @ v) \<in> set (setEnv env k v)"
  by (induction env) auto

lemma setEnv_keeps: "e \<in> set env \<Longrightarrow> \<not> has_prefix e (k @ ''='') \<Longrightarrow> e \<in> set (setEnv env k v)"
  by (induction env) auto

definition proxy_names :: "string list" where
  "proxy_names = [''HTTP_PROXY'', ''HTTPS_PROXY'', ''http_proxy'', ''https_proxy'']"

lemma worker_env_proxied: "k \<in> set proxy_names \<Longrightarrow> (k @ ''='' @ proxyURL) \<in> set (worker_env E llm proxyURL)"
  unfolding worker_env_def proxy_names_def Let_def
  by (auto simp: setEnv_keeps setEnv_sets [of "''HTTP_PROXY''", simplified] setEnv_sets [of "''HTTPS_PROXY''", simplified]
      setEnv_sets [of "''http_proxy''", simplified] setEnv_sets [of "''https_proxy''", simplified])

text \<open>What the process inherits besides is kept, \<open>NO_PROXY\<close> included.\<close>

lemma worker_keeps_no_proxy:
  "''NO_PROXY=*'' \<in> set (environ (tools E)) \<Longrightarrow> ''NO_PROXY=*'' \<in> set (worker_env E llm proxyURL)"
  unfolding worker_env_def Let_def by (simp add: setEnv_keeps)

definition proxied_worker :: "string \<Rightarrow> string \<Rightarrow> command \<Rightarrow> bool" where
  "proxied_worker agent proxyURL c =
    (if agent = ''container''
     then ''HTTP_PROXY='' @ proxyURL \<in> set (command_args c) \<and> ''HTTPS_PROXY='' @ proxyURL \<in> set (command_args c)
     else list_all (\<lambda>k. (k @ ''='' @ proxyURL) \<in> set (command_env c)) proxy_names)"

lemma worker_command_proxied: "worker_command E llm h proxyURL agent t = Some c \<Longrightarrow> proxied_worker agent proxyURL c"
  using worker_env_proxied [of _ proxyURL E llm]
  by (auto simp: worker_command_def proxied_worker_def container_args_def list_all_iff Let_def split: if_splits)

lemma started_fail_task [simp]: "started (fail_task S i m s) = started s"
  by (simp add: fail_task_def)

lemma start_worker_started:
  assumes "start_worker S i c s = (r, s')" "started s' \<noteq> started s"
  shows "\<exists>n. r = SpawnedWorker n \<and> started s' = started s @ [c] \<and> process_start S c = Inr n"
  using assms
  by (cases "process_start S c") (auto simp: start_worker_def Let_def split: sum.splits prod.splits)

lemma runSpawn_started:
  assumes "runSpawn S llm agent i proxyURL s = (r, s')" "started s' \<noteq> started s"
  obtains h t q c where "home S = Some h" "isValidID i" "validateTaskTarget (Target t)"
    "Get ((q_get S)\<lparr> scopeValidator := None \<rparr>) i (squeue s) = (Inr t, q)"
    "worker_command (cmd S) llm h proxyURL agent t = Some c" "start_worker S i c (s\<lparr> squeue := q \<rparr>) = (r, s')"
proof -
  obtain h where h: "home S = Some h" using assms by (cases "home S") (auto simp: runSpawn_def)
  have i: "isValidID i" using assms h by (auto simp: runSpawn_def split: if_splits)
  obtain g q where g: "Get ((q_get S)\<lparr> scopeValidator := None \<rparr>) i (squeue s) = (g, q)" by fastforce
  obtain t where t: "g = Inr t"
    using assms h i g by (cases g) (auto simp: runSpawn_def split: if_splits)
  have v: "validateTaskTarget (Target t)"
    using assms h i g t by (auto simp: runSpawn_def Let_def split: if_splits)
  obtain c where c: "worker_command (cmd S) llm h proxyURL agent t = Some c"
    using assms h i g t v by (cases "worker_command (cmd S) llm h proxyURL agent t") (auto simp: runSpawn_def Let_def split: if_splits)
  have "start_worker S i c (s\<lparr> squeue := q \<rparr>) = (r, s')"
    using assms h i g t v c by (auto simp: runSpawn_def Let_def split: if_splits)
  with h i v g t c show ?thesis by (intro that) auto
qed

text \<open>
  C36: spawn starts a process only for a valid task id, a task of the queue whose target has
  safe characters and a known agent; it starts one process, and the proxy is set in its
  environment or, for a container, in its arguments.
\<close>

theorem spawned_workers_guarded:
  assumes "runSpawn S llm agent i proxyURL s = (r, s')" "started s' \<noteq> started s"
  shows "\<exists>h t c n. r = SpawnedWorker n \<and> started s' = started s @ [c] \<and> home S = Some h \<and> isValidID i \<and>
    fst (Get ((q_get S)\<lparr> scopeValidator := None \<rparr>) i (squeue s)) = Inr t \<and> validateTaskTarget (Target t) \<and>
    worker_command (cmd S) llm h proxyURL agent t = Some c \<and> process_start S c = Inr n \<and> proxied_worker agent proxyURL c"
  using assms
proof (cases rule: runSpawn_started)
  case (1 h t q c)
  from start_worker_started [OF 1(6)] assms(2) obtain n where
    "r = SpawnedWorker n" "started s' = started s @ [c]" "process_start S c = Inr n" by auto
  with 1 worker_command_proxied [OF 1(5)] show ?thesis by auto
qed

section \<open>Adding to the queue\<close>

lemma add_body_ok:
  assumes "add_body Q t s = (Inr (), s')"
  shows "(case scopeValidator Q of None \<Rightarrow> True | Some v \<Rightarrow> v (Target t)) \<and> TType t \<in> set valid_types \<and>
    tasks_of s' = map stored (tasks_of s @ [with_defaults Q t])"
proof -
  have g: "(case scopeValidator Q of None \<Rightarrow> True | Some v \<Rightarrow> v (Target t))" "TType t \<in> set valid_types"
    using assms by (auto simp: add_body_def split: if_splits option.splits)
  obtain ts where ts: "loadTasks Q s = Inr ts"
    using assms by (cases "loadTasks Q s") (auto simp: add_body_def Let_def split: if_splits)
  have "saveTasks Q (ts @ [with_defaults Q t]) s = (Inr (), s')"
    using assms ts by (simp add: add_body_def Let_def split: if_splits)
  then have "tasks_of s' = map stored (ts @ [with_defaults Q t])"
    by (auto simp: saveTasks_def simp del: map_append split: option.splits)
  with g loadTasks_Inr [OF ts] show ?thesis by simp
qed

lemma Queue_Add_ok:
  assumes "Queue_Add Q t q = (Inr (), q')"
  shows "(case scopeValidator Q of None \<Rightarrow> True | Some v \<Rightarrow> v (Target t)) \<and> TType t \<in> set valid_types \<and>
    tasks_of q' = map stored (tasks_of q @ [with_defaults Q t])"
proof -
  obtain s1 where l: "newLockFile Q q = Inr s1"
    using assms by (cases "newLockFile Q q") (auto simp: Queue_Add_def with_lock_def)
  obtain s2 where b: "add_body Q t s1 = (Inr (), s2)" "q' = unlock s2"
    using assms l by (auto simp: Queue_Add_def with_lock_def split: prod.splits)
  from add_body_ok [OF b(1)] b(2) newLockFile_Inr [OF l] show ?thesis by simp
qed

text \<open>
  What the scope of a program requires of a target: of a URL with a scheme that scheme, port, host and
  path are in scope; of anything else that the host is, without the port of a \<open>host:port\<close>.
\<close>

definition target_in_scope :: "text_env \<Rightarrow> Engine \<Rightarrow> string list \<Rightarrow> int list \<Rightarrow> string \<Rightarrow> bool" where
  "target_in_scope A eng schemes ports t =
    (let as_host = InScope (IsHostInScope A eng (case split_host_port t of Inr (h, port) \<Rightarrow> h | Inl e \<Rightarrow> t))
     in case url_parse t of
       Inl e \<Rightarrow> as_host
     | Inr u \<Rightarrow> if scheme u = [] then as_host
         else scheme u \<in> set schemes \<and> (\<exists>p\<in>set ports. url_port_number u = Some p)
           \<and> InScope (IsHostInScope A eng (hostname u)) \<and> \<not> path_excluded A eng (hostname u) (path u))"

lemma no_colon_no_port: "\<not> contains t '':'' \<Longrightarrow> split_host_port t = Inl MissingPort"
  using last_index_byte_None [of t "CHR '':''"] by (simp add: split_host_port_def contains_char_iff)

lemma queue_validator_scope:
  "queue_validator E cfg prog t = target_in_scope (atext (tools E)) (NewEngine (PID prog) (PScope prog))
     (effective_schemes cfg prog) (effective_ports cfg prog) t"
  using no_colon_no_port [of t]
  by (auto simp: queue_validator_def target_in_scope_def has_scheme_def IsURLInScope_InScope Let_def
      split: sum.split)

lemma stored_type: "ty \<in> set valid_types \<Longrightarrow> json_string ty = ty"
  by (auto simp: valid_types_def json_string_ascii byte_def)

text \<open>
  C37: when queue add succeeds, the target is in the scope of the chosen program: as a host,
  without its port, when it has no scheme, and otherwise as a URL with an allowed scheme and
  port, a host in scope and no excluded path; the type is one of the four the code accepts,
  the priority is from 1 to 5, and the queue has grown by one pending task with these fields
  and a fresh id, as the JSON text of the file keeps them.
\<close>

theorem queued_tasks_in_scope:
  assumes "queue_add E Q cfgPath i target ttype prio q = (Inr (), q')"
  shows "\<exists>cfg prog t. loadConfig E cfgPath = Inr cfg \<and> queue_program cfg i = Inr prog
    \<and> target_in_scope (atext (tools E)) (NewEngine (PID prog) (PScope prog))
        (if AllowedSchemes (Limits prog) = [] then DefAllowedSchemes (Defaults (Global cfg)) else AllowedSchemes (Limits prog))
        (if AllowedPorts (Limits prog) = [] then DefAllowedPorts (Defaults (Global cfg)) else AllowedPorts (Limits prog)) target
    \<and> ttype \<in> {''recon'', ''vuln'', ''payload'', ''analyze''} \<and> 1 \<le> prio \<and> prio \<le> 5
    \<and> tasks_of q' = map stored (tasks_of q) @ [t]
    \<and> Target t = json_string target \<and> TType t = ttype \<and> Priority t = prio \<and> TStatus t = ''pending''
    \<and> TID t = json_string (new_uuid Q) \<and> CreatedAt t = now Q \<and> UpdatedAt t = now Q"
proof -
  from assms obtain cfg prog where c: "loadConfig E cfgPath = Inr cfg" "queue_program cfg i = Inr prog" "1 \<le> prio" "prio \<le> 5"
    and a: "Queue_Add (Q\<lparr> scopeValidator := Some (queue_validator E cfg prog) \<rparr>) (new_task target ttype prio) q = (Inr (), q')"
    by (auto simp: queue_add_def split: if_splits sum.splits prod.splits)
  let ?Q = "Q\<lparr> scopeValidator := Some (queue_validator E cfg prog) \<rparr>"
  let ?t = "stored (with_defaults ?Q (new_task target ttype prio))"
  have r: "queue_validator E cfg prog target" "ttype \<in> set valid_types" "tasks_of q' = map stored (tasks_of q) @ [?t]"
    using Queue_Add_ok [OF a] by (simp_all add: new_task_def)
  have "Target ?t = json_string target \<and> TType ?t = ttype \<and> Priority ?t = prio \<and> TStatus ?t = ''pending''
      \<and> TID ?t = json_string (new_uuid Q) \<and> CreatedAt ?t = now Q \<and> UpdatedAt ?t = now Q"
    using stored_type [OF r(2)]
    by (simp add: stored_def new_task_def with_defaults_def json_string_ascii byte_def Let_def)
  then show ?thesis
    using c r queue_validator_scope [of E cfg prog target]
    unfolding effective_schemes_def effective_ports_def valid_types_def by auto
qed

text \<open>The empty path of \<open>connect\<close> is not the default path: only the development file is read.\<close>

lemma connect_ignores_default_config:
  assumes "read_file E [] = Inl e" "read_file E ''config/config.yaml'' = Inl e'"
  shows "connect E file_llm is_yaml llmFlag llmConfigFlag filePath = Inl (NoConfigFile [])"
  using assms by (simp add: connect_def loadConfig_def)

end
