(* ===== verification/Pentest_Demo.thy ===== *)
theory Pentest_Demo
  imports Pentest Proxy_Demo
begin

text \<open>
  Witnesses for the properties of the command line: one valid configuration, a started server, a
  \<open>discover\<close> that scans the host its server let through, a spawned worker and a queued task.
\<close>

section \<open>A valid configuration\<close>

definition demo_prog :: ProgramConfig where
  "demo_prog = zero_program\<lparr> PID := ''acme'', AuthorizationRef := ''ref'', ActiveTestingEnabled := True,
     NetworkPolicy := \<lparr> VPNPolicy = ''permitted'', StableSourceIPRequired = False \<rparr>,
     Limits := \<lparr> RequestsPerSecondPerHost = 5, MaxConcurrency = 3, MaxResponseBytes = 0, AllowedSchemes = [],
       AllowedPorts = [], MaxRequestsPerJob = 0, MaxCrawlDepth = 0 \<rparr>,
     PScope := \<lparr> Include = [\<lparr> RuleType = ''exact_host'', RuleValue = ''a.io'', RuleHost = [], IncludeApex = False \<rparr>],
       Exclude = [] \<rparr> \<rparr>"

definition demo_cfg :: Config where
  "demo_cfg = \<lparr> Programs = [demo_prog], Global = as_global (init_global 5) \<rparr>"

definition demo_cmd :: cmd_env where
  "demo_cmd = \<lparr> tools = demo_tools\<lparr> post := (\<lambda>n _ _ _. Inr (200, json_print (reply
       (if n = 0 then JObj [(''results'', JArr [JObj [(''url'', JStr ''https://a.io/''), (''allowed'', JBool True)]])]
        else JObj [(''allowed'', JBool True)])))) \<rparr>,
     read_file = (\<lambda>_. Inr ''programs:''), yaml = (\<lambda>_. Inr demo_cfg), can_listen = (\<lambda>_. True), in_path = (\<lambda>_. True),
     boot_now = 0, audit_db = Some (\<lparr> json_marshal = (\<lambda>_. []), json_unmarshal = (\<lambda>_. None) \<rparr>, True, []), config_dir = None \<rparr>"

lemma demo_host: "validateHost ''a.io'' = None"
  by (simp add: go_eval)

lemma demo_cfg_valid: "Config_Validate demo_cfg = None"
  using init_global_valid [of 5] demo_host
  by (simp add: Config_Validate_def demo_cfg_def demo_prog_def zero_program_def ProgramConfig_Validate_def
      validateScopeRule_def orelse_def Let_def)

lemma demo_load: "loadConfig demo_cmd f = Inr demo_cfg"
  by (simp add: loadConfig_def demo_cmd_def Load_def demo_cfg_valid)

lemma demo_global [simp]: "VPNEnabled (GVPN (Global demo_cfg)) = False" "Database (Global demo_cfg) = \<lparr> ConnString = [], DBEnabled = False, MaxConns = 0 \<rparr>"
  by (simp_all add: demo_cfg_def as_global_def init_global_def)

lemma demo_cmd_fields [simp]: "can_listen demo_cmd a" "in_path demo_cmd n" "audit_db demo_cmd \<noteq> None"
  "getenv (tools demo_cmd) v = []" "environ (tools demo_cmd) = environ demo_tools" "atext (tools demo_cmd) = ascii_env"
  by (simp_all add: demo_cmd_def demo_tools_def)

section \<open>A started server\<close>

lemma demo_program_flags:
  "served_program demo_cfg = demo_prog" "ActiveTestingEnabled demo_prog" "\<not> KSEnabled (PKillSwitch demo_prog)"
  "\<not> KSEnabled (GKillSwitch (Global demo_cfg))" "\<not> DefDryRun (Defaults (Global demo_cfg))"
  by (simp_all add: served_program_def demo_cfg_def demo_prog_def zero_program_def no_switch_def as_global_def init_global_def)

lemma demo_urls: "listenerURL ''127.0.0.1:8443'' = Inr ''http://127.0.0.1:8443''"
  "listenerURL ''127.0.0.1:9090'' = Inr ''http://127.0.0.1:9090''"
  by (simp_all add: listenerURL_def go_eval)

lemma demo_started:
  obtains s where "runServer demo_cmd ''scope.yaml'' ''127.0.0.1:8443'' ''127.0.0.1:9090'' ''key'' [] = Inr s"
proof -
  have "trim_space ''key'' = ''key''" by (simp add: go_eval)
  then have "resolveMCPAPIKey demo_cmd ''key'' [] = Inr ''key''"
    by (simp add: resolveMCPAPIKey_def apiKeyResolve_def)
  then show ?thesis
    using that demo_urls by (simp add: runServer_def demo_load NewConfiguredStore_def Let_def)
qed

theorem started_server_guarded_witness:
  "\<exists>s cfg. runServer demo_cmd ''scope.yaml'' ''127.0.0.1:8443'' ''127.0.0.1:9090'' ''key'' [] = Inr s \<and>
    loadConfig demo_cmd ''scope.yaml'' = Inr cfg \<and> serverKey s \<noteq> [] \<and> \<not> kill_active s \<and>
    TestingEnabled (pconf (prx s)) \<and> \<not> SDryRun (specialistConfig s)"
proof -
  obtain s where s: "runServer demo_cmd ''scope.yaml'' ''127.0.0.1:8443'' ''127.0.0.1:9090'' ''key'' [] = Inr s"
    by (rule demo_started)
  from started_server_guarded [OF s] s show ?thesis by (auto simp: demo_load demo_program_flags)
qed

theorem running_server_safe_witness:
  "\<exists>s0. runServer demo_cmd ''scope.yaml'' ''127.0.0.1:8443'' ''127.0.0.1:9090'' ''key'' [] = Inr s0 \<and>
    list_all (event_permitted demo_env (NewProxy (server_proxy_config demo_cfg ''127.0.0.1:8443'') None))
      (trace (prx (sys_apply (Traffic demo_env (GwServe demo_request)) s0)))"
proof -
  obtain s where s: "runServer demo_cmd ''scope.yaml'' ''127.0.0.1:8443'' ''127.0.0.1:9090'' ''key'' [] = Inr s"
    by (rule demo_started)
  from running_server_safe [OF s, of demo_env demo_tools "[Traffic demo_env (GwServe demo_request)]"] s
  show ?thesis by (simp add: demo_load)
qed

section \<open>discover\<close>

definition demo_caller :: MCPClient where
  "demo_caller = NewMCPClientWithAPIKey ''http://127.0.0.1:8444/'' ''acme'' []"

lemma demo_caller_url: "\<not> is_err (url_parse (ClientURL demo_caller @ ''/mcp''))"
  by (simp add: demo_caller_def NewMCPClientWithAPIKey_def trim_right_def go_eval)

lemma demo_safe_check:
  "\<exists>r. Client_RunSafeCheck (tools demo_cmd) demo_caller 0 [''https://a.io/''] = Inr [r] \<and>
    SafeURL r = ''https://a.io/'' \<and> SafeAllowed r"
proof -
  let ?v = "reply (JObj [(''results'', JArr [JObj [(''url'', JStr ''https://a.io/''), (''allowed'', JBool True)]])])"
  have "json_decode (json_print ?v) = Some ?v"
    by (rule json_decode_print [where r = "[]", simplified])
      (simp_all add: reply_def max_depth_def int_literal_def is_digit_def byte_def between_def)
  then show ?thesis
    using demo_caller_url field_names
    by (auto simp: Client_RunSafeCheck_def call_tool_def demo_cmd_def reply_read is_err_def struct_members_def decode_lower
        set_checks_def decode_check_def set_string_def set_bool_def split: sum.splits)
qed

lemma demo_lets: "server_allows (tools demo_cmd) demo_caller (Suc n) h"
  using demo_caller_url by (simp add: server_allows_answer demo_cmd_def reply_allows)

lemma demo_checked:
  "checked_targets demo_cmd demo_caller demo_prog demo_start = (Inr [''a.io''], demo_start\<lparr> requests := 1 \<rparr>)"
proof -
  have "extractTargets demo_prog = [''a.io'']" by (simp add: extractTargets_def demo_prog_def)
  with demo_safe_check show ?thesis
    by (auto simp: checked_targets_def Let_def targetsToURLs_def filterAllowedTargets_def demo_start_def)
qed

lemma demo_discovered:
  "commands (snd (runDiscover demo_cmd ''scope.yaml'' ''acme'' False ''http://127.0.0.1:8444/''
     ''http://127.0.0.1:8443'' False [] demo_start)) \<noteq> commands demo_start"
proof -
  let ?b = "discover_config demo_cfg demo_prog demo_caller ''http://127.0.0.1:8443'' False"
  let ?s = "demo_start\<lparr> requests := 1 \<rparr>"
  have b: "BMCPClient ?b = Some demo_caller" "\<not> BDryRun ?b" "BVPNContainer ?b = []" "bbot_guard ?b = None"
    using demo_proxy by (simp_all add: discover_config_def bbot_guard_def)
  have p: "PID demo_prog = ''acme''" "validateScannerNetworkPolicy demo_cfg demo_prog" "apiKeyOrEnv demo_cmd [] = []"
    by (simp_all add: demo_prog_def validateScannerNetworkPolicy_def apiKeyOrEnv_def)
  then have f: "findProgram demo_cfg ''acme'' = Inr demo_prog" by (simp add: findProgram_def demo_cfg_def)
  have a: "allowed_hosts (tools demo_cmd) demo_caller 1 [''a.io''] = [''a.io'']"
    using demo_lets [of 0] by (simp add: allowed_hosts_def)
  obtain r s where run: "RunBBOT (tools demo_cmd) ?b [''a.io''] ?s = (r, s)" by fastforce
  then have "commands s \<noteq> commands demo_start"
  proof (cases rule: RunBBOT_cases)
    case (scan c res0 res)
    from bbot_scan_state [OF scan(7)] show ?thesis by (auto simp: demo_start_def)
  qed (use b a in \<open>simp_all add: demo_start_def\<close>)
  then show ?thesis
    using run p f by (simp add: runDiscover_def tool_session_def demo_load demo_caller_def [symmetric] demo_checked
        split: sum.split)
qed

theorem discover_scans_twice_allowed_witness:
  "\<exists>s. runDiscover demo_cmd ''scope.yaml'' ''acme'' False ''http://127.0.0.1:8444/''
      ''http://127.0.0.1:8443'' False [] demo_start = s \<and>
    (\<exists>hosts prog c. hosts \<noteq> [] \<and> list_all (twice_allowed demo_cmd prog c 0) hosts)"
proof -
  obtain r s where run: "runDiscover demo_cmd ''scope.yaml'' ''acme'' False ''http://127.0.0.1:8444/''
      ''http://127.0.0.1:8443'' False [] demo_start = (r, s)" by fastforce
  with demo_discovered have "commands s \<noteq> commands demo_start" by simp
  from discover_scans_twice_allowed [OF run this] show ?thesis by (auto simp: demo_start_def)
qed

section \<open>A worker and a task\<close>

definition demo_file :: Queue where
  "demo_file = \<lparr> qfile = Some [JLine demo_task], qlock = None \<rparr>"

definition demo_spawner :: spawn_env where
  "demo_spawner = \<lparr> cmd = demo_cmd, q_get = demo_q, q_start = demo_q, q_fail = demo_q, home = Some ''/root'',
     workers_dir_ok = True, results_dir_ok = True, target_error = (\<lambda>_. []), process_start = (\<lambda>_. Inr 42), pid_writable = True \<rparr>"

definition demo_workers :: SpawnState where
  "demo_workers = \<lparr> squeue = demo_file, pid_files = [], started = [] \<rparr>"

theorem spawned_workers_guarded_witness:
  "\<exists>c. started (snd (runSpawn demo_spawner no_llm ''claude'' ''t'' ''http://127.0.0.1:8445'' demo_workers)) = [c] \<and>
    proxied_worker ''claude'' ''http://127.0.0.1:8445'' c"
proof -
  let ?p = "''http://127.0.0.1:8445''"
  obtain r s where run: "runSpawn demo_spawner no_llm ''claude'' ''t'' ?p demo_workers = (r, s)" by fastforce
  have "started s \<noteq> started demo_workers"
    using arg_cong [OF run, of "\<lambda>x. started (snd x) = []"]
    by (simp add: runSpawn_def demo_spawner_def demo_workers_def demo_file_def isValidID_def alnum_def validateTaskTarget_def
        start_worker_def worker_command_def demo_q_def demo_task_def go_eval)
  from spawned_workers_guarded [OF run this] run show ?thesis by (auto simp: demo_workers_def)
qed

theorem queued_tasks_in_scope_witness:
  "\<exists>q' (prog :: ProgramConfig). queue_add demo_cmd demo_q ''scope.yaml'' ''acme'' ''a.io'' ''recon'' 3 NewQueue = (Inr (), q') \<and>
    InScope (IsHostInScope ascii_env (NewEngine (PID prog) (PScope prog)) ''a.io'') \<and> map Target (tasks_of q') = [''a.io'']"
proof -
  have v: "queue_validator demo_cmd demo_cfg demo_prog ''a.io''"
    by (simp add: queue_validator_def has_scheme_def demo_prog_def NewEngine_def IsHostInScope_def go_eval)
  have f: "findProgram demo_cfg ''acme'' = Inr demo_prog" by (simp add: findProgram_def demo_cfg_def demo_prog_def)
  obtain r q' where run: "queue_add demo_cmd demo_q ''scope.yaml'' ''acme'' ''a.io'' ''recon'' 3 NewQueue = (r, q')" by fastforce
  have r: "r = Inr ()"
    using arg_cong [OF run, of fst] v
    by (simp add: queue_add_def demo_load queue_program_def f new_task_def demo_q_def go_eval)
  have "tasks_of NewQueue = []" by (simp add: go_eval)
  moreover have "json_string ''a.io'' = ''a.io''" by (simp add: json_string_ascii byte_def)
  moreover have "url_parse ''a.io'' = Inr (empty_url\<lparr> path := ''a.io'' \<rparr>)" "split_host_port ''a.io'' = Inl MissingPort"
    by (simp_all add: go_eval)
  ultimately show ?thesis
    using queued_tasks_in_scope [OF run [unfolded r]] r run by (auto simp: demo_load target_in_scope_def empty_url_def)
qed

text \<open>A host with a port is read as a URL whose scheme is the host, and is refused.\<close>

lemma host_and_port_refused:
  "queue_validator demo_cmd demo_cfg demo_prog ''a.io''" "\<not> queue_validator demo_cmd demo_cfg demo_prog ''a.io:443''"
  by (simp_all add: queue_validator_def has_scheme_def demo_prog_def NewEngine_def IsHostInScope_def IsURLInScope_def
      effective_schemes_def effective_ports_def demo_cfg_def as_global_def init_global_def zero_program_def go_eval)

end
