(* ===== verification/Orchestrator.thy ===== *)
theory Orchestrator
  imports Adapter
begin

text \<open>
  cmd/pentest/orchestrator.go: the loop of \<open>scopepilot run\<close> and its own reading of the queue
  file. The file is its text (\<open>None\<close> when it cannot be read), the result files are the listing
  of the directory. One tick spawns a worker per pending task and consumes the results; what
  spawning does to the file is an argument. Slicing a short identifier ends the process.
\<close>

section \<open>Tasks and the queue file\<close>

record HuntTask =
  HID :: string
  HTarget :: string
  HType :: string
  HPriority :: int
  HStatus :: string

definition hunt_json :: "HuntTask \<Rightarrow> json" where
  "hunt_json t = JObj [(''id'', JStr (HID t)), (''target'', JStr (HTarget t)), (''type'', JStr (HType t)),
     (''priority'', JNum (itoa (HPriority t))), (''status'', JStr (HStatus t))]"

definition hunt_of :: "text_env \<Rightarrow> json \<Rightarrow> HuntTask option" where
  "hunt_of E v =
    (case struct_members v of None \<Rightarrow> None
     | Some ms \<Rightarrow>
       (case (decode_field E ''id'' set_string [] ms, decode_field E ''target'' set_string [] ms,
              decode_field E ''type'' set_string [] ms, decode_field E ''priority'' set_int 0 ms,
              decode_field E ''status'' set_string [] ms) of
          (Some i, Some t, Some ty, Some p, Some st) \<Rightarrow>
            Some \<lparr> HID = i, HTarget = t, HType = ty, HPriority = p, HStatus = st \<rparr>
        | _ \<Rightarrow> None))"

definition hunt_line :: "text_env \<Rightarrow> string \<Rightarrow> HuntTask option" where
  "hunt_line E line = (case json_parse line of None \<Rightarrow> None | Some v \<Rightarrow> hunt_of E v)"

definition lf :: char where "lf = char_of (10::nat)"

definition qw_List :: "text_env \<Rightarrow> string \<Rightarrow> string option \<Rightarrow> HuntTask list option" where
  "qw_List E st file =
    (case file of None \<Rightarrow> None
     | Some text \<Rightarrow> Some (filter (\<lambda>t. st = [] \<or> HStatus t = st) (List.map_filter (hunt_line E) (output_lines text))))"

definition restatus :: "text_env \<Rightarrow> string \<Rightarrow> string \<Rightarrow> string \<Rightarrow> string" where
  "restatus E i st line =
    (case hunt_line E line of
       Some t \<Rightarrow> if HID t = i then json_print (hunt_json (t\<lparr> HStatus := st \<rparr>)) else line
     | None \<Rightarrow> line)"

text \<open>\<open>can_write\<close>: the file can be opened for writing.\<close>

definition updateStatus :: "text_env \<Rightarrow> bool \<Rightarrow> string \<Rightarrow> string \<Rightarrow> string option \<Rightarrow> string option" where
  "updateStatus E can_write i st file =
    (case file of None \<Rightarrow> None
     | Some text \<Rightarrow>
       if can_write then Some (join [lf] (map (restatus E i st) (output_lines text)) @ [lf]) else Some text)"

definition qw_Complete :: "text_env \<Rightarrow> bool \<Rightarrow> string \<Rightarrow> string option \<Rightarrow> string option" where
  "qw_Complete E w i = updateStatus E w i ''done''"

definition qw_Fail :: "text_env \<Rightarrow> bool \<Rightarrow> string \<Rightarrow> string option \<Rightarrow> string option" where
  "qw_Fail E w i = updateStatus E w i ''failed''"

definition qw_Add :: "bool \<Rightarrow> HuntTask \<Rightarrow> string option \<Rightarrow> string option" where
  "qw_Add can_write t file =
    (if \<not> can_write then file
     else Some ((case file of None \<Rightarrow> [] | Some text \<Rightarrow> text) @ json_print (hunt_json t) @ [lf]))"

section \<open>Results\<close>

record WorkerFinding =
  FType :: string
  FTarget :: string
  FSeverityText :: string
  FDetail :: string

record WorkerResult =
  WTaskID :: string
  WStatus :: string
  WFindings :: "WorkerFinding list"
  WArtifacts :: "string list"
  WDuration :: int
  WError :: string

definition finding_of :: "text_env \<Rightarrow> json \<Rightarrow> WorkerFinding option" where
  "finding_of E v =
    (case struct_members v of None \<Rightarrow> None
     | Some ms \<Rightarrow>
       (case (decode_field E ''type'' set_string [] ms, decode_field E ''target'' set_string [] ms,
              decode_field E ''severity'' set_string [] ms, decode_field E ''detail'' set_string [] ms) of
          (Some ty, Some t, Some sev, Some d) \<Rightarrow>
            Some \<lparr> FType = ty, FTarget = t, FSeverityText = sev, FDetail = d \<rparr>
        | _ \<Rightarrow> None))"

definition set_array :: "(json \<Rightarrow> 'a option) \<Rightarrow> json \<Rightarrow> 'a list \<Rightarrow> 'a list option" where
  "set_array f v x = (case v of JNull \<Rightarrow> Some [] | JArr els \<Rightarrow> those (map f els) | _ \<Rightarrow> None)"

definition result_of :: "text_env \<Rightarrow> json \<Rightarrow> WorkerResult option" where
  "result_of E v =
    (case struct_members v of None \<Rightarrow> None
     | Some ms \<Rightarrow>
       (case (decode_field E ''task_id'' set_string [] ms, decode_field E ''status'' set_string [] ms,
              decode_field E ''findings'' (set_array (finding_of E)) [] ms,
              decode_field E ''artifacts'' (set_array (\<lambda>v. set_string v [])) [] ms,
              decode_field E ''duration_sec'' set_int 0 ms, decode_field E ''error'' set_string [] ms) of
          (Some i, Some st, Some fs, Some as, Some d, Some e) \<Rightarrow>
            Some \<lparr> WTaskID = i, WStatus = st, WFindings = fs, WArtifacts = as, WDuration = d, WError = e \<rparr>
        | _ \<Rightarrow> None))"

text \<open>An entry of the directory; \<open>None\<close>: the file cannot be read.\<close>

record ResultFile =
  EName :: string
  EIsDir :: bool
  EText :: "string option"

definition read_result :: "text_env \<Rightarrow> ResultFile \<Rightarrow> WorkerResult option" where
  "read_result E ent =
    (if EIsDir ent \<or> \<not> has_suffix (EName ent) ''.json'' then None
     else (case EText ent of None \<Rightarrow> None
       | Some text \<Rightarrow> (case json_parse text of None \<Rightarrow> None | Some v \<Rightarrow> result_of E v)))"

section \<open>One tick\<close>

record OrchState =
  ofile :: "string option"
  oresults :: "ResultFile list"

text \<open>
  What the system answers: whether the queue file can be written, which result files can be
  removed, and the effect of \<open>runSpawn\<close> on the queue file; \<open>None\<close> when it ends the process.
\<close>

record orch_env =
  otext :: text_env
  writable :: bool
  removable :: "string \<Rightarrow> bool"
  spawn :: "string \<Rightarrow> string option \<Rightarrow> string option option"

datatype 'a run = Crash 'a | Going 'a

definition chained_task :: "string \<Rightarrow> WorkerFinding \<Rightarrow> HuntTask option" where
  "chained_task i f =
    (if FType f = ''endpoint'' \<or> FType f = ''subdomain''
     then Some \<lparr> HID = i @ ''-'' @ FTarget f, HTarget = FTarget f, HType = ''vuln'', HPriority = 2, HStatus = ''pending'' \<rparr>
     else None)"

definition chain_findings :: "orch_env \<Rightarrow> string \<Rightarrow> WorkerFinding list \<Rightarrow> string option \<Rightarrow> string option" where
  "chain_findings E i fs file =
    fold (\<lambda>f q. case chained_task i f of None \<Rightarrow> q | Some t \<Rightarrow> qw_Add (writable E) t q) fs file"

definition drop_result :: "orch_env \<Rightarrow> string \<Rightarrow> OrchState \<Rightarrow> OrchState" where
  "drop_result E n s =
    (if removable E n then s\<lparr> oresults := filter (\<lambda>e. EName e \<noteq> n) (oresults s) \<rparr> else s)"

definition consume :: "orch_env \<Rightarrow> ResultFile \<Rightarrow> OrchState \<Rightarrow> OrchState run" where
  "consume E ent s =
    (case read_result (otext E) ent of None \<Rightarrow> Going s
     | Some res \<Rightarrow>
       (let taskID = trim_suffix (EName ent) ''.json'' in
        if WStatus res = ''done''
        then (let s1 = s\<lparr> ofile := qw_Complete (otext E) (writable E) taskID (ofile s) \<rparr> in
          if length taskID < 8 then Crash s1
          else Going (drop_result E (EName ent)
            (s1\<lparr> ofile := chain_findings E taskID (WFindings res) (ofile s1) \<rparr>)))
        else if WStatus res = ''failed''
        then (let s1 = s\<lparr> ofile := qw_Fail (otext E) (writable E) taskID (ofile s) \<rparr> in
          if length taskID < 8 then Crash s1 else Going (drop_result E (EName ent) s1))
        else Going s))"

fun run_all :: "('b \<Rightarrow> 'a \<Rightarrow> 'a run) \<Rightarrow> 'b list \<Rightarrow> 'a \<Rightarrow> 'a run" where
  "run_all f [] s = Going s"
| "run_all f (x # xs) s = (case f x s of Crash s' \<Rightarrow> Crash s' | Going s' \<Rightarrow> run_all f xs s')"

definition spawn_task :: "orch_env \<Rightarrow> HuntTask \<Rightarrow> OrchState \<Rightarrow> OrchState run" where
  "spawn_task E t s =
    (if length (HID t) < 8 then Crash s
     else (case spawn E (HID t) (ofile s) of None \<Rightarrow> Crash s | Some q \<Rightarrow> Going (s\<lparr> ofile := q \<rparr>)))"

definition orchestrator_tick :: "orch_env \<Rightarrow> OrchState \<Rightarrow> OrchState run" where
  "orchestrator_tick E s =
    (case run_all (spawn_task E)
        (case qw_List (otext E) ''pending'' (ofile s) of None \<Rightarrow> [] | Some ts \<Rightarrow> ts) s of
       Crash s' \<Rightarrow> Crash s'
     | Going s' \<Rightarrow> run_all (consume E) (oresults s') s')"

section \<open>The file of a list of tasks\<close>

lemma nat_digits_zero: "hd (nat_digits n) = CHR ''0'' \<Longrightarrow> n = 0"
proof (induction n rule: nat_digits.induct)
  case (1 n)
  show ?case
  proof (cases "n < 10")
    case True
    with "1.prems" have "char_of (48 + n) = CHR ''0''" by (subst (asm) nat_digits.simps) simp
    then have "byte (char_of (48 + n)) = 48" by (simp add: byte_def)
    with True show ?thesis by simp
  next
    case False
    with "1.prems" have "hd (nat_digits (n div 10)) = CHR ''0''"
      by (subst (asm) nat_digits.simps) (simp add: hd_append)
    with "1.IH" False have "n div 10 = 0" by simp
    with False show ?thesis by simp
  qed
qed

lemma int_literal_itoa: "int_literal (itoa n)"
proof -
  have z: "nat_digits 0 = ''0''" by code_simp
  have ok: "hd (nat_digits k) = CHR ''0'' \<longrightarrow> nat_digits k = ''0''" for k
    using nat_digits_zero [of k] z by auto
  obtain c t where ct: "nat_digits (nat n) = c # t" by (cases "nat_digits (nat n)") auto
  with nat_digits_head [of "nat n"] have "c \<noteq> CHR ''-''" by simp
  with ct ok [of "nat n"] ok [of "nat (- n)"] nat_digits_digits [of "nat n"] nat_digits_digits [of "nat (- n)"]
  show ?thesis by (auto simp: int_literal_def itoa_def Let_def)
qed

text \<open>A task the printer and the parser agree on.\<close>

definition plain_task :: "HuntTask \<Rightarrow> bool" where
  "plain_task t = (is_ascii (HID t) \<and> is_ascii (HTarget t) \<and> is_ascii (HType t) \<and> is_ascii (HStatus t) \<and> in_int64 (HPriority t))"

definition task_text :: "HuntTask \<Rightarrow> string" where
  "task_text t = json_print (hunt_json t) @ [lf]"

definition queue_text :: "HuntTask list \<Rightarrow> string" where
  "queue_text ts = concat (map task_text ts)"

lemma task_names:
  "list_all is_lower_ascii [''id'', ''target'', ''type'', ''priority'', ''status'', ''task_id'', ''findings'',
     ''artifacts'', ''duration_sec'', ''error'', ''severity'', ''detail'', ''created_at'']"
  by code_simp

lemma hunt_json_plain: "plain_task t \<Longrightarrow> json_plain (hunt_json t)"
  using task_names by (simp add: plain_task_def hunt_json_def int_literal_itoa is_lower_ascii_def)

lemma hunt_json_object: "\<exists>ms. hunt_json t = JObj ms"
  by (simp add: hunt_json_def)

lemma hunt_read: "plain_task t \<Longrightarrow> hunt_of E (hunt_json t) = Some t"
  using task_names
  by (simp add: plain_task_def hunt_of_def hunt_json_def struct_members_def decode_lower set_string_def set_int_def atoi_itoa)

lemma hunt_line_print:
  assumes "plain_task t"
  shows "hunt_line E (json_print (hunt_json t)) = Some t"
proof -
  have "json_depth (hunt_json t) \<le> max_depth" by (simp add: hunt_json_def max_depth_def)
  from json_round_trip [OF hunt_json_plain [OF assms] this] show ?thesis
    by (simp add: hunt_line_def hunt_read assms)
qed

lemma split_on_snoc: "c \<notin> set w \<Longrightarrow> split_on c (w @ c # s) = w # split_on c s"
  by (induction w) (auto split: list.split)

lemma queue_lines:
  assumes "list_all plain_task ts"
  shows "output_lines (queue_text ts) = map (json_print \<circ> hunt_json) ts"
  using assms
proof (induction ts)
  case (Cons t ts)
  obtain ms where ms: "hunt_json t = JObj ms" using hunt_json_object by blast
  with Cons.prems have "json_plain (JObj ms)" using hunt_json_plain [of t] by simp
  from object_line [OF this] have l: "trim_space (json_print (hunt_json t)) = json_print (hunt_json t)"
    "json_print (hunt_json t) \<noteq> []" "lf \<notin> set (json_print (hunt_json t))"
    by (simp_all only: ms lf_def not_False_eq_True)
  have "split_on lf (queue_text (t # ts)) = json_print (hunt_json t) # split_on lf (queue_text ts)"
    using split_on_snoc [OF l(3)] by (simp add: queue_text_def task_text_def)
  with l(1,2) Cons show ?case by (simp add: output_lines_def lf_def)
qed (simp add: queue_text_def output_lines_def trim_space_def)

lemma join_lines: "ts \<noteq> [] \<Longrightarrow> join [lf] (map (json_print \<circ> hunt_json) ts) @ [lf] = queue_text ts"
proof (induction ts)
  case (Cons t ts)
  then show ?case by (cases ts) (simp_all add: queue_text_def task_text_def)
qed simp

definition set_status :: "string \<Rightarrow> string \<Rightarrow> HuntTask \<Rightarrow> HuntTask" where
  "set_status i st t = (if HID t = i then t\<lparr> HStatus := st \<rparr> else t)"

lemma restatus_print:
  "plain_task t \<Longrightarrow> restatus E i st (json_print (hunt_json t)) = json_print (hunt_json (set_status i st t))"
  by (simp add: restatus_def hunt_line_print set_status_def)

lemma updateStatus_tasks:
  assumes "list_all plain_task ts" "ts \<noteq> []"
  shows "updateStatus E True i st (Some (queue_text ts)) = Some (queue_text (map (set_status i st) ts))"
proof -
  have eq: "map (restatus E i st) (map (json_print \<circ> hunt_json) ts) = map (json_print \<circ> hunt_json) (map (set_status i st) ts)"
    using assms(1) by (auto simp: restatus_print list_all_iff)
  have "join [lf] (map (json_print \<circ> hunt_json) (map (set_status i st) ts)) @ [lf] = queue_text (map (set_status i st) ts)"
    using assms(2) by (intro join_lines) simp
  then show ?thesis
    by (simp only: updateStatus_def queue_lines [OF assms(1)] option.case eq if_True)
qed

lemma qw_Add_tasks: "qw_Add True t (Some (queue_text ts)) = Some (queue_text (ts @ [t]))"
  by (simp add: qw_Add_def queue_text_def task_text_def)

text \<open>The update of a file without tasks leaves a blank line, which no later reading sees.\<close>

lemma updateStatus_empty: "updateStatus E True i st (Some []) = Some [lf]"
  by (simp add: updateStatus_def output_lines_def trim_space_def)

lemma blank_line_lists:
  "qw_List E st (Some [lf]) = qw_List E st (Some [])"
  "qw_List E st (qw_Add True t (Some [lf])) = qw_List E st (qw_Add True t (Some []))"
  "qw_List E st (Some []) = Some []"
  by (simp_all add: qw_List_def qw_Add_def output_lines_def lf_def trim_space_def List.map_filter_simps)

lemma map_filter_tasks: "list_all plain_task ts \<Longrightarrow> List.map_filter (hunt_line E) (map (json_print \<circ> hunt_json) ts) = ts"
  by (induction ts) (auto simp: List.map_filter_simps hunt_line_print)

lemma qw_List_tasks:
  assumes "list_all plain_task ts"
  shows "qw_List E st (Some (queue_text ts)) = Some (filter (\<lambda>t. st = [] \<or> HStatus t = st) ts)"
  using assms by (simp add: qw_List_def queue_lines map_filter_tasks)

lemma chain_findings_tasks:
  "writable E \<Longrightarrow> chain_findings E i fs (Some (queue_text ts)) =
    Some (queue_text (ts @ List.map_filter (chained_task i) fs))"
proof (induction fs arbitrary: ts)
  case (Cons f fs)
  show ?case
  proof (cases "chained_task i f")
    case (Some t)
    have "chain_findings E i (f # fs) (Some (queue_text ts)) = chain_findings E i fs (Some (queue_text (ts @ [t])))"
      using Cons.prems Some by (simp add: chain_findings_def qw_Add_tasks)
    with Cons Some show ?thesis by (simp add: List.map_filter_simps)
  qed (use Cons in \<open>simp add: chain_findings_def List.map_filter_simps\<close>)
qed (simp add: chain_findings_def List.map_filter_simps)

text \<open>A status change prints the five fields only: what else a line held is gone.\<close>

lemma status_update_drops_fields:
  "restatus E ''a'' ''done'' (json_print (JObj [(''id'', JStr ''a''), (''created_at'', JStr ''x'')])) =
    json_print (hunt_json \<lparr> HID = ''a'', HTarget = [], HType = [], HPriority = 0, HStatus = ''done'' \<rparr>)"
proof -
  let ?v = "JObj [(''id'', JStr ''a''), (''created_at'', JStr ''x'')]"
  have "json_parse (json_print ?v) = Some ?v"
    by (rule json_round_trip) (simp_all add: byte_def max_depth_def)
  moreover have "hunt_of E ?v = Some \<lparr> HID = ''a'', HTarget = [], HType = [], HPriority = 0, HStatus = [] \<rparr>"
    using task_names by (simp add: hunt_of_def struct_members_def decode_lower set_string_def)
  ultimately show ?thesis by (simp add: restatus_def hunt_line_def)
qed

text \<open>An identifier of fewer than eight bytes ends the process, after the status has been written.\<close>

lemma short_id_crashes:
  assumes "read_result (otext E) ent = Some res" "WStatus res \<in> {''done'', ''failed''}"
    "length (trim_suffix (EName ent) ''.json'') < 8"
  shows "\<exists>s'. consume E ent s = Crash s'"
  using assms by (auto simp: consume_def)

section \<open>Properties\<close>

text \<open>
  C38: on the text of any list of plain tasks, the empty one included, the orchestrator's
  listing, status update and append are the list operations they stand for, and so is an
  append after an update; the update of a file without tasks writes one blank line, which no
  reading sees, an append to a missing file creates it, and no target is checked against the
  scope.
\<close>

theorem orchestrator_queue_refines:
  assumes "list_all plain_task ts" "plain_task t" "is_ascii st"
    and "us = map (\<lambda>t. if HID t = i then t\<lparr> HStatus := st \<rparr> else t) ts"
  shows "qw_List E ''pending'' (Some (queue_text ts)) = Some (filter (\<lambda>t. HStatus t = ''pending'') ts) \<and>
    updateStatus E True i st (Some (queue_text ts)) = Some (if ts = [] then [lf] else queue_text us) \<and>
    qw_List E [] (updateStatus E True i st (Some (queue_text ts))) = Some us \<and>
    qw_Add True t (Some (queue_text ts)) = Some (queue_text (ts @ [t])) \<and>
    qw_Add True t None = Some (queue_text [t]) \<and>
    qw_List E [] (qw_Add True t (updateStatus E True i st (Some (queue_text ts)))) = Some (us @ [t]) \<and>
    list_all plain_task us"
proof -
  have us: "us = map (set_status i st) ts" by (simp add: assms(4) set_status_def)
  have plain: "list_all plain_task us"
    using assms(1,3) unfolding us by (auto simp: list_all_iff set_status_def plain_task_def)
  have add: "qw_Add True t None = Some (queue_text [t])" by (simp add: qw_Add_def queue_text_def task_text_def)
  show ?thesis
  proof (cases "ts = []")
    case True
    have "queue_text [] = []" by (simp add: queue_text_def)
    with True us qw_Add_tasks [of t "[]"] qw_List_tasks [of "[t]" E] show ?thesis
      using assms(2) add by (simp add: updateStatus_empty blank_line_lists)
  next
    case False
    have "list_all plain_task (us @ [t])" using plain assms(2) by simp
    from updateStatus_tasks [OF assms(1) False, of E i st] this show ?thesis
      using False plain assms(1) add by (simp add: qw_Add_tasks qw_List_tasks us)
  qed
qed

theorem done_result_chained:
  assumes "read_result (otext E) ent = Some res" "WStatus res = ''done''"
    and "ofile s = Some (queue_text ts)" "list_all plain_task ts" "ts \<noteq> []"
    and "writable E" "removable E (EName ent)" "8 \<le> length (trim_suffix (EName ent) ''.json'')"
  shows "consume E ent s = Going (s\<lparr>
     ofile := Some (queue_text (map (set_status (trim_suffix (EName ent) ''.json'') ''done'') ts @
       List.map_filter (chained_task (trim_suffix (EName ent) ''.json'')) (WFindings res))),
     oresults := filter (\<lambda>e. EName e \<noteq> EName ent) (oresults s) \<rparr>)"
  using assms
  by (simp add: consume_def qw_Complete_def updateStatus_tasks chain_findings_tasks drop_result_def Let_def)

definition demo_task :: HuntTask where
  "demo_task = \<lparr> HID = ''12345678'', HTarget = ''a.io'', HType = ''recon'', HPriority = 1, HStatus = ''running'' \<rparr>"

definition demo_result :: json where
  "demo_result = JObj [(''status'', JStr ''done''),
     (''findings'', JArr [JObj [(''type'', JStr ''endpoint''), (''target'', JStr ''b.io'')]])]"

definition demo_entry :: ResultFile where
  "demo_entry = \<lparr> EName = ''12345678.json'', EIsDir = False, EText = Some (json_print demo_result) \<rparr>"

definition demo_orch :: orch_env where
  "demo_orch = \<lparr> otext = ascii_env, writable = True, removable = (\<lambda>_. True), spawn = (\<lambda>_ q. Some q) \<rparr>"

lemma demo_task_plain: "plain_task demo_task"
  by (simp add: plain_task_def demo_task_def in_int64_def max_int_def byte_def)

theorem orchestrator_queue_refines_witness:
  "qw_List ascii_env [] (qw_Add True demo_task
      (updateStatus ascii_env True ''12345678'' ''pending'' (Some (queue_text [demo_task]))))
    = Some [demo_task\<lparr> HStatus := ''pending'' \<rparr>, demo_task]"
proof -
  have p: "list_all plain_task [demo_task]" "is_ascii ''pending''" by (simp_all add: demo_task_plain byte_def)
  have "HID demo_task = ''12345678''" by (simp add: demo_task_def)
  then have m: "map (\<lambda>t. if HID t = ''12345678'' then t\<lparr> HStatus := ''pending'' \<rparr> else t) [demo_task] =
    [demo_task\<lparr> HStatus := ''pending'' \<rparr>]" by simp
  from orchestrator_queue_refines [OF p(1) demo_task_plain p(2) m [symmetric], of ascii_env] show ?thesis
    unfolding append.simps by blast
qed

theorem done_result_chained_witness:
  "\<exists>s'. consume demo_orch demo_entry \<lparr> ofile = Some (queue_text [demo_task]), oresults = [demo_entry] \<rparr> = Going s' \<and>
    oresults s' = [] \<and> ofile s' = Some (queue_text [demo_task\<lparr> HStatus := ''done'' \<rparr>,
      \<lparr> HID = ''12345678-b.io'', HTarget = ''b.io'', HType = ''vuln'', HPriority = 2, HStatus = ''pending'' \<rparr>])"
proof -
  let ?f = "\<lparr> FType = ''endpoint'', FTarget = ''b.io'', FSeverityText = [], FDetail = [] \<rparr>"
  let ?r = "\<lparr> WTaskID = [], WStatus = ''done'', WFindings = [?f], WArtifacts = [], WDuration = 0, WError = [] \<rparr>"
  have f: "finding_of E (JObj [(''type'', JStr ''endpoint''), (''target'', JStr ''b.io'')]) = Some ?f" for E
    using task_names by (simp add: finding_of_def struct_members_def decode_lower set_string_def)
  have "result_of ascii_env demo_result = Some ?r"
    using task_names f
    by (simp add: result_of_def demo_result_def struct_members_def decode_lower set_string_def set_array_def)
  moreover have "json_parse (json_print demo_result) = Some demo_result"
    unfolding demo_result_def by (rule json_round_trip) (simp_all add: byte_def max_depth_def)
  moreover have n: "trim_suffix ''12345678.json'' ''.json'' = ''12345678''" "has_suffix ''12345678.json'' ''.json''"
    by (simp_all add: go_eval)
  ultimately have res: "read_result (otext demo_orch) demo_entry = Some ?r"
    by (simp add: read_result_def demo_entry_def demo_orch_def)
  note chained = done_result_chained [OF res, of "\<lparr> ofile = Some (queue_text [demo_task]), oresults = [demo_entry] \<rparr>" "[demo_task]"]
  have tasks: "map (set_status ''12345678'' ''done'') [demo_task] = [demo_task\<lparr> HStatus := ''done'' \<rparr>]"
    "List.map_filter (chained_task ''12345678'') [?f] =
      [\<lparr> HID = ''12345678-b.io'', HTarget = ''b.io'', HType = ''vuln'', HPriority = 2, HStatus = ''pending'' \<rparr>]"
    by (simp_all add: set_status_def demo_task_def chained_task_def List.map_filter_simps)
  have "EName demo_entry = ''12345678.json''" "writable demo_orch" "removable demo_orch n" for n
    by (simp_all add: demo_entry_def demo_orch_def)
  with chained n tasks demo_task_plain show ?thesis by simp
qed

end
