(* ===== verification/Cli.thy ===== *)
theory Cli
  imports Pentest_Demo Orchestrator
begin

text \<open>
  The outermost layer of cmd/pentest: \<open>main\<close> with the flag package of the standard library, \<open>up\<close>,
  \<open>server --daemon\<close>, and the commands on running processes (\<open>stop\<close>, \<open>spawn list\<close>, \<open>spawn stop\<close>).
  \<open>main_dispatch\<close> says which command function an argument list calls and with which arguments; the
  functions themselves are those of Pentest, Setup and Orchestrator. Usage texts are left out.
\<close>

section \<open>The flag package\<close>

datatype flag_kind = StringFlag | BoolFlag | IntFlag

datatype flag_err =
    BadFlagSyntax string | HelpRequested | FlagNotDefined string | InvalidBool string string | InvalidInt string string | FlagNeedsArgument string

text \<open>What one argument is to the parser: the end of the flags, a flag with or without a value.\<close>

datatype flag_word = PlainArg | EndOfFlags | BadWord | FlagWord string "string option"

definition flag_name :: "string \<Rightarrow> flag_word" where
  "flag_name n =
    (case n of [] \<Rightarrow> BadWord
     | c # rest \<Rightarrow>
       if c = CHR ''-'' \<or> c = CHR ''='' then BadWord
       else (case cut rest (CHR ''='') of (a, b, ok) \<Rightarrow> FlagWord (c # a) (if ok then Some b else None)))"

fun read_word :: "string \<Rightarrow> flag_word" where
  "read_word (c # d # rest) =
    (if c \<noteq> CHR ''-'' then PlainArg
     else if d = CHR ''-'' then (if rest = [] then EndOfFlags else flag_name rest)
     else flag_name (d # rest))"
| "read_word s = PlainArg"

definition parse_bool :: "string \<Rightarrow> bool option" where
  "parse_bool s =
    (if s \<in> {''1'', ''t'', ''T'', ''true'', ''TRUE'', ''True''} then Some True
     else if s \<in> {''0'', ''f'', ''F'', ''false'', ''FALSE'', ''False''} then Some False else None)"

text \<open>
  \<open>strconv.ParseInt\<close> with base 0: an optional sign, a base prefix, digits, and underscores that
  stand between digits. \<open>last\<close> is the kind of the character before.
\<close>

datatype digit_state = AtStart | AfterDigit | AfterUnderscore | AfterOther

fun underscores_ok :: "bool \<Rightarrow> digit_state \<Rightarrow> string \<Rightarrow> bool" where
  "underscores_ok hex prev [] = (prev \<noteq> AfterUnderscore)"
| "underscores_ok hex prev (c # s) =
    (if is_digit c \<or> hex \<and> between 97 102 (lower_char c) then underscores_ok hex AfterDigit s
     else if c = CHR ''_'' then prev = AfterDigit \<and> underscores_ok hex AfterUnderscore s
     else prev \<noteq> AfterUnderscore \<and> underscores_ok hex AfterOther s)"

definition digit_of :: "char \<Rightarrow> nat" where
  "digit_of c = (if is_digit c then byte c - 48
     else if between 97 122 (lower_char c) then byte (lower_char c) - 87 else 255)"

definition base_prefix :: "string \<Rightarrow> (nat \<times> string) option" where
  "base_prefix s =
    (case s of a # b # rest \<Rightarrow>
       if a \<noteq> CHR ''0'' then None
       else if lower_char b = CHR ''b'' then Some (2, rest)
       else if lower_char b = CHR ''o'' then Some (8, rest)
       else if lower_char b = CHR ''x'' then Some (16, rest) else None
     | _ \<Rightarrow> None)"

definition parse_uint0 :: "string \<Rightarrow> nat option" where
  "parse_uint0 s =
    (let (b, d) = (case base_prefix s of
           Some (b, rest) \<Rightarrow> if rest \<noteq> [] then (b, rest) else (8, drop 1 s)
         | None \<Rightarrow> if has_prefix s ''0'' then (8, drop 1 s) else (10, s));
         ds = map digit_of (filter (\<lambda>c. c \<noteq> CHR ''_'') d);
         under = (case base_prefix s of Some (b, rest) \<Rightarrow> underscores_ok (b = 16) AfterDigit rest
           | None \<Rightarrow> underscores_ok False AtStart s)
     in if s \<noteq> [] \<and> list_all (\<lambda>n. n < b) ds \<and> (CHR ''_'' \<in> set d \<longrightarrow> under)
        then Some (foldl (\<lambda>n k. n * b + k) 0 ds) else None)"

definition parse_int0 :: "string \<Rightarrow> int option" where
  "parse_int0 s =
    (let (neg, d) = (case s of
           c # t \<Rightarrow> if c = CHR ''-'' then (True, t) else if c = CHR ''+'' then (False, t) else (False, s)
         | [] \<Rightarrow> (False, []))
     in case parse_uint0 d of None \<Rightarrow> None
        | Some n \<Rightarrow> (let v = (if neg then - int n else int n) in if in_int64 v then Some v else None))"

datatype flag_value = TextValue string | SwitchValue bool | NumberValue int

definition set_flag :: "flag_kind \<Rightarrow> string \<Rightarrow> string \<Rightarrow> (flag_err, flag_value) result" where
  "set_flag k n x =
    (case k of
       StringFlag \<Rightarrow> Inr (TextValue x)
     | BoolFlag \<Rightarrow> (case parse_bool x of None \<Rightarrow> Inl (InvalidBool n x) | Some b \<Rightarrow> Inr (SwitchValue b))
     | IntFlag \<Rightarrow> (case parse_int0 x of None \<Rightarrow> Inl (InvalidInt n x) | Some v \<Rightarrow> Inr (NumberValue v)))"

text \<open>The text a flag is set to, and the arguments after it: a switch does not take the next one.\<close>

definition flag_arg :: "flag_kind \<Rightarrow> string option \<Rightarrow> string list \<Rightarrow> (string \<times> string list) option" where
  "flag_arg k v args =
    (case v of Some x \<Rightarrow> Some (x, args)
     | None \<Rightarrow> if k = BoolFlag then Some (''true'', args)
               else (case args of [] \<Rightarrow> None | x # rest \<Rightarrow> Some (x, rest)))"

lemma flag_arg_set: "flag_arg k v args = Some (x, rest) \<Longrightarrow> length rest \<le> length args \<and> set rest \<subseteq> set args"
  by (auto simp: flag_arg_def split: option.splits if_splits list.splits)

text \<open>The values set, the last one first, and the arguments that are left.\<close>

function flag_parse ::
  "(string \<times> flag_kind) list \<Rightarrow> (string \<times> flag_value) list \<Rightarrow> string list
    \<Rightarrow> (flag_err, (string \<times> flag_value) list \<times> string list) result" where
  "flag_parse F vals [] = Inr (vals, [])"
| "flag_parse F vals (s # args) =
    (case read_word s of
       PlainArg \<Rightarrow> Inr (vals, s # args)
     | EndOfFlags \<Rightarrow> Inr (vals, args)
     | BadWord \<Rightarrow> Inl (BadFlagSyntax s)
     | FlagWord n v \<Rightarrow>
       (case map_of F n of
          None \<Rightarrow> Inl (if n = ''help'' \<or> n = ''h'' then HelpRequested else FlagNotDefined n)
        | Some k \<Rightarrow>
          (case flag_arg k v args of
             None \<Rightarrow> Inl (FlagNeedsArgument n)
           | Some (x, rest) \<Rightarrow>
             (case set_flag k n x of Inl e \<Rightarrow> Inl e | Inr y \<Rightarrow> flag_parse F ((n, y) # vals) rest))))"
  by pat_completeness auto

termination
  by (relation "measure (\<lambda>(_, _, args). length args)") (auto dest: flag_arg_set)

definition text_flag :: "(string \<times> flag_value) list \<Rightarrow> string \<Rightarrow> string \<Rightarrow> string" where
  "text_flag vals n dflt = (case map_of vals n of Some (TextValue s) \<Rightarrow> s | _ \<Rightarrow> dflt)"

definition bool_flag :: "(string \<times> flag_value) list \<Rightarrow> string \<Rightarrow> bool \<Rightarrow> bool" where
  "bool_flag vals n dflt = (case map_of vals n of Some (SwitchValue b) \<Rightarrow> b | _ \<Rightarrow> dflt)"

definition int_flag :: "(string \<times> flag_value) list \<Rightarrow> string \<Rightarrow> int \<Rightarrow> int" where
  "int_flag vals n dflt = (case map_of vals n of Some (NumberValue v) \<Rightarrow> v | _ \<Rightarrow> dflt)"

section \<open>main\<close>

text \<open>The call a command line leads to.\<close>

datatype invocation =
    RunServer string string string string string
  | Daemonize string
  | RunStop string
  | RunDiscover string string bool string string bool string
  | RunScan string string bool string string string string
  | RunHealth string string string
  | RunStatus string string
  | RunWatch string string
  | RunVPN string string
  | RunSpawn string string string string string string string string
  | RunQueue string "string list"
  | RunInit
  | RunConnect string string string
  | RunImport string
  | RunOrchestrator string string string string
  | RunUp string string string
  | RunCheck "string list" string
  | UsageShown
  | UsageError
  | FlagExit flag_err

record cli_env =
  base :: cmd_env
  temp_dir :: string

definition text_flags :: "string list \<Rightarrow> (string \<times> flag_kind) list" where
  "text_flags ns = map (\<lambda>n. (n, StringFlag)) ns"

definition with_flags ::
  "(string \<times> flag_kind) list \<Rightarrow> string list \<Rightarrow> ((string \<times> flag_value) list \<Rightarrow> string list \<Rightarrow> (fatal, invocation) result)
    \<Rightarrow> (fatal, invocation) result" where
  "with_flags F args f = (case flag_parse F [] args of Inl e \<Rightarrow> Inr (FlagExit e) | Inr (vals, rest) \<Rightarrow> f vals rest)"

text \<open>The commands that resolve a key before they run.\<close>

definition with_key ::
  "cli_env \<Rightarrow> (string \<times> flag_value) list \<Rightarrow> (string \<Rightarrow> invocation) \<Rightarrow> (fatal, invocation) result" where
  "with_key E vals f =
    (case apiKeyResolve (base E) (text_flag vals ''api-key'' []) (text_flag vals ''api-key-file'' []) of
       Inl e \<Rightarrow> Inl e | Inr k \<Rightarrow> Inr (f k))"

definition pid_default :: "cli_env \<Rightarrow> string" where
  "pid_default E = file_join [temp_dir E, ''scopepilot.pid'']"

definition local_mcp :: string where "local_mcp = ''http://127.0.0.1:9090''"
definition local_proxy :: string where "local_proxy = ''http://127.0.0.1:8443''"

definition server_flags :: "(string \<times> flag_kind) list" where
  "server_flags = (''daemon'', BoolFlag) #
     text_flags [''config'', ''listen-proxy'', ''listen-mcp'', ''api-key'', ''api-key-file'', ''pid-file'']"

definition main_server :: "cli_env \<Rightarrow> string list \<Rightarrow> (fatal, invocation) result" where
  "main_server E args = with_flags server_flags args (\<lambda>vals _.
     Inr (if bool_flag vals ''daemon'' False then Daemonize (text_flag vals ''pid-file'' (pid_default E))
       else RunServer (text_flag vals ''config'' (defaultConfigPath (base E)))
         (text_flag vals ''listen-proxy'' ''127.0.0.1:8443'') (text_flag vals ''listen-mcp'' ''127.0.0.1:9090'')
         (text_flag vals ''api-key'' []) (text_flag vals ''api-key-file'' [])))"

definition main_discover :: "cli_env \<Rightarrow> string list \<Rightarrow> (fatal, invocation) result" where
  "main_discover E args =
    with_flags ([(''dry-run'', BoolFlag), (''recon-no-proxy'', BoolFlag)] @
        text_flags [''config'', ''program'', ''mcp-url'', ''proxy-url'', ''api-key'', ''api-key-file'', ''llm'', ''llm-config''])
      args (\<lambda>vals _. with_key E vals (RunDiscover (text_flag vals ''config'' (defaultConfigPath (base E)))
        (text_flag vals ''program'' []) (bool_flag vals ''dry-run'' True) (text_flag vals ''mcp-url'' local_mcp)
        (text_flag vals ''proxy-url'' local_proxy) (bool_flag vals ''recon-no-proxy'' False)))"

definition main_scan :: "cli_env \<Rightarrow> string list \<Rightarrow> (fatal, invocation) result" where
  "main_scan E args =
    with_flags ((''dry-run'', BoolFlag) # text_flags [''config'', ''program'', ''mcp-url'', ''proxy-url'', ''templates'',
        ''api-key'', ''api-key-file'', ''llm'', ''llm-config''])
      args (\<lambda>vals _. with_key E vals (RunScan (text_flag vals ''config'' (defaultConfigPath (base E)))
        (text_flag vals ''program'' []) (bool_flag vals ''dry-run'' True) (text_flag vals ''mcp-url'' local_mcp)
        (text_flag vals ''proxy-url'' local_proxy) (text_flag vals ''templates'' [])))"

definition main_spawn :: "string list \<Rightarrow> (fatal, invocation) result" where
  "main_spawn args =
    with_flags (text_flags [''agent'', ''task-id'', ''proxy-url'', ''queue-path'', ''id'', ''llm'', ''llm-config'']) args
      (\<lambda>vals rest. Inr (RunSpawn (case rest of [] \<Rightarrow> [] | a # _ \<Rightarrow> a) (text_flag vals ''agent'' [])
        (text_flag vals ''task-id'' []) (text_flag vals ''proxy-url'' ''http://127.0.0.1:8445'')
        (text_flag vals ''queue-path'' ''tasks.jsonl'') (text_flag vals ''id'' [])
        (text_flag vals ''llm'' []) (text_flag vals ''llm-config'' [])))"

definition main_vpn :: "cli_env \<Rightarrow> string list \<Rightarrow> (fatal, invocation) result" where
  "main_vpn E args = with_flags (text_flags [''config'']) args (\<lambda>vals rest.
     Inr (RunVPN (text_flag vals ''config'' (defaultConfigPath (base E)))
       (case rest of [] \<Rightarrow> ''status'' | a # _ \<Rightarrow> if a = [] then ''status'' else a)))"

definition main_health :: "cli_env \<Rightarrow> string list \<Rightarrow> (fatal, invocation) result" where
  "main_health E args = with_flags (text_flags [''proxy-url'', ''mcp-url'']) args (\<lambda>vals _.
     Inr (RunHealth (text_flag vals ''proxy-url'' local_proxy) (text_flag vals ''mcp-url'' local_mcp)
       (getenv (tools (base E)) key_variable)))"

definition main_client :: "cli_env \<Rightarrow> (string \<Rightarrow> string \<Rightarrow> invocation) \<Rightarrow> string list \<Rightarrow> (fatal, invocation) result" where
  "main_client E f args = with_flags (text_flags [''mcp-url'', ''api-key'', ''api-key-file'']) args
     (\<lambda>vals _. with_key E vals (f (text_flag vals ''mcp-url'' local_mcp)))"

text \<open>
  The hand-written loops over the arguments: a known name takes the next argument, a name at
  the very end is ignored, anything else goes to the default branch.
\<close>

fun scan_args :: "string list \<Rightarrow> (string \<Rightarrow> string \<Rightarrow> 'a \<Rightarrow> 'a) \<Rightarrow> (string \<Rightarrow> 'a \<Rightarrow> 'a) \<Rightarrow> string list \<Rightarrow> 'a \<Rightarrow> 'a" where
  "scan_args N f g [] s = s"
| "scan_args N f g (a # rest) s =
    (if a \<in> set N then (case rest of [] \<Rightarrow> s | v # others \<Rightarrow> scan_args N f g others (f a v s))
     else scan_args N f g rest (g a s))"

text \<open>The values the loops of \<open>run\<close> and \<open>up\<close> collect: the last one given for a name.\<close>

definition named_args :: "string list \<Rightarrow> string list \<Rightarrow> (string \<times> string) list" where
  "named_args N args = scan_args N (\<lambda>k v s. (k, v) # s) (\<lambda>_ s. s) args []"

definition named :: "(string \<times> string) list \<Rightarrow> string \<Rightarrow> string \<Rightarrow> string" where
  "named vals k dflt = (case map_of vals k of Some v \<Rightarrow> v | None \<Rightarrow> dflt)"

definition main_up :: "string list \<Rightarrow> invocation" where
  "main_up args =
    (let vals = named_args [''--config'', ''--listen-proxy'', ''--listen-mcp''] args
     in RunUp (named vals ''--config'' ''scope.yaml'') (named vals ''--listen-proxy'' ''127.0.0.1:8443'')
          (named vals ''--listen-mcp'' ''127.0.0.1:9090''))"

definition main_run :: "string list \<Rightarrow> invocation" where
  "main_run args =
    (let vals = named_args [''--agent'', ''--proxy-url'', ''--llm'', ''--llm-config''] args
     in RunOrchestrator (named vals ''--agent'' ''codex'') (named vals ''--proxy-url'' ''http://127.0.0.1:8445'')
          (named vals ''--llm'' []) (named vals ''--llm-config'' []))"

definition main_connect :: "string list \<Rightarrow> invocation" where
  "main_connect args =
    (let vals = scan_args [''--llm'', ''--llm-config'', ''--file''] (\<lambda>k v s. (k, v) # s)
           (\<lambda>a s. if has_prefix a ''-'' then s else (''--file'', a) # s) args [];
         fname = named vals ''--file'' []
     in if fname = [] then UsageError else RunConnect (named vals ''--llm'' []) (named vals ''--llm-config'' []) fname)"

definition main_check :: "cli_env \<Rightarrow> string list \<Rightarrow> invocation" where
  "main_check E args =
    (let c = getenv (tools (base E)) ''SCOPEPILOT_CONFIG'';
         (cfgPath, targets) = scan_args [''--config''] (\<lambda>_ v (p, ts). (v, ts)) (\<lambda>a (p, ts). (p, ts @ [a])) args
           (if c \<noteq> [] then c else defaultConfigPath (base E), [])
     in if targets = [] then UsageError else RunCheck targets cfgPath)"

text \<open>\<open>main\<close> on the arguments after the program name.\<close>

definition main_dispatch :: "cli_env \<Rightarrow> string list \<Rightarrow> (fatal, invocation) result" where
  "main_dispatch E argv =
    (case argv of [] \<Rightarrow> Inr UsageError
     | name # args \<Rightarrow>
       if name = ''spawn'' then main_spawn args
       else if name = ''server'' then main_server E args
       else if name = ''stop'' then with_flags (text_flags [''pid-file'']) args
         (\<lambda>vals _. Inr (RunStop (text_flag vals ''pid-file'' (pid_default E))))
       else if name = ''discover'' then main_discover E args
       else if name = ''scan'' then main_scan E args
       else if name = ''health'' then main_health E args
       else if name = ''status'' then main_client E RunStatus args
       else if name = ''watch'' then main_client E RunWatch args
       else if name = ''vpn'' then main_vpn E args
       else if name = ''queue'' then Inr (case args of [] \<Rightarrow> UsageError | a # rest \<Rightarrow> RunQueue a rest)
       else if name = ''init'' then Inr RunInit
       else if name = ''connect'' then Inr (main_connect args)
       else if name = ''import'' then Inr (RunImport (case args of [] \<Rightarrow> ''-'' | a # _ \<Rightarrow> a))
       else if name = ''run'' then Inr (main_run args)
       else if name = ''up'' then Inr (main_up args)
       else if name = ''check'' then Inr (main_check E args)
       else if name \<in> {''help'', ''--help'', ''-h''} then Inr UsageShown
       else Inr UsageError)"

text \<open>The three actions of \<open>queue\<close>, each with flags of its own.\<close>

datatype queue_call =
    QueueAdd string string int string string string | QueueListing string string | QueueRetry string string
  | QueueFlagExit flag_err | UnknownQueueAction string

definition queue_flags ::
  "(string \<times> flag_kind) list \<Rightarrow> string list \<Rightarrow> ((string \<times> flag_value) list \<Rightarrow> queue_call) \<Rightarrow> queue_call" where
  "queue_flags F args f =
    (case flag_parse (F @ text_flags [''config'', ''program'', ''queue-path'']) [] args of
       Inl e \<Rightarrow> QueueFlagExit e | Inr (vals, _) \<Rightarrow> f vals)"

definition runQueue :: "cli_env \<Rightarrow> string \<Rightarrow> string list \<Rightarrow> queue_call" where
  "runQueue E action args =
    (if action = ''add''
     then queue_flags [(''target'', StringFlag), (''type'', StringFlag), (''priority'', IntFlag)] args (\<lambda>vals.
       QueueAdd (text_flag vals ''target'' []) (text_flag vals ''type'' []) (int_flag vals ''priority'' 1)
         (text_flag vals ''config'' (defaultConfigPath (base E))) (text_flag vals ''program'' [])
         (text_flag vals ''queue-path'' ''tasks.jsonl''))
     else if action = ''list''
     then queue_flags [(''status'', StringFlag)] args (\<lambda>vals.
       QueueListing (text_flag vals ''status'' []) (text_flag vals ''queue-path'' ''tasks.jsonl''))
     else if action = ''retry''
     then queue_flags [(''id'', StringFlag)] args (\<lambda>vals.
       QueueRetry (text_flag vals ''id'' []) (text_flag vals ''queue-path'' ''tasks.jsonl''))
     else UnknownQueueAction action)"

section \<open>up and server --daemon\<close>

text \<open>
  What the operating system answers: \<open>launch\<close> starts a process, \<open>reach n\<close> is the HTTP status of
  the \<open>n\<close>th health request (\<open>None\<close>: no answer).
\<close>

record launch_env =
  executable :: "string option"
  real_path :: "string \<Rightarrow> string option"
  random_bytes :: "nat \<Rightarrow> nat list"
  launch :: "command \<Rightarrow> (string, int) result"
  reach :: "nat \<Rightarrow> int option"
  pid_saved :: bool

definition hex_digit :: "nat \<Rightarrow> char" where
  "hex_digit n = ''0123456789abcdef'' ! n"

definition randHex :: "nat \<Rightarrow> nat list \<Rightarrow> string" where
  "randHex len bytes = take len (concat (map (\<lambda>b. [hex_digit (b div 16), hex_digit (b mod 16)]) bytes))"

lemma randHex_length: "length bytes = (len + 1) div 2 \<Longrightarrow> length (randHex len bytes) = len"
proof -
  have "length (concat (map (\<lambda>b. [hex_digit (b div 16), hex_digit (b mod 16)]) bytes)) = 2 * length bytes"
    by (induction bytes) simp_all
  then show "length bytes = (len + 1) div 2 \<Longrightarrow> length (randHex len bytes) = len" by (simp add: randHex_def)
qed

definition up_args :: "cli_env \<Rightarrow> string \<Rightarrow> string \<Rightarrow> string \<Rightarrow> string list" where
  "up_args E cfgPath listenProxy listenMCP =
    [''server'', ''--daemon'', ''--config'', cfgPath, ''--listen-proxy'', listenProxy, ''--listen-mcp'', listenMCP,
     ''--pid-file'', pid_default E]"

datatype up_result = NoExecutable | StartFailed string | Up command int bool

definition healthy :: "launch_env \<Rightarrow> bool" where
  "healthy L = list_ex (\<lambda>i. case reach L i of None \<Rightarrow> False | Some code \<Rightarrow> code < 500) [0..<15]"

definition runUp :: "cli_env \<Rightarrow> launch_env \<Rightarrow> string \<Rightarrow> string \<Rightarrow> string \<Rightarrow> up_result" where
  "runUp E L cfgPath lp lm =
    (let listenProxy = or_default lp ''127.0.0.1:8443'';
         listenMCP = or_default lm ''127.0.0.1:9090'';
         inherited_env = environ (tools (base E));
         env = (if getenv (tools (base E)) key_variable = [] then setEnv inherited_env key_variable (randHex 16 (random_bytes L 8))
                else inherited_env)
     in case executable L of None \<Rightarrow> NoExecutable
        | Some exe \<Rightarrow>
          (let bin = (case real_path L exe of Some p \<Rightarrow> p | None \<Rightarrow> exe);
               c = Command bin (up_args E cfgPath listenProxy listenMCP) env
           in case launch L c of Inl e \<Rightarrow> StartFailed e | Inr n \<Rightarrow> Up c n (healthy L)))"

definition daemon_word :: "string \<Rightarrow> bool" where
  "daemon_word a = (a \<in> {''--daemon'', ''-daemon''} \<or> has_prefix a ''--daemon='' \<or> has_prefix a ''-daemon='')"

text \<open>The arguments of the detached child, from those of this process.\<close>

definition child_args :: "string list \<Rightarrow> string list" where
  "child_args argv = filter (\<lambda>a. \<not> daemon_word a) argv"

datatype daemon_result = NoExecutablePath | NoRealPath | ChildFailed string | Detached command int "(string \<times> string) option"

definition daemonize :: "cli_env \<Rightarrow> launch_env \<Rightarrow> string list \<Rightarrow> string \<Rightarrow> daemon_result" where
  "daemonize E L argv pidFile =
    (case executable L of None \<Rightarrow> NoExecutablePath
     | Some exe \<Rightarrow>
       (case real_path L exe of None \<Rightarrow> NoRealPath
        | Some bin \<Rightarrow>
          (let c = Command bin (child_args argv) (environ (tools (base E))) in
           case launch L c of Inl e \<Rightarrow> ChildFailed e
           | Inr n \<Rightarrow> Detached c n
               (if pidFile \<noteq> [] \<and> pid_saved L then Some (pidFile, itoa n @ [char_of (10::nat)]) else None))))"

section \<open>Running processes\<close>

text \<open>
  \<open>alive\<close> is whether the process takes signal 0, \<open>ps\<close> the output of ps for it. The files of the
  workers directory are those of the spawn state; a removal that fails leaves the file.
\<close>

record process_env =
  ptext :: text_env
  alive :: "int \<Rightarrow> bool"
  ps :: "int \<Rightarrow> string option"
  signals :: "int \<Rightarrow> string option"
  pid_readable :: "string \<Rightarrow> bool"
  removable :: "string \<Rightarrow> bool"

definition remove_pid :: "process_env \<Rightarrow> string \<Rightarrow> (string \<times> string) list \<Rightarrow> (string \<times> string) list" where
  "remove_pid P f fs = (if removable P f then AList.delete f fs else fs)"

definition pid_of :: "string \<Rightarrow> int option" where
  "pid_of text = atoi (trim_space text)"

text \<open>One directory entry of \<open>spawn list\<close>: the running workers so far and the files.\<close>

definition list_entry ::
  "process_env \<Rightarrow> string \<times> string \<Rightarrow> (string \<times> int) list \<times> (string \<times> string) list
    \<Rightarrow> (string \<times> int) list \<times> (string \<times> string) list" where
  "list_entry P e acc =
    (let (running, fs) = acc; (f, text) = e in
     if \<not> has_suffix f ''.pid'' \<or> \<not> pid_readable P f then acc
     else (case pid_of text of None \<Rightarrow> acc
       | Some n \<Rightarrow> if alive P n then (running @ [(trim_suffix f ''.pid'', n)], fs) else (running, remove_pid P f fs)))"

definition spawn_list :: "process_env \<Rightarrow> (string \<times> string) list \<Rightarrow> (string \<times> int) list \<times> (string \<times> string) list" where
  "spawn_list P fs = fold (list_entry P) fs ([], fs)"

datatype stop_result =
    StopIDRequired | StopInvalidID | WorkerNotFound | PidUnreadable | BadPid | NotAWorker | Stopped int

text \<open>The result, the pid files, and the process that was killed.\<close>

definition spawn_stop ::
  "process_env \<Rightarrow> string \<Rightarrow> (string \<times> string) list \<Rightarrow> stop_result \<times> (string \<times> string) list \<times> int option" where
  "spawn_stop P stopID fs =
    (if stopID = [] then (StopIDRequired, fs, None)
     else if \<not> isValidID stopID then (StopInvalidID, fs, None)
     else (let f = stopID @ ''.pid'' in
       case map_of fs f of None \<Rightarrow> (WorkerNotFound, fs, None)
       | Some text \<Rightarrow>
         if \<not> pid_readable P f then (PidUnreadable, fs, None)
         else (case pid_of text of None \<Rightarrow> (BadPid, fs, None)
           | Some n \<Rightarrow>
             if isWorkerProcess (ptext P) (ps P n) = Some False then (NotAWorker, remove_pid P f fs, None)
             else (Stopped n, remove_pid P f fs, Some n))))"

text \<open>\<open>spawn\<close> by its action.\<close>

datatype spawn_outcome =
    WorkersListed "(string \<times> int) list" | StopOutcome stop_result "int option" | SpawnOutcome spawn_result
  | UnknownSpawnAction string

definition spawn_command ::
  "spawn_env \<Rightarrow> process_env \<Rightarrow> LLMConfig \<Rightarrow> string \<Rightarrow> string \<Rightarrow> string \<Rightarrow> string \<Rightarrow> string \<Rightarrow> SpawnState
    \<Rightarrow> spawn_outcome \<times> SpawnState" where
  "spawn_command S P llm action agent i proxyURL stopID s =
    (if home S = None then (SpawnOutcome NoHome, s)
     else if \<not> workers_dir_ok S then (SpawnOutcome WorkersDir, s)
     else if action = ''list''
     then (case spawn_list P (pid_files s) of (running, fs) \<Rightarrow> (WorkersListed running, s\<lparr> pid_files := fs \<rparr>))
     else if action = ''stop''
     then (case spawn_stop P stopID (pid_files s) of (r, fs, killed) \<Rightarrow> (StopOutcome r killed, s\<lparr> pid_files := fs \<rparr>))
     else if action = [] then map_prod SpawnOutcome id (runSpawn S llm agent i proxyURL s)
     else (UnknownSpawnAction action, s))"

datatype server_stop = PidFileUnreadable | PidInvalid | SignalFailed string | SignalSent int

text \<open>\<open>stop\<close>: the pid file's process gets SIGTERM, then the file is removed.\<close>

definition runStop :: "process_env \<Rightarrow> string \<Rightarrow> (string \<times> string) list \<Rightarrow> server_stop \<times> (string \<times> string) list" where
  "runStop P pidFile fs =
    (case map_of fs pidFile of None \<Rightarrow> (PidFileUnreadable, fs)
     | Some text \<Rightarrow>
       if \<not> pid_readable P pidFile then (PidFileUnreadable, fs)
       else (case pid_of text of None \<Rightarrow> (PidInvalid, fs)
         | Some n \<Rightarrow> (case signals P n of Some e \<Rightarrow> (SignalFailed e, fs)
           | None \<Rightarrow> (SignalSent n, remove_pid P pidFile fs))))"

text \<open>\<open>status\<close>: whether the server answers a check.\<close>

definition runStatus :: "cmd_env \<Rightarrow> string \<Rightarrow> string \<Rightarrow> nat \<Rightarrow> client_err option" where
  "runStatus E mcpURL given n =
    (case Client_CheckURL (tools E) (NewMCPClientWithAPIKey mcpURL [] (apiKeyOrEnv E given)) n
        ''https://status-check.example.com/'' of Inl e \<Rightarrow> Some e | Inr _ \<Rightarrow> None)"

section \<open>The daemon\<close>

lemma cut_parts: "cut s c = (a, b, ok) \<Longrightarrow> s = (if ok then a @ c # b else a)"
  by (auto simp: cut_def dest!: index_byte_Some intro: id_take_nth_drop split: option.splits)

lemma daemon_flag_name:
  assumes "flag_name n = FlagWord ''daemon'' v"
  shows "n = ''daemon'' \<or> has_prefix n ''daemon=''"
proof (cases n)
  case (Cons c r)
  obtain a b ok where "cut r (CHR ''='') = (a, b, ok)" by (metis prod_cases3)
  with assms cut_parts [OF this] show ?thesis
    by (auto simp: flag_name_def Cons has_prefix_iff split: if_splits)
qed (use assms in \<open>simp add: flag_name_def\<close>)

lemma daemon_name: "read_word s = FlagWord ''daemon'' v \<Longrightarrow> daemon_word s"
  by (cases s rule: read_word.cases)
    (auto simp: daemon_word_def has_prefix_iff dest!: daemon_flag_name split: if_splits)

lemma parse_without_daemon:
  "flag_parse F vals args = Inr (vals', rest) \<Longrightarrow> list_all (\<lambda>a. \<not> daemon_word a) args \<Longrightarrow>
    map_of vals' ''daemon'' = map_of vals ''daemon''"
proof (induction F vals args arbitrary: vals' rest rule: flag_parse.induct)
  case (2 F vals s args)
  show ?case
  proof (cases "read_word s")
    case w: (FlagWord n v)
    have n: "n \<noteq> ''daemon''" using w 2(3) daemon_name by auto
    obtain k x others y where p: "map_of F n = Some k" "flag_arg k v args = Some (x, others)" "set_flag k n x = Inr y"
        "flag_parse F ((n, y) # vals) others = Inr (vals', rest)"
      using 2(2) w by (auto split: option.splits sum.splits)
    have "list_all (\<lambda>a. \<not> daemon_word a) others"
      using flag_arg_set [OF p(2)] 2(3) by (auto simp: list_all_iff)
    from 2(1) [OF w p(1,2) refl p(3,4) this] n show ?thesis by simp
  qed (use 2(2) in simp_all)
qed simp

lemma server_without_daemon:
  assumes "list_all (\<lambda>a. \<not> daemon_word a) args"
  shows "main_server E args \<noteq> Inr (Daemonize p)"
proof (cases "flag_parse server_flags [] args")
  case (Inr r)
  then show ?thesis using parse_without_daemon [OF _ assms, of server_flags "[]"]
    by (cases r) (simp add: main_server_def with_flags_def bool_flag_def)
qed (simp add: main_server_def with_flags_def)

lemma with_flags_other:
  "(\<And>vals rest. f vals rest \<noteq> Inr (Daemonize p)) \<Longrightarrow> with_flags F args f \<noteq> Inr (Daemonize p)"
  by (simp add: with_flags_def split: sum.split prod.split)

lemma with_key_other: "(\<And>k. f k \<noteq> Daemonize p) \<Longrightarrow> with_key E vals f \<noteq> Inr (Daemonize p)"
  by (simp add: with_key_def split: sum.split)

lemma other_commands:
  "main_spawn args \<noteq> Inr (Daemonize p)" "main_discover E args \<noteq> Inr (Daemonize p)" "main_scan E args \<noteq> Inr (Daemonize p)"
  "main_health E args \<noteq> Inr (Daemonize p)" "main_vpn E args \<noteq> Inr (Daemonize p)" "main_connect args \<noteq> Daemonize p"
  "main_run args \<noteq> Daemonize p" "main_up args \<noteq> Daemonize p" "main_check E args \<noteq> Daemonize p"
  "(\<And>u k. f u k \<noteq> Daemonize p) \<Longrightarrow> main_client E f args \<noteq> Inr (Daemonize p)"
  by (simp_all add: main_spawn_def main_discover_def main_scan_def main_health_def main_vpn_def main_client_def
      main_connect_def main_run_def main_up_def main_check_def Let_def with_flags_other with_key_other split: prod.split)

text \<open>
  C35: whatever the arguments, the detached child does not read its own arguments as a
  request to daemonize again.
\<close>

theorem daemon_child_never_forks: "main_dispatch E (child_args argv) \<noteq> Inr (Daemonize p)"
proof (cases "child_args argv")
  case (Cons name args)
  then have "list_all (\<lambda>a. \<not> daemon_word a) args"
    by (metis (no_types, lifting) child_args_def list.set_intros(2) list_all_iff mem_Collect_eq set_filter)
  from server_without_daemon [OF this] other_commands with_flags_other
  show ?thesis by (simp add: Cons main_dispatch_def split: list.split)
qed (simp add: main_dispatch_def)

text \<open>
  C34: the command that up launches is read by main as a request to daemonize, and the
  arguments of the detached child are read as the server command with the configuration and
  the two addresses given to up; when no key is set, a random one is in its environment.
\<close>

theorem up_starts_the_server:
  assumes "runUp E L cfgPath lp lm = Up c n h"
    and "\<not> daemon_word cfgPath" "\<not> daemon_word lp" "\<not> daemon_word lm" "\<not> daemon_word (pid_default E)"
  shows "main_dispatch E (command_args c) = Inr (Daemonize (pid_default E)) \<and>
    main_dispatch E (child_args (command_args c)) =
      Inr (RunServer cfgPath (or_default lp ''127.0.0.1:8443'') (or_default lm ''127.0.0.1:9090'') [] []) \<and>
    (getenv (tools (base E)) key_variable = [] \<longrightarrow>
      (key_variable @ ''='' @ randHex 16 (random_bytes L 8)) \<in> set (command_env c))"
proof -
  let ?lp = "or_default lp ''127.0.0.1:8443''" and ?lm = "or_default lm ''127.0.0.1:9090''"
  have c: "command_args c = up_args E cfgPath ?lp ?lm"
    using assms(1) by (auto simp: runUp_def Let_def split: option.splits sum.splits)
  have k: "getenv (tools (base E)) key_variable = [] \<longrightarrow>
      (key_variable @ ''='' @ randHex 16 (random_bytes L 8)) \<in> set (command_env c)"
    using assms(1) by (auto simp: runUp_def Let_def setEnv_sets [simplified] split: option.splits sum.splits)
  have d: "\<not> daemon_word ?lp" "\<not> daemon_word ?lm"
    using assms(3,4) by (auto simp: or_default_def daemon_word_def)
  have w: "daemon_word ''--daemon''" "\<not> daemon_word ''server''" "\<not> daemon_word ''--config''" "\<not> daemon_word ''--listen-proxy''"
    "\<not> daemon_word ''--listen-mcp''" "\<not> daemon_word ''--pid-file''"
    by (simp_all add: daemon_word_def)
  show ?thesis
    using assms d w k by (simp add: c up_args_def child_args_def main_dispatch_def main_server_def with_flags_def flag_name_def
        cut_def server_flags_def text_flags_def text_flag_def bool_flag_def set_flag_def flag_arg_def parse_bool_def)
qed

text \<open>The flag package stops at the first plain argument: the flags after an action are never read.\<close>

lemma flags_stop_at_action: "read_word a = PlainArg \<Longrightarrow> flag_parse F vals (a # rest) = Inr (vals, a # rest)"
  by simp

lemma spawn_stop_ignores_its_id:
  "main_dispatch E (''spawn'' # ''stop'' # rest) =
    Inr (RunSpawn ''stop'' [] [] ''http://127.0.0.1:8445'' ''tasks.jsonl'' [] [] [])"
  "fst (spawn_stop P [] fs) = StopIDRequired"
  by (simp_all add: main_dispatch_def main_spawn_def with_flags_def flags_stop_at_action text_flag_def spawn_stop_def)

lemma vpn_ignores_its_config:
  "main_dispatch E (''vpn'' # ''start'' # rest) = Inr (RunVPN (defaultConfigPath (base E)) ''start'')"
  by (simp add: main_dispatch_def main_vpn_def with_flags_def flags_stop_at_action text_flag_def)

text \<open>A process ps cannot be asked about is killed all the same.\<close>

lemma unverified_process_killed:
  "isValidID i \<Longrightarrow> map_of fs (i @ ''.pid'') = Some t \<Longrightarrow> pid_readable P (i @ ''.pid'') \<Longrightarrow> pid_of t = Some n \<Longrightarrow>
    ps P n = None \<Longrightarrow> spawn_stop P i fs = (Stopped n, remove_pid P (i @ ''.pid'') fs, Some n)"
  by (auto simp: spawn_stop_def isWorkerProcess_def isValidID_def Let_def)

section \<open>The workers listed\<close>

definition entry_pid :: "process_env \<Rightarrow> string \<times> string \<Rightarrow> int option" where
  "entry_pid P e = (if has_suffix (fst e) ''.pid'' \<and> pid_readable P (fst e) then pid_of (snd e) else None)"

definition running_worker :: "process_env \<Rightarrow> string \<times> string \<Rightarrow> (string \<times> int) option" where
  "running_worker P e =
    (case entry_pid P e of None \<Rightarrow> None | Some n \<Rightarrow> if alive P n then Some (trim_suffix (fst e) ''.pid'', n) else None)"

definition stale_file :: "process_env \<Rightarrow> string \<times> string \<Rightarrow> bool" where
  "stale_file P e = (case entry_pid P e of None \<Rightarrow> False | Some n \<Rightarrow> \<not> alive P n \<and> removable P (fst e))"

lemma list_entries:
  "fst (fold (list_entry P) es (running, fs)) = running @ List.map_filter (running_worker P) es \<and>
   map_of (snd (fold (list_entry P) es (running, fs))) f =
     (if list_ex (\<lambda>e. fst e = f \<and> stale_file P e) es then None else map_of fs f)"
proof (induction es arbitrary: running fs)
  case (Cons e es)
  obtain g t where e: "e = (g, t)" by fastforce
  show ?case
    using Cons.IH
    by (auto simp: e list_entry_def running_worker_def stale_file_def entry_pid_def remove_pid_def List.map_filter_simps
        delete_conv split: option.splits)
qed (simp add: List.map_filter_simps)

theorem spawn_list_exact:
  "fst (spawn_list P fs) = List.map_filter (running_worker P) fs \<and>
   map_of (snd (spawn_list P fs)) f = (if list_ex (\<lambda>e. fst e = f \<and> stale_file P e) fs then None else map_of fs f)"
  using list_entries [of P fs "[]" fs f] by (simp add: spawn_list_def)

section \<open>check and the running server\<close>

lemma check_covers:
  assumes "runServer E cfgPath lp lm given file = Inr s0" "loadConfig E cfgPath = Inr cfg"
    and "list_all (op_in E0 A) ops" "s = fold sys_apply ops s0" "tenv E0 = atext (tools E)"
    and "effective_schemes cfg (served_program cfg) \<noteq> []" "effective_ports cfg (served_program cfg) \<noteq> []"
    and "Allowed (fst (CheckURL E0 t (prx s)))"
  shows "\<exists>d. runCheck E [t] cfgPath = Inr ([(t, d)], True) \<and> InScope d"
proof -
  let ?prog = "served_program cfg"
  from runServer_state [OF assms(1)] assms(2) have r: "prx s0 = boot_proxy E cfg lp" "commands (tool_runs s0) = []"
    and st: "\<exists>n. mstore s0 = NewMemoryStore n" by auto
  then have "sys_inv E0 (server_proxy_config cfg lp) A s0"
    using boot_proxy_inv by (auto simp: sys_inv_def)
  from sys_inv_run [OF this assms(3)]
  have inv: "engine (prx s) = engine (NewProxy (server_proxy_config cfg lp) None)"
    "pconf (prx s) = pconf (NewProxy (server_proxy_config cfg lp) None)"
    by (auto simp: assms(4) sys_inv_def gw_inv_def)
  then have c: "engine (prx s) = NewEngine (PID ?prog) (PScope ?prog)"
    "PSchemes (pconf (prx s)) = effective_schemes cfg ?prog" "PPorts (pconf (prx s)) = effective_ports cfg ?prog"
    "TestingEnabled (pconf (prx s)) = ActiveTestingEnabled ?prog"
    using assms(6,7) by (simp_all add: NewProxy_def server_proxy_config_def Let_def)
  from assms(8) [unfolded CheckURL_Allowed] obtain u where
    u: "url_parse t = Inr u" "TestingEnabled (pconf (prx s))" "ValidateScheme (prx s) (scheme u)"
      "InScope (IsURLInScope (tenv E0) (engine (prx s)) t (PSchemes (pconf (prx s))) (PPorts (pconf (prx s))))"
    by blast
  obtain ps where p: "Programs cfg = ?prog # ps"
    using u(2) c(4) by (cases "Programs cfg") (simp_all add: served_program_def zero_program_def)
  have "Config_Validate cfg = None"
    using assms(2) by (auto simp: loadConfig_def split: sum.splits option.splits)
  then have "valid_global (Global cfg) \<and> valid_program ?prog"
    by (simp add: Config_Validate_None p)
  then have "http_schemes (effective_schemes cfg ?prog)"
    by (simp add: effective_schemes_def valid_global_def valid_program_def)
  then have "scheme u \<noteq> []"
    using u(3) assms(6) by (auto simp: ValidateScheme_def c http_schemes_def)
  have "check_target E cfg ?prog t =
      IsURLInScope (tenv E0) (engine (prx s)) t (PSchemes (pconf (prx s))) (PPorts (pconf (prx s)))"
    using u(1) \<open>scheme u \<noteq> []\<close> by (simp add: check_target_def has_scheme_def c assms(5) Let_def)
  then show ?thesis using u(4) assms(2) p by (simp add: runCheck_def Let_def)
qed

text \<open>
  C33: whatever URL a running server allows, in any state it reaches and whether its audit
  database opened or not, check reports as in scope with exit code 0, when the program or
  the defaults of the configuration name schemes and ports and both processes use the same
  text tables (IDNA and case folding).
\<close>

theorem check_covers_server:
  assumes "runServer E cfgPath lp lm given file = Inr s0" "loadConfig E cfgPath = Inr cfg"
    and "list_all (op_in E0 A) ops" "s = fold sys_apply ops s0" "tenv E0 = atext (tools E)"
    and "effective_schemes cfg (served_program cfg) \<noteq> []" "effective_ports cfg (served_program cfg) \<noteq> []"
    and "Allowed (fst (CheckURL E0 t (prx s)))"
  shows "\<exists>d. runCheck E [t] cfgPath = Inr ([(t, d)], True) \<and> InScope d"
  by (rule check_covers [OF assms])

text \<open>The proxy falls back to https on port 443 where both lists are empty; \<open>check\<close> does not.\<close>

lemma check_has_no_fallback:
  assumes "effective_schemes cfg prog = []" "has_scheme t"
  shows "\<not> InScope (check_target E cfg prog t)"
  using assms by (simp add: check_target_def has_scheme_def IsURLInScope_def Let_def split: sum.splits)

section \<open>Witnesses\<close>

definition demo_cli :: cli_env where
  "demo_cli = \<lparr> base = demo_cmd, temp_dir = ''/tmp'' \<rparr>"

definition demo_launch :: launch_env where
  "demo_launch = \<lparr> executable = Some ''/bin/scopepilot'', real_path = Some, random_bytes = (\<lambda>n. replicate n 171), launch = (\<lambda>_. Inr 7),
     reach = (\<lambda>_. Some 200), pid_saved = True \<rparr>"

theorem up_starts_the_server_witness:
  "\<exists>c. runUp demo_cli demo_launch ''scope.yaml'' [] [] = Up c 7 True \<and>
    main_dispatch demo_cli (child_args (command_args c)) =
      Inr (RunServer ''scope.yaml'' ''127.0.0.1:8443'' ''127.0.0.1:9090'' [] [])"
proof -
  obtain c where run: "runUp demo_cli demo_launch ''scope.yaml'' [] [] = Up c 7 True"
    by (simp add: runUp_def demo_launch_def healthy_def Let_def upt_rec)
  have "\<not> daemon_word ''scope.yaml''" "\<not> daemon_word []" "\<not> daemon_word (pid_default demo_cli)"
    by (simp_all add: daemon_word_def pid_default_def demo_cli_def go_eval)
  from up_starts_the_server [OF run this(1,2,2,3)] run show ?thesis by (auto simp: or_default_def)
qed

lemma demo_boot:
  "engine (boot_proxy demo_cmd demo_cfg l) = NewEngine ''acme'' (PScope demo_prog)"
  "PSchemes (pconf (boot_proxy demo_cmd demo_cfg l)) = [''https'']" "PPorts (pconf (boot_proxy demo_cmd demo_cfg l)) = [443]"
  "TestingEnabled (pconf (boot_proxy demo_cmd demo_cfg l))" "Exclude (ScopeCfg (pconf (boot_proxy demo_cmd demo_cfg l))) = []"
  "\<not> CheckKillSwitch (boot_proxy demo_cmd demo_cfg l)"
  by (simp_all add: boot_proxy_def CheckKillSwitch_def IsActive_def NewProxy_def server_proxy_config_def demo_program_flags
      boot_switch_def boot_activate_def effective_schemes_def effective_ports_def new_switch_def Let_def)
    (simp_all add: demo_prog_def demo_cfg_def zero_program_def as_global_def init_global_def)

lemma demo_allowed_url: "Allowed (fst (CheckURL demo_env ''https://a.io/'' (boot_proxy demo_cmd demo_cfg l)))"
proof -
  have e: "tenv demo_env = ascii_env" "dns demo_env n h = Inr [''93.184.216.34'']" for n h
    by (simp_all add: demo_env_def)
  obtain u where u: "url_parse ''https://a.io/'' = Inr u" "scheme u = ''https''" "hostname u = ''a.io''" "url_port u = []"
    by (simp add: go_eval)
  moreover have "Host ascii_env ''a.io'' = ''a.io''" "parse_ip ''a.io'' = None" by (simp_all add: go_eval)
  moreover have "InScope (IsHostInScope ascii_env (NewEngine ''acme'' (PScope demo_prog)) ''a.io'')"
    "excludeRules (NewEngine ''acme'' (PScope demo_prog)) = []"
    by (simp_all add: IsHostInScope_def NewEngine_def demo_prog_def go_eval)
  moreover have "url_port_number u = Some 443" using u by (simp add: url_port_number_def)
  ultimately show ?thesis
    unfolding CheckURL_Allowed
    by (simp add: demo_boot e demo_ips addresses_ok_def ValidateScheme_def ValidatePort_def CheckPathExclusion_def
        IsURLInScope_def Let_def)
qed

theorem check_covers_server_witness:
  "\<exists>d. runCheck demo_cmd [''https://a.io/''] ''scope.yaml'' = Inr ([(''https://a.io/'', d)], True) \<and> InScope d"
proof -
  let ?s = "''127.0.0.1:8443''"
  obtain s where run: "runServer demo_cmd ''scope.yaml'' ?s ''127.0.0.1:9090'' ''key'' [] = Inr s" by (rule demo_started)
  from runServer_state [OF run] have p: "prx s = boot_proxy demo_cmd demo_cfg ?s" by (auto simp: demo_load)
  have "effective_schemes demo_cfg demo_prog = [''https'']" "effective_ports demo_cfg demo_prog = [443]"
    by (simp_all add: effective_schemes_def effective_ports_def demo_prog_def demo_cfg_def zero_program_def as_global_def init_global_def)
  moreover have "tenv demo_env = ascii_env" by (simp add: demo_env_def)
  moreover have "Allowed (fst (CheckURL demo_env ''https://a.io/'' (prx s)))"
    by (simp add: p demo_allowed_url)
  ultimately show ?thesis
    using check_covers_server [OF run demo_load, of demo_env demo_tools "[]" s "''https://a.io/''"]
    by (simp add: demo_program_flags)
qed

end
