(* ===== verification/Spec2Isabelle.thy ===== *)
theory Spec2Isabelle
  imports Gateway Queue Mcp_Wire Cli
begin

text \<open>
  ScopePilot (\<open>src/cmd/pentest\<close>, \<open>src/internal\<close>): a proxy that lets security tools reach only
  the hosts a program authorises, an MCP server through which agents use it, adapters that run
  BBOT and Nuclei through it, and the command line that configures and starts all this.

  \<^bold>\<open>How the parts interact.\<close> A configuration file (Config) gives a program its scope. The scope
  engine (Scope, over Normalize) decides hosts and URLs. The proxy (Proxy) checks every request,
  CONNECT and redirect against the engine, the block list of addresses, the kill switch
  (Killswitch) and the rate limiter (Ratelimit), pins the addresses it resolved, and logs each
  decision (Audit_Log). The MCP server (Mcp) holds the proxy, the store (Store) and the
  specialists (Specialist), which filter their targets through the adapters' client (Adapter),
  run a tool and write a report (Report). The task queue (Queue) and the orchestrator
  (Orchestrator) feed workers that \<open>spawn\<close> starts. Pentest, Setup, Vpn and Cli are the commands.

  \<^bold>\<open>Theories and sources.\<close>
  Prelude: the result type, the collections \<open>go_eval\<close>, \<open>gostr\<close>, \<open>amap\<close>, \<open>lists\<close> and generic
  facts. Go_Strings, Go_Utf8, Go_Path, Go_Url, Go_Net, Go_Http, Go_Json, Go_Time, Go_Float: what the
  program uses of the standard library; floats are binary64 values with the rounding written out.
  Normalize: internal/normalize. Config: internal/config. Scope: internal/scope. Killswitch:
  internal/killswitch. Ratelimit: internal/ratelimit. Audit_Log: internal/audit. Queue:
  internal/queue. Store: internal/db (store.go, store_default.go). Report: internal/report.
  Adapter: internal/adapter. Specialist: internal/specialist. Vpn: internal/vpn. Proxy with
  Proxy_Safety, Proxy_Pins, Proxy_Demo, Gateway and this theory: internal/proxy/proxy.go.
  Mcp with Mcp_Safety, Mcp_System, Mcp_Wire: internal/mcp. Setup: cmd/pentest/init.go, import.go,
  connect.go. Orchestrator: orchestrator.go. Pentest with Pentest_Demo: main.go (server, discover,
  scan, queue, spawn, health, vpn), check.go. Cli: main.go (\<open>main\<close>, \<open>spawn list\<close>, \<open>spawn stop\<close>,
  \<open>stop\<close>, \<open>status\<close>), up.go, daemon_unix.go.
  Records have the fields of the structs, datatypes their tags, definitions the names of the
  functions. State is passed explicitly (\<open>Proxy\<close>, \<open>Server\<close>, \<open>Queue\<close>, \<open>adapter_state\<close>,
  \<open>vpn_state\<close>, \<open>SpawnState\<close>); a failure is \<open>Inl\<close> of an error datatype; what leaves the process
  (requests, dials, tunnels, lookups, commands) is appended to a trace. A connection is recorded with
  the URL it is for, a tunnel with the host and port it was checked for, and the lookups of the
  programmatic URL check are kept apart from the others: it resolves a host before it asks the
  scope. When the audit database opens, the server logs to the in-memory part of the persistent
  logger, with the rows of the database replayed; when it does not, to an empty log. The answers of DNS, upstream
  servers, files, processes, clocks, identifiers and third-party libraries (YAML, IDNA, SQLite)
  are functions in environment records, and no law is assumed of them unless a property says so.

  \<^bold>\<open>What the lemmas show.\<close> Config, Scope: validation and scope decisions against declarative
  characterisations. Killswitch, Audit_Log, Orchestrator: refinement of a history, a ring buffer
  and a list of tasks. Ratelimit: the rate bound of a bucket with its rounding error. Queue: the
  invariant of the file under any failures, the choice of \<open>Next\<close>, errors leaving the file alone; a
  task is kept as its JSON text keeps it, so invalid UTF-8 in it is replaced (Go_Utf8), and ids stay
  unique when they are valid UTF-8. The temporary file of a save is part of the save: the queue
  file changes at the rename only. Proxy_Safety, Proxy_Pins, Gateway: each event a step emits is
  permitted by the scope of its host or URL, the first connection of a request goes to an address
  its own validation resolved, what the limiter and the redirects of a request do, and the
  invariant of all reachable gateways. Adapter, Specialist: which commands may start and
  with which arguments and environment. Report, Adapter: findings read back from the text of
  the tools. Mcp_Safety, Mcp_System: the kill switch, the commands, the log and the authorisation
  of the server as a state machine. Mcp_Wire: the client's JSON against the server's. Vpn: what a
  successful start saw, and that a start ends. Pentest, Cli: the server that starts has these
  properties, \<open>discover\<close>, \<open>queue add\<close>, \<open>spawn\<close> and \<open>check\<close> respect the scope, and \<open>up\<close> reaches
  the server through \<open>main\<close> and the daemon.
  Locales state the interfaces: \<open>ip_filter\<close> (two address filters), \<open>bounded_log\<close> and \<open>recent_log\<close>
  (audit log, store), \<open>kill_gate\<close>, \<open>rounding\<close>, \<open>specialist\<close> (the three agents); each is
  interpreted on the model's own definitions.

  \<^bold>\<open>Loops and bounds.\<close> The redirect loop carries its counter and stops at ten requests. The
  wait of the VPN manager is a \<open>partial_function (option)\<close>; it is shown to return once the clock
  passes the deadline. The JSON parser counts its depth as the library does. All other
  recursions are structural or have a measure. Integers that Go keeps in an int are int with the
  64-bit range checked where text is parsed; addresses are lists of bytes.

  \<^bold>\<open>Not modelled.\<close> One call of a handler is one step: the interleaving of goroutines inside a
  handler is not, and the requests a specialist makes to the server that runs it are answers of
  its environment. The relay inside a tunnel, the dashboard page, timeouts and context
  cancellation, the sharing of returned slices, output schemas and descriptions of tools, and
  the JSON text of the responses nobody in the program reads are left out; so are printed text,
  the display of \<open>watch\<close>, the ticker of the orchestrator, the Windows stub of the daemon, the
  PostgreSQL store (SQL against an external database) and the test fixture server.
\<close>

text \<open>
  in every state a gateway reaches from its creation by any sequence of requests,
  CONNECTs, batch checks, kill switch operations and limiter resets, in any environments,
  the pinned addresses are bounded and free of blocked addresses, the log and the switch
  satisfy their invariants, and every event that has left the process is permitted: testing
  is enabled, a request and its connection are for a URL with an allowed scheme and port, a
  host in scope and no excluded path, a tunnel is for an allowed port of a host in scope, a
  pinned connection goes to an address off the block list, and a name looked up by a handler
  is a host in scope.
\<close>

theorem gateway_safe:
  assumes "gw_reach E cfg p"
  shows "resolved_ok p \<and> logger_ok (plog p) \<and> switch_ok (switch p)
    \<and> list_all (event_permitted E (NewProxy cfg None)) (trace p)"
  using gw_reach_inv [OF assms] by (simp add: gw_inv_def)

theorem gateway_safe_witness:
  "list_all (event_permitted demo_env (NewProxy demo_config None))
     (trace (snd (ServeHTTP demo_env demo_request demo_proxy)))
   \<and> sent (snd (ServeHTTP demo_env demo_request demo_proxy)) = [demo_x, demo_url]"
  using gateway_safe [OF gw_reach.step [OF gw_reach.start [of None, simplified] refl, of demo_env demo_config "GwServe demo_request"]]
    demo_run(1) by (simp add: demo_proxy_def)

text \<open>
  once the kill switch is active, no sequence of calls other than a deactivation puts
  anything on the network, the switch stays active, and every later request except the
  health check is answered with the kill switch denial.
\<close>

theorem kill_switch_silences:
  assumes "CheckKillSwitch p" "list_all (\<lambda>(E, op). op \<noteq> GwUnkill) ops"
  shows "trace (gw_run ops p) = trace p \<and> CheckKillSwitch (gw_run ops p)
    \<and> (path (req_url r) \<noteq> ''/health'' \<longrightarrow>
        fst (ServeHTTP E r (gw_run ops p)) = RDeny KillSwitchActive)"
  using killed_run [OF assms] kill_switch_blocks [of "gw_run ops p" r E] by auto

theorem kill_switch_silences_witness:
  "trace (gw_run [(demo_env, GwServe demo_request), (demo_env, GwCheck [demo_target])]
     (gw_apply demo_env (GwKill 0 ''admin'') demo_proxy)) = []
   \<and> fst (ServeHTTP demo_env demo_request (gw_run [] (gw_apply demo_env (GwKill 0 ''admin'') demo_proxy)))
       = RDeny KillSwitchActive"
proof -
  let ?k = "gw_apply demo_env (GwKill 0 ''admin'') demo_proxy"
  have k: "CheckKillSwitch ?k" "trace ?k = []"
    by (simp_all add: CheckKillSwitch_def IsActive_def Activate_def demo_defs)
  have "path (req_url demo_request) \<noteq> ''/health''" by (simp add: demo_request_def)
  then show ?thesis
    using kill_switch_silences [OF k(1), of "[(demo_env, GwServe demo_request), (demo_env, GwCheck [demo_target])]"]
      kill_switch_silences [OF k(1), of "[]" demo_request demo_env] k(2) by simp
qed

text \<open>
  C7: one call of the handler sends at most ten requests, redirects included, and sends any
  only when the limiter granted one use for the host of the URL the handler parsed; that one
  use is the whole change of the limiter, so the redirects that follow are not metered
  again.
\<close>

theorem requests_metered:
  "length (sent (snd (ServeHTTP E r p))) \<le> length (sent p) + 10
   \<and> (sent (snd (ServeHTTP E r p)) = sent p
      \<or> (\<exists>v uri. ParseAndNormalizeURL E r = Inr (v, uri)
           \<and> Limiter_Allow (Host (tenv E) (hostname v)) (rl_clock E) (limiter p)
               = (True, limiter (snd (ServeHTTP E r p)))))"
  using metered_ServeHTTP [of E r p] by (auto simp: metered_def)

text \<open>
  C6: a plain request that passes the static checks and resolves to unblocked addresses is
  forwarded to the validated URL, after an allow entry is logged and its addresses are
  pinned, exactly when the limiter admits its host; otherwise it is denied at once with the
  rate limit reason, neither queued nor delayed.
\<close>

theorem permitted_request_forwarded:
  assumes "request_passes E r p v uri ips" "h = Host (tenv E) (hostname v)"
  shows "if fst (Limiter_Allow h (rl_clock E) (limiter p))
    then \<exists>d. ServeHTTP E r p = ForwardRequest E (r\<lparr> req_url := v \<rparr>)
           (LogDecision E ''allow'' d (at_forward E h ips p))
    else fst (ServeHTTP E r p) = RDeny (RateExceeded h)"
proof (cases "fst (Limiter_Allow h (rl_clock E) (limiter p))")
  case True
  then show ?thesis using passes_forwards [OF assms(1)] assms(2) by simp
next
  case False
  have s: "ServeHTTP E r p = serve_resolve E r v h uri p"
    using ServeHTTP_resolves [of r p E v uri] assms by (simp add: request_passes_def)
  have l: "LookupHost E h p = (Inr ips, snd (LookupHost E h p))"
    using assms by (simp add: LookupHost_def clean_answer_def request_passes_def)
  have "\<not> fst (CheckRateLimit E h (storeResolvedIPs E h ips (snd (LookupHost E h p))))"
    using False by (simp add: CheckRateLimit_def storeResolvedIPs_def LookupHost_def emit_def Let_def split_beta)
  moreover have "\<not> DryRun (pconf (storeResolvedIPs E h ips (snd (LookupHost E h p))))"
    using assms(1) by (simp add: storeResolvedIPs_def LookupHost_def emit_def Let_def request_passes_def)
  ultimately have "fst (serve_resolve E r v h uri p) = RDeny (RateExceeded h)"
    using assms by (subst serve_resolve_def, subst l)
      (auto simp: clean_answer_def request_passes_def Let_def reject_def deny_def split: prod.split)
  with s False show ?thesis by simp
qed

theorem permitted_request_forwarded_witness:
  "\<exists>d. ServeHTTP demo_env demo_request demo_proxy
    = ForwardRequest demo_env (demo_request\<lparr> req_url := demo_x \<rparr>)
        (LogDecision demo_env ''allow'' d (at_forward demo_env ''a.io'' [''93.184.216.34''] demo_proxy))"
proof -
  have h: "''a.io'' = Host (tenv demo_env) (hostname demo_x)"
    by (simp add: demo_x_def demo_url_eq demo_env_def go_eval ascii_env_def)
  have "fst (Limiter_Allow ''a.io'' (rl_clock demo_env) (limiter demo_proxy))"
    by (simp add: demo_defs go_eval seconds_of_def)
  then show ?thesis using permitted_request_forwarded [OF demo_passes h] by simp
qed

text \<open>
  C13: a plain request other than the health check, allowed, denied or dry, leaves exactly
  one entry in the log, and so does a CONNECT that is denied by a check; the health check
  and a CONNECT that reaches the hijacking of the connection, established tunnels included,
  leave none.
\<close>

theorem one_audit_entry:
  "if path (req_url r) = ''/health'' then plog (snd (ServeHTTP E r p)) = plog p
   else if req_method r = ''CONNECT'' \<and> unlogged (fst (ServeHTTP E r p))
   then plog (snd (ServeHTTP E r p)) = plog p
   else one_entry p (snd (ServeHTTP E r p))"
  using one_entry_ServeHTTP [of r p E] connect_logged_handle [of p E r]
  by (simp add: ServeHTTP_def connect_logged_def)

text \<open>
  C14: with active testing disabled a call causes no network event at all, and in dry-run
  mode a plain request causes none but DNS lookups.
\<close>

theorem closed_gateway_is_silent:
  assumes "TestingEnabled (pconf p) \<longrightarrow> DryRun (pconf p) \<and> req_method r \<noteq> ''CONNECT''"
  shows "\<exists>evs. trace (snd (ServeHTTP E r p)) = trace p @ evs \<and> list_all is_lookup evs
    \<and> (TestingEnabled (pconf p) \<or> evs = [])"
proof (cases "TestingEnabled (pconf p)")
  case True
  then have "step_ok is_lookup p (snd (ServeHTTP E r p))"
    using assms dry_run_sends_nothing by blast
  with True show ?thesis by (auto simp: step_ok_def)
next
  case False
  then show ?thesis using testing_disabled_silent [OF False] by simp
qed

theorem closed_gateway_is_silent_witness:
  "sent (snd (ServeHTTP demo_env demo_request (demo_proxy\<lparr> pconf := demo_config\<lparr> DryRun := True \<rparr> \<rparr>))) = []"
proof -
  let ?p = "demo_proxy\<lparr> pconf := demo_config\<lparr> DryRun := True \<rparr> \<rparr>"
  have t: "trace ?p = []" by (simp add: demo_proxy_def NewProxy_def)
  have "sent q = []" if "list_all is_lookup (trace q)" for q
    using that by (auto simp: sent_def list_all_iff is_lookup_def split: event.splits)
  then show ?thesis
    using closed_gateway_is_silent [of ?p demo_request demo_env]
    by (auto simp: t) (simp add: demo_request_def)
qed

text \<open>
  C3: a CONNECT opens a tunnel only when the switch is off, testing is enabled, https is
  allowed, the host and port of the authority are in scope, the resolver's answer has no
  blocked address and the limiter lets the host through; the tunnel is dialled at the first
  address of that answer.
\<close>

theorem tunnel_checked:
  assumes "handleConnect E r p = (RTunnel d, p')" "\<not> dialFn p" "dns_nonempty E"
  shows "\<exists>h port ips. tunnel_permitted E p r h port \<and> clean_answer E p h ips
     \<and> d = DialPinned (join_host_port (hd ips) (itoa port))
     \<and> fst (Limiter_Allow h (rl_clock E) (limiter p))"
  by (rule handleConnect_RTunnel [OF assms])

theorem tunnel_checked_witness:
  "\<exists>h port ips. tunnel_permitted demo_env demo_proxy demo_connect h port \<and> clean_answer demo_env demo_proxy h ips
     \<and> ''93.184.216.34:443'' = join_host_port (hd ips) (itoa port)"
proof -
  have "handleConnect demo_env demo_connect demo_proxy
    = (RTunnel (DialPinned ''93.184.216.34:443''), snd (handleConnect demo_env demo_connect demo_proxy))"
    using demo_tunnel by (simp add: prod_eq_iff)
  from tunnel_checked [OF this demo_dials demo_answers] show ?thesis by blast
qed

text \<open>
  C4: without a dial override and with non-empty DNS answers, a plain request that opens a
  connection opens its first one to the first address of the answer that this request's own
  validation (or the renewal of the pin before forwarding) resolved for its own host and
  found free of blocked addresses, on the port of its URL; this is for hosts dialled under
  the name they normalise to.
\<close>

theorem first_dial_pinned:
  assumes "\<not> dialFn p" "dns_nonempty E" "req_method r \<noteq> ''CONNECT''" "pinnable E r"
  shows "dials (snd (ServeHTTP E r p)) = dials p
    \<or> (\<exists>v uri w ips ds. ParseAndNormalizeURL E r = Inr (v, uri) \<and> url_parse (url_string v) = Inr w
         \<and> answer_used E p (Host (tenv E) (hostname v)) = Some ips \<and> ValidateIPs ips = None
         \<and> dials (snd (ServeHTTP E r p)) = dials p
             @ DialPinned (join_host_port (hd ips) (dial_port (new_request_url w))) # ds)"
  by (rule ServeHTTP_first_dial [OF assms])

theorem first_dial_pinned_witness:
  "\<exists>ds. dials (snd (ServeHTTP demo_env demo_request demo_proxy)) = DialPinned ''93.184.216.34:443'' # ds"
proof -
  have p: "pinnable demo_env demo_request"
    by (simp add: pinnable_def demo_parse demo_reparse [unfolded demo_x_def] dialled_as_def)
     (simp add: demo_url_eq canonical_host_def pin_host_def plain_port_def demo_defs go_eval)
  have m: "req_method demo_request \<noteq> ''CONNECT''" by (simp add: demo_request_def)
  have d: "dials demo_proxy = []" "dials (snd (ServeHTTP demo_env demo_request demo_proxy)) \<noteq> []"
    using demo_run(3) by (simp_all add: dials_def demo_proxy_def NewProxy_def)
  have a: "answer_used demo_env demo_proxy (Host (tenv demo_env) (hostname demo_x)) = Some [''93.184.216.34'']"
    by (simp add: answer_used_def repinned_def demo_ips demo_env_def)
  have j: "join_host_port ''93.184.216.34'' (dial_port demo_x) = ''93.184.216.34:443''"
    by (simp add: demo_x_def demo_url_eq dial_port_def go_eval)
  show ?thesis
    using first_dial_pinned [OF demo_dials demo_answers m p] d a j
    by (auto simp: demo_parse demo_x_def [symmetric] demo_reparse demo_new)
qed

text \<open>
  C8: when a request of the forwarding client is answered with a redirect, the client goes
  on to the target, with the target's resolved addresses pinned, exactly when fewer than ten
  requests were made and the target has a host, an allowed scheme and port, a host in scope,
  no excluded path and a DNS answer free of blocked addresses; otherwise nothing more is
  sent, and the result is the redirect response itself at the tenth request and an error for
  a refused target. The kill switch, the testing flag and the limiter play no part.
\<close>

theorem redirect_validated:
  assumes "round_trip E u p = (HopRedirect v resp, p1)" "h = Host (tenv E) (hostname v)"
  shows "if redirect_ok E p1 v \<and> Suc via < 10
    then \<exists>ips q. dns E (lookups p1) h = Inr ips \<and> client_do E via u p = client_do E (Suc via) v q
           \<and> pinned q h ips \<and> sent q = sent p @ [u]
    else sent (snd (client_do E via u p)) = sent p @ [u]
      \<and> (if redirect_ok E p1 v then fst (client_do E via u p) = Inr resp
         else \<exists>e. fst (client_do E via u p) = Inl (RedirectError e))"
  using client_do_followed [OF assms(1)] client_do_stopped [OF assms(1)] assms(2) by simp

theorem redirect_validated_witness:
  "\<exists>q. client_do demo_env 0 demo_x demo_pinned = client_do demo_env 1 demo_url q
     \<and> pinned q ''a.io'' [''93.184.216.34''] \<and> sent q = [demo_x]"
proof -
  obtain q1 where q1: "round_trip demo_env demo_x demo_pinned = (HopRedirect demo_url moved, q1)"
    "fixed q1 = fixed demo_proxy"
    using demo_round [of demo_x demo_pinned] demo_pinned_eqs by auto
  have h: "''a.io'' = Host (tenv demo_env) (hostname demo_url)"
    by (simp add: demo_url_eq demo_env_def go_eval)
  have "redirect_ok demo_env q1 demo_url"
    using demo_permitted(1) fixed_permitted(1) [OF q1(2), of demo_env] demo_ips
    by (simp add: redirect_ok_def h [symmetric]) (simp add: demo_env_def)
  then show ?thesis
    using redirect_validated [OF q1(1) h, of 0] demo_pinned_eqs(3) by (auto simp: demo_env_def)
qed

text \<open>
  the programmatic check allows a URL exactly when it parses, has a host, the switch is
  off, testing is enabled, scheme and port are allowed, its literal address or its DNS
  answer is unblocked, and the scope engine and the path exclusions accept it.
\<close>

theorem checked_urls:
  "Allowed (fst (CheckURL E raw p)) \<longleftrightarrow>
     (\<exists>u. url_parse raw = Inr u \<and> hostname u \<noteq> [] \<and> \<not> CheckKillSwitch p \<and> TestingEnabled (pconf p)
        \<and> ValidateScheme p (scheme u) \<and> snd (ValidatePort p (url_port u) (scheme u))
        \<and> addresses_ok E p (Host (tenv E) (hostname u))
        \<and> InScope (IsURLInScope (tenv E) (engine p) raw (PSchemes (pconf p)) (PPorts (pconf p)))
        \<and> \<not> CheckPathExclusion E p (Host (tenv E) (hostname u)) (path u))"
  by (rule CheckURL_Allowed)

text \<open>
  a batch check gives one result per URL in order, and changes neither log, limiter nor
  pins; all it does on the network is DNS lookups.
\<close>

theorem safe_check_is_dry:
  "map CRurl (fst (RunSafeCheck E us p)) = us
   \<and> step_ok is_lookup p (snd (RunSafeCheck E us p)) \<and> books (snd (RunSafeCheck E us p)) = books p
   \<and> resolvedIPs (snd (RunSafeCheck E us p)) = resolvedIPs p"
  using RunSafeCheck_urls RunSafeCheck_steps by blast

text \<open>
  the headers of a forwarded request contain no hop-by-hop header and no header that
  the Connection header names.
\<close>

theorem outgoing_headers_stripped:
  assumes "canonical_header h"
    and "k \<in> canonical_key ` (set hopByHop \<union> set (connection_names h))"
  shows "map_of (header_copy (stripHopByHopHeaders h) []) k = None"
  by (rule outgoing_header [OF assms])

theorem outgoing_headers_stripped_witness:
  "map_of (header_copy (stripHopByHopHeaders (req_header demo_request)) []) ''X-A'' = None"
  by (rule outgoing_headers_stripped) (simp_all add: canonical_header_def demo_request_def go_eval)

text \<open>
  redaction removes exactly Authorization, Cookie and Set-Cookie from the response.
\<close>

theorem response_headers_redacted:
  "map_of (RedactResponseHeaders h) k =
    (if k \<in> {''Authorization'', ''Cookie'', ''Set-Cookie''} then None else map_of h k)"
  by (rule RedactResponseHeaders_map)

text \<open>
  the proxy's own copy of the address check decides as the scope engine's does, for
  every address.
\<close>

theorem both_block_lists_agree: "proxy_isBlockedIP = Scope.isBlockedIP"
  by (rule proxy_isBlockedIP_eq)

end
